(* ===== verification/Prelude.thy ===== *)
theory Prelude
  imports Complex_Main "HOL-Library.Word" "HOL-Library.Sublist"
begin

text \<open>
  Shared vocabulary of the development: the fixed-width types, the part of the C library that
  the sources use on byte buffers and strings (\<open>memchr\<close>, \<open>memmem\<close>, \<open>strncmp\<close>,
  \<open>strncasecmp\<close>, \<open>strtoul\<close>, \<open>atoi\<close>, \<open>isspace\<close>, \<open>strncpy\<close> into a
  fixed array, the conversions of \<open>printf\<close>), and generic lemmas on searches and lists.

  A byte buffer is a \<open>string\<close> (a list of 8-bit characters), so a pointer and a length are
  one list, and a NUL-terminated string is the part of the buffer before its first zero byte.
\<close>

named_theorems c_string \<open>facts on the C string functions\<close>
named_theorems searches \<open>facts on linear searches\<close>

type_synonym byte = "8 word"
type_synonym u32 = "32 word"
type_synonym u64 = "64 word"

abbreviation SIZE_MAX :: nat where "SIZE_MAX \<equiv> 18446744073709551615"
abbreviation ULONG_MAX :: nat where "ULONG_MAX \<equiv> 18446744073709551615"
abbreviation INT_MAX :: int where "INT_MAX \<equiv> 2147483647"

abbreviation NUL :: char where "NUL \<equiv> CHR 0x00"
abbreviation TAB :: char where "TAB \<equiv> CHR 0x09"
abbreviation LF :: char where "LF \<equiv> CHR 0x0A"
abbreviation CR :: char where "CR \<equiv> CHR 0x0D"
abbreviation SP :: char where "SP \<equiv> CHR 0x20"
abbreviation DQUOTE :: char where "DQUOTE \<equiv> CHR 0x22"
abbreviation BSLASH :: char where "BSLASH \<equiv> CHR 0x5C"
abbreviation CRLF :: string where "CRLF \<equiv> [CR, LF]"

subsection \<open>Linear search\<close>

text \<open>
  Every search loop of the sources looks for the first position whose remaining input satisfies
  a test. The result is the offset, or \<open>None\<close> for the NULL pointer / -1.
\<close>

fun find_suffix :: "('a list \<Rightarrow> bool) \<Rightarrow> 'a list \<Rightarrow> nat option" where
  "find_suffix P [] = (if P [] then Some 0 else None)"
| "find_suffix P (x # xs) = (if P (x # xs) then Some 0 else map_option Suc (find_suffix P xs))"

lemma all_drop_Cons:
  "(\<forall>i \<le> Suc n. Q (drop i (x # xs))) \<longleftrightarrow> Q (x # xs) \<and> (\<forall>i \<le> n. Q (drop i xs))"
proof (intro iffI conjI allI impI)
  fix i
  assume h: "\<forall>i \<le> Suc n. Q (drop i (x # xs))" and "i \<le> n"
  then show "Q (drop i xs)" using h [rule_format, of "Suc i"] by simp
next
  fix i
  assume "Q (x # xs) \<and> (\<forall>i \<le> n. Q (drop i xs))" and "i \<le> Suc n"
  then show "Q (drop i (x # xs))" by (cases i) auto
qed (metis drop0 le0)

lemma find_suffix_None_iff [searches]:
  "find_suffix P xs = None \<longleftrightarrow> (\<forall>i \<le> length xs. \<not> P (drop i xs))"
proof (induction xs)
  case (Cons x xs)
  then show ?case using all_drop_Cons [where Q = "\<lambda>s. \<not> P s" and n = "length xs"] by simp
qed simp

lemma find_suffix_SomeD:
  assumes "find_suffix P xs = Some n"
  shows "n \<le> length xs \<and> P (drop n xs) \<and> (\<forall>i < n. \<not> P (drop i xs))"
  using assms
proof (induction xs arbitrary: n)
  case Nil
  then show ?case by (simp split: if_splits)
next
  case (Cons x xs)
  show ?case
  proof (cases "P (x # xs)")
    case True
    then show ?thesis using Cons.prems by simp
  next
    case False
    with Cons.prems obtain m where m: "find_suffix P xs = Some m" "n = Suc m"
      by auto
    have "\<forall>i < n. \<not> P (drop i (x # xs))"
    proof (intro allI impI)
      fix i
      assume "i < n"
      then show "\<not> P (drop i (x # xs))"
        using False Cons.IH [OF m(1)] m(2) by (cases i) auto
    qed
    then show ?thesis using Cons.IH [OF m(1)] m(2) by simp
  qed
qed

lemma find_suffix_SomeI:
  assumes "n \<le> length xs" "P (drop n xs)" "\<And>i. i < n \<Longrightarrow> \<not> P (drop i xs)"
  shows "find_suffix P xs = Some n"
proof (cases "find_suffix P xs")
  case None
  then show ?thesis using assms by (simp add: find_suffix_None_iff)
next
  case (Some m)
  have "\<not> m < n" "\<not> n < m"
    using find_suffix_SomeD [OF Some] assms(2,3) by blast+
  then show ?thesis using Some by simp
qed

lemma find_suffix_Some_iff [searches]:
  "find_suffix P xs = Some n \<longleftrightarrow>
     n \<le> length xs \<and> P (drop n xs) \<and> (\<forall>i < n. \<not> P (drop i xs))"
  using find_suffix_SomeD find_suffix_SomeI by metis

text \<open>
  Restarting a search at an offset before which nothing matches gives the same answer: the
  fact behind every incremental scan.
\<close>

lemma find_suffix_resume:
  assumes "k \<le> length xs" and "\<And>i. i < k \<Longrightarrow> \<not> P (drop i xs)"
  shows "map_option (\<lambda>n. n + k) (find_suffix P (drop k xs)) = find_suffix P xs"
proof (cases "find_suffix P (drop k xs)")
  case None
  have "\<not> P (drop i xs)" if "i \<le> length xs" for i
  proof (cases "i < k")
    case True
    then show ?thesis by (rule assms(2))
  next
    case False
    then have "drop i xs = drop (i - k) (drop k xs)" by simp
    moreover have "i - k \<le> length (drop k xs)" using that by simp
    ultimately show ?thesis using None by (metis find_suffix_None_iff)
  qed
  then have "find_suffix P xs = None" by (simp add: find_suffix_None_iff)
  then show ?thesis using None by simp
next
  case (Some n)
  have "find_suffix P xs = Some (n + k)"
  proof (rule find_suffix_SomeI)
    show "n + k \<le> length xs" using find_suffix_SomeD [OF Some] assms(1) by auto
    show "P (drop (n + k) xs)" using find_suffix_SomeD [OF Some] by (simp add: add.commute)
    fix i
    assume i: "i < n + k"
    show "\<not> P (drop i xs)"
    proof (cases "i < k")
      case True
      then show ?thesis by (rule assms(2))
    next
      case False
      then have "drop i xs = drop (i - k) (drop k xs)" "i - k < n" using i by auto
      then show ?thesis using find_suffix_SomeD [OF Some] by metis
    qed
  qed
  then show ?thesis using Some by simp
qed

subsection \<open>Buffers and C strings\<close>

definition has_prefix :: "'a list \<Rightarrow> 'a list \<Rightarrow> bool" where
  "has_prefix p s = (take (length p) s = p)"

definition memchr :: "char \<Rightarrow> string \<Rightarrow> nat option" where
  "memchr c s = find_suffix (\<lambda>t. has_prefix [c] t) s"

definition memmem :: "string \<Rightarrow> string \<Rightarrow> nat option" where
  "memmem p s = find_suffix (has_prefix p) s"

definition cstr :: "string \<Rightarrow> string" where
  "cstr s = takeWhile (\<lambda>c. c \<noteq> NUL) s"

text \<open>\<open>strchr\<close>, \<open>strstr\<close> and \<open>strncmp(s, lit, n) == 0\<close> stop at the terminator.\<close>

definition strchr :: "string \<Rightarrow> char \<Rightarrow> nat option" where
  "strchr s c = memchr c (cstr s)"

definition strstr :: "string \<Rightarrow> string \<Rightarrow> nat option" where
  "strstr s p = memmem p (cstr s)"

lemma has_prefix_iff: "has_prefix p s \<longleftrightarrow> (\<exists>t. s = p @ t)"
  by (auto simp: has_prefix_def) (metis append_take_drop_id)

lemma has_prefix_length: "has_prefix p s \<Longrightarrow> length p \<le> length s"
  by (auto simp: has_prefix_iff)

lemma has_prefix_simps [simp]:
  "has_prefix [] s"
  "\<not> has_prefix (a # p) []"
  "has_prefix (a # p) (b # s) \<longleftrightarrow> a = b \<and> has_prefix p s"
  by (auto simp: has_prefix_def)

lemma has_prefix_append [simp]: "has_prefix p (p @ s)"
  by (simp add: has_prefix_def)

lemma has_prefix_append_left: "has_prefix p s \<Longrightarrow> has_prefix p (s @ t)"
  by (auto simp: has_prefix_iff)

lemma cstr_no_NUL [simp]: "NUL \<notin> set (cstr s)"
  by (auto simp: cstr_def dest: set_takeWhileD)

lemma cstr_id: "NUL \<notin> set s \<Longrightarrow> cstr s = s"
  by (auto simp: cstr_def takeWhile_eq_all_conv)

lemma length_cstr_le: "length (cstr s) \<le> length s"
  by (simp add: cstr_def length_takeWhile_le)

lemma set_cstr: "set (cstr s) \<subseteq> set s"
  by (auto simp: cstr_def dest: set_takeWhileD)

lemma memchr_None_iff [searches]: "memchr c s = None \<longleftrightarrow> c \<notin> set s"
  by (induction s) (auto simp: memchr_def)

lemma memchr_Some_iff [searches]:
  "memchr c s = Some n \<longleftrightarrow> n < length s \<and> s ! n = c \<and> c \<notin> set (take n s)"
proof (induction s arbitrary: n)
  case Nil
  then show ?case by (simp add: memchr_def)
next
  case (Cons x s)
  then show ?case by (cases n) (auto simp: memchr_def)
qed

lemma memchr_append_notin: "c \<notin> set s \<Longrightarrow> memchr c (s @ c # t) = Some (length s)"
  by (simp add: memchr_Some_iff)

lemma memchr_append_none: "c \<notin> set s \<Longrightarrow> memchr c (s @ t) = map_option (\<lambda>n. n + length s) (memchr c t)"
  by (induction s) (auto simp: memchr_def option.map_comp comp_def option.map_ident)

lemma memchr_split:
  assumes "memchr c s = Some n"
  shows "s = take n s @ c # drop (Suc n) s"
  using assms id_take_nth_drop [of n s] by (simp add: memchr_Some_iff)

lemma memmem_Some_bound: "memmem p s = Some n \<Longrightarrow> n + length p \<le> length s"
  by (auto simp: memmem_def dest!: find_suffix_SomeD has_prefix_length)

lemma memmem_None_iff [searches]: "memmem p s = None \<longleftrightarrow> \<not> sublist p s"
proof
  assume n: "memmem p s = None"
  show "\<not> sublist p s"
  proof
    assume "sublist p s"
    then obtain a b where s: "s = a @ p @ b" by (auto simp: sublist_def)
    then have "has_prefix p (drop (length a) s)" "length a \<le> length s" by auto
    then show False using n by (auto simp: memmem_def find_suffix_None_iff)
  qed
next
  assume n: "\<not> sublist p s"
  have "\<not> has_prefix p (drop i s)" for i
    using n by (metis append_take_drop_id has_prefix_iff sublist_appendI)
  then show "memmem p s = None"
    by (simp add: memmem_def find_suffix_None_iff)
qed


subsection \<open>Characters and numbers\<close>

definition isspace :: "char \<Rightarrow> bool" where
  "isspace c = (c \<in> {SP, TAB, LF, CHR 0x0B, CHR 0x0C, CR})"

definition isdigit :: "char \<Rightarrow> bool" where
  "isdigit c = (48 \<le> (of_char c :: nat) \<and> (of_char c :: nat) \<le> 57)"

definition tolower :: "char \<Rightarrow> char" where
  "tolower c = (if 65 \<le> (of_char c :: nat) \<and> (of_char c :: nat) \<le> 90
                then char_of ((of_char c :: nat) + 32) else c)"

text \<open>\<open>strncasecmp(s, lit, strlen(lit)) == 0\<close> and \<open>strcasecmp(s, lit) == 0\<close>.\<close>

definition strncaseeq :: "string \<Rightarrow> string \<Rightarrow> bool" where
  "strncaseeq s lit = (map tolower (take (length lit) s) = map tolower lit)"

definition strcaseeq :: "string \<Rightarrow> string \<Rightarrow> bool" where
  "strcaseeq s lit = (map tolower (cstr s) = map tolower lit)"

definition trim :: "string \<Rightarrow> string" where
  "trim s = rev (dropWhile isspace (rev (dropWhile isspace (cstr s))))"

definition digits_val :: "string \<Rightarrow> nat" where
  "digits_val s = foldl (\<lambda>v c. 10 * v + ((of_char c :: nat) - 48)) 0 s"

text \<open>
  \<open>strtoul(s, \&end, 10)\<close> and \<open>strtol(s, \&end, 10)\<close>: the value, the number of
  characters consumed (0 when there is no number) and whether \<open>errno\<close> is \<open>ERANGE\<close>.
\<close>

definition num_sign :: "string \<Rightarrow> bool \<times> string" where
  "num_sign s = (case s of [] \<Rightarrow> (False, [])
     | c # r \<Rightarrow> if c = CHR ''-'' then (True, r) else if c = CHR ''+'' then (False, r) else (False, s))"

definition num_scan :: "string \<Rightarrow> bool \<times> nat \<times> nat" where
  "num_scan s = (let s1 = dropWhile isspace s; (neg, s2) = num_sign s1; ds = takeWhile isdigit s2
     in (neg, digits_val ds, if ds = [] then 0 else length s - length s2 + length ds))"

definition strtoul :: "string \<Rightarrow> nat \<times> nat \<times> bool" where
  "strtoul s = (let (neg, v, k) = num_scan s in
     if ULONG_MAX < v then (ULONG_MAX, k, True)
     else ((if neg then (2 ^ 64 - v) mod 2 ^ 64 else v), k, False))"

definition strtol :: "string \<Rightarrow> int \<times> nat \<times> bool" where
  "strtol s = (let (neg, v, k) = num_scan s; x = (if neg then - int v else int v) in
     if x < - (2 ^ 63) then (- (2 ^ 63), k, True)
     else if 2 ^ 63 - 1 < x then (2 ^ 63 - 1, k, True) else (x, k, False))"

definition atoi :: "string \<Rightarrow> int" where
  "atoi s = sint (word_of_int (fst (strtol s)) :: 32 word)"

text \<open>The conversions \<open>%lu\<close>, \<open>%d\<close> and \<open>%lx\<close> of the \<open>printf\<close> family.\<close>

fun fmt_u :: "nat \<Rightarrow> string" where
  "fmt_u n = (if n < 10 then [char_of (48 + n)] else fmt_u (n div 10) @ [char_of (48 + n mod 10)])"

declare fmt_u.simps [simp del]

definition fmt_d :: "int \<Rightarrow> string" where
  "fmt_d i = (if i < 0 then CHR ''-'' # fmt_u (nat (- i)) else fmt_u (nat i))"

definition hex_digit :: "nat \<Rightarrow> char" where
  "hex_digit d = char_of (if d < 10 then 48 + d else 87 + d)"

fun fmt_x :: "nat \<Rightarrow> string" where
  "fmt_x n = (if n < 16 then [hex_digit n] else fmt_x (n div 16) @ [hex_digit (n mod 16)])"

declare fmt_x.simps [simp del]

text \<open>
  \<open>snprintf(buf, n, ...)\<close> stores at most \<open>n - 1\<close> characters and returns the length of the
  whole text; \<open>strncpy(dst, src, n - 1)\<close> into a zero-terminated array of \<open>n\<close> bytes keeps as
  many.
\<close>

definition snprintf_buf :: "nat \<Rightarrow> string \<Rightarrow> string" where
  "snprintf_buf n s = take (n - 1) s"

text \<open>\<open>printf\<close>'s \<open>%.nf\<close> rounds the exact value of its argument to \<open>n\<close> decimals, ties to even.\<close>

definition round_half_even :: "rat \<Rightarrow> int" where
  "round_half_even x = (let f = \<lfloor>x\<rfloor>; d = x - of_int f in
     if d < 1 / 2 then f else if 1 / 2 < d then f + 1 else if even f then f else f + 1)"

definition zero_pad :: "nat \<Rightarrow> string \<Rightarrow> string" where
  "zero_pad n s = replicate (n - length s) (CHR ''0'') @ s"

definition fmt_f :: "nat \<Rightarrow> rat \<Rightarrow> string" where
  "fmt_f n x = (let r = nat (round_half_even (\<bar>x\<bar> * 10 ^ n)) in
     (if x < 0 then ''-'' else []) @ fmt_u (r div 10 ^ n) @ ''.'' @ zero_pad n (fmt_u (r mod 10 ^ n)))"

definition quoted :: "string \<Rightarrow> string" where "quoted s = [DQUOTE] @ s @ [DQUOTE]"

definition strncpy_buf :: "nat \<Rightarrow> string \<Rightarrow> string" where
  "strncpy_buf n s = take (n - 1) (cstr s)"

lemma length_strncpy_buf: "0 < n \<Longrightarrow> length (strncpy_buf n s) < n"
  by (auto simp: strncpy_buf_def min_def)

lemma length_snprintf_buf: "0 < n \<Longrightarrow> length (snprintf_buf n s) < n"
  by (auto simp: snprintf_buf_def min_def)

lemma fmt_u_not_Nil [simp]: "fmt_u n \<noteq> []"
  by (subst fmt_u.simps) simp

lemma digits_val_snoc: "digits_val (s @ [c]) = 10 * digits_val s + ((of_char c :: nat) - 48)"
  by (simp add: digits_val_def)

lemma fmt_u_digits: "c \<in> set (fmt_u n) \<Longrightarrow> isdigit c"
proof (induction n rule: fmt_u.induct)
  case (1 n)
  show ?case
  proof (cases "n < 10")
    case True
    then show ?thesis using "1.prems" by (subst (asm) fmt_u.simps) (simp add: isdigit_def)
  next
    case False
    then show ?thesis using 1
      by (subst (asm) (2) fmt_u.simps) (auto simp: isdigit_def)
  qed
qed

lemma digits_val_fmt_u: "digits_val (fmt_u n) = n"
proof (induction n rule: fmt_u.induct)
  case (1 n)
  show ?case
  proof (cases "n < 10")
    case True
    then show ?thesis by (subst fmt_u.simps) (simp add: digits_val_def)
  next
    case False
    then show ?thesis using 1 by (subst fmt_u.simps) (simp add: digits_val_snoc)
  qed
qed

lemma length_fmt_u: "n < 10 ^ k \<Longrightarrow> 0 < k \<Longrightarrow> length (fmt_u n) \<le> k"
proof (induction n arbitrary: k rule: fmt_u.induct)
  case (1 n)
  show ?case
  proof (cases "n < 10")
    case True
    then show ?thesis using "1.prems" by (subst fmt_u.simps) simp
  next
    case False
    then have "k \<noteq> 1" using "1.prems" by auto
    then obtain j where j: "k = Suc j" "0 < j" using "1.prems" by (cases k) auto
    then have "n div 10 < 10 ^ j" using "1.prems" by (simp add: div_less_iff_less_mult)
    then show ?thesis using "1.IH" [OF False, of j] j False by (subst fmt_u.simps) simp
  qed
qed

text \<open>Reading back a printed number: \<open>strtoul\<close> on \<open>%lu\<close> output.\<close>

lemma isdigit_not_space: "isdigit c \<Longrightarrow> \<not> isspace c"
  by (auto simp: isdigit_def isspace_def)

lemma takeWhile_digits:
  assumes "\<And>c. c \<in> set ds \<Longrightarrow> isdigit c" and "t = [] \<or> \<not> isdigit (hd t)"
  shows "takeWhile isdigit (ds @ t) = ds"
  using assms by (induction ds) (cases t; auto)+

lemma num_scan_fmt_u:
  assumes "t = [] \<or> \<not> isdigit (hd t)"
  shows "num_scan (fmt_u n @ t) = (False, n, length (fmt_u n))"
proof -
  obtain c r where cr: "fmt_u n = c # r" using fmt_u_not_Nil by (metis neq_Nil_conv)
  then have c: "isdigit c" using fmt_u_digits by (metis list.set_intros(1))
  have "dropWhile isspace (fmt_u n @ t) = fmt_u n @ t"
    using c by (simp add: cr isdigit_not_space)
  moreover have "num_sign (fmt_u n @ t) = (False, fmt_u n @ t)"
    using c by (auto simp: cr num_sign_def isdigit_def)
  moreover have "takeWhile isdigit (fmt_u n @ t) = fmt_u n"
    by (rule takeWhile_digits) (use assms fmt_u_digits in auto)
  ultimately show ?thesis by (simp add: num_scan_def digits_val_fmt_u)
qed

lemma strtoul_fmt_u:
  assumes "n \<le> ULONG_MAX" and "t = [] \<or> \<not> isdigit (hd t)"
  shows "strtoul (fmt_u n @ t) = (n, length (fmt_u n), False)"
  using assms by (simp add: strtoul_def num_scan_fmt_u)

lemma strtoul_le: "fst (strtoul s) \<le> ULONG_MAX"
  by (auto simp: strtoul_def split: prod.splits)

lemma unat_of_int_small:
  "0 \<le> k \<Longrightarrow> k < 2 ^ LENGTH('a) \<Longrightarrow> unat (word_of_int k :: 'a :: len word) = nat k"
  by (simp add: unat_eq_nat_uint uint_word_of_int)

subsection \<open>Reading a file line by line\<close>

text \<open>
  \<open>fgets(line, n, f)\<close> reads up to \<open>n - 1\<close> characters and stops after a newline;
  \<open>fgets_lines\<close> is the sequence of buffers that a \<open>while (fgets(...))\<close> loop sees.
\<close>

definition fgets_len :: "nat \<Rightarrow> string \<Rightarrow> nat" where
  "fgets_len n s = min (n - 1) (case memchr LF s of None \<Rightarrow> length s | Some i \<Rightarrow> i + 1)"

lemma fgets_len_pos: "s \<noteq> [] \<Longrightarrow> 1 < n \<Longrightarrow> 0 < fgets_len n s"
  by (auto simp: fgets_len_def split: option.splits)

lemma fgets_len_le: "fgets_len n s \<le> length s"
  by (auto simp: fgets_len_def memchr_Some_iff split: option.splits)

function fgets_lines :: "nat \<Rightarrow> string \<Rightarrow> string list" where
  "fgets_lines n s = (if s = [] \<or> n \<le> 1 then []
     else take (fgets_len n s) s # fgets_lines n (drop (fgets_len n s) s))"
  by pat_completeness auto
termination
  by (relation "measure (\<lambda>(n, s). length s)") (auto simp: fgets_len_pos)

declare fgets_lines.simps [simp del]

lemma concat_fgets_lines: "1 < n \<Longrightarrow> concat (fgets_lines n s) = s"
proof (induction n s rule: fgets_lines.induct)
  case (1 n s)
  then show ?case by (subst fgets_lines.simps) auto
qed

lemma length_fgets_lines: "l \<in> set (fgets_lines n s) \<Longrightarrow> length l < n"
proof (induction n s rule: fgets_lines.induct)
  case (1 n s)
  show ?case
  proof (cases "s = [] \<or> n \<le> 1")
    case True
    then show ?thesis using "1.prems" by (subst (asm) fgets_lines.simps) auto
  next
    case False
    then have "length (take (fgets_len n s) s) < n" unfolding length_take fgets_len_def by linarith
    then show ?thesis using "1.prems" "1.IH" [OF False] False
      by (subst (asm) fgets_lines.simps) auto
  qed
qed

end
