(* ===== verification/Network.thy ===== *)
theory Network
  imports Prelude
begin

text \<open>
  \<^verbatim>\<open>src/src/network.c\<close>: the Bitcoin networks, their names and the recognition of an address's
  network from its prefix. The enum value -1 of the C code (\<open>unknown\<close>) is \<open>None\<close>.
\<close>

datatype BitcoinChain = CHAIN_MAINNET | CHAIN_TESTNET | CHAIN_SIGNET | CHAIN_REGTEST | CHAIN_MIXED

datatype AddressCheckResult = ADDR_MATCH | ADDR_WRONG_NETWORK | ADDR_INVALID

definition network_chain_from_string :: "string option \<Rightarrow> BitcoinChain option" where
  "network_chain_from_string nm = (case nm of None \<Rightarrow> None | Some name \<Rightarrow>
     if strcaseeq name ''mainnet'' \<or> strcaseeq name ''main'' then Some CHAIN_MAINNET
     else if strcaseeq name ''testnet'' \<or> strcaseeq name ''testnet3'' \<or> strcaseeq name ''test'' then Some CHAIN_TESTNET
     else if strcaseeq name ''signet'' then Some CHAIN_SIGNET
     else if strcaseeq name ''regtest'' \<or> strcaseeq name ''reg'' then Some CHAIN_REGTEST
     else if strcaseeq name ''mixed'' \<or> strcaseeq name ''multi'' \<or> strcaseeq name ''multichain'' then Some CHAIN_MIXED
     else None)"

fun network_chain_to_string :: "BitcoinChain \<Rightarrow> string" where
  "network_chain_to_string CHAIN_MAINNET = ''mainnet''"
| "network_chain_to_string CHAIN_TESTNET = ''testnet''"
| "network_chain_to_string CHAIN_SIGNET = ''signet''"
| "network_chain_to_string CHAIN_REGTEST = ''regtest''"
| "network_chain_to_string CHAIN_MIXED = ''mixed''"

definition network_get_header_value :: "BitcoinChain \<Rightarrow> string" where
  "network_get_header_value chain = network_chain_to_string chain"

text \<open>\<open>strncmp(address, "bcrt1", 4)\<close> looks at four characters only.\<close>

definition detect_address_network :: "string option \<Rightarrow> BitcoinChain option" where
  "detect_address_network addr = (case addr of None \<Rightarrow> None | Some address \<Rightarrow>
     if length address < 2 then None
     else if has_prefix ''bc1'' address then Some CHAIN_MAINNET
     else if has_prefix ''tb1'' address then Some CHAIN_TESTNET
     else if has_prefix ''bcrt'' address then Some CHAIN_REGTEST
     else let first = hd address in
       if first = CHR ''1'' then Some CHAIN_MAINNET
       else if first = CHR ''3'' then Some CHAIN_MAINNET
       else if first = CHR ''m'' \<or> first = CHR ''n'' then Some CHAIN_TESTNET
       else if first = CHR ''2'' then Some CHAIN_TESTNET
       else None)"

definition network_check_address ::
    "BitcoinChain \<Rightarrow> string option \<Rightarrow> AddressCheckResult \<times> BitcoinChain option" where
  "network_check_address expected address = (case detect_address_network address of
     None \<Rightarrow> (ADDR_INVALID, None)
   | Some detected \<Rightarrow>
      (if expected = CHAIN_REGTEST \<and> detected = CHAIN_TESTNET then
         (if has_prefix ''tb1'' (the address) then ADDR_WRONG_NETWORK else ADDR_MATCH)
       else if expected = CHAIN_SIGNET \<and> detected = CHAIN_TESTNET then ADDR_MATCH
       else if expected = CHAIN_TESTNET \<and> detected = CHAIN_TESTNET then ADDR_MATCH
       else if expected = detected then ADDR_MATCH
       else ADDR_WRONG_NETWORK, Some detected))"

fun chain_num :: "BitcoinChain \<Rightarrow> nat" where
  "chain_num CHAIN_MAINNET = 0"
| "chain_num CHAIN_TESTNET = 1"
| "chain_num CHAIN_SIGNET = 2"
| "chain_num CHAIN_REGTEST = 3"
| "chain_num CHAIN_MIXED = 4"

definition address_warnings :: "string option list list" where
  "address_warnings =
   [[None,
     Some ''Warning: This appears to be a TESTNET address. Server is running on MAINNET.'',
     Some ''Warning: This appears to be a SIGNET address. Server is running on MAINNET.'',
     Some ''Warning: This appears to be a REGTEST address. Server is running on MAINNET.''],
    [Some ''Warning: This appears to be a MAINNET address. Server is running on TESTNET.'',
     None,
     None,
     Some ''Warning: This appears to be a REGTEST address. Server is running on TESTNET.''],
    [Some ''Warning: This appears to be a MAINNET address. Server is running on SIGNET.'',
     None,
     None,
     Some ''Warning: This appears to be a REGTEST address. Server is running on SIGNET.''],
    [Some ''Warning: This appears to be a MAINNET address. Server is running on REGTEST.'',
     Some ''Warning: This appears to be a TESTNET address. Server is running on REGTEST.'',
     Some ''Warning: This appears to be a SIGNET address. Server is running on REGTEST.'',
     None]]"

definition network_get_address_warning :: "BitcoinChain \<Rightarrow> BitcoinChain \<Rightarrow> string option" where
  "network_get_address_warning server_chain address_chain =
    (if chain_num server_chain > chain_num CHAIN_REGTEST \<or> chain_num address_chain > chain_num CHAIN_REGTEST
     then Some ''Warning: Unknown network mismatch detected.''
     else address_warnings ! chain_num server_chain ! chain_num address_chain)"

definition network_is_test_network :: "BitcoinChain \<Rightarrow> bool" where
  "network_is_test_network chain = (chain \<noteq> CHAIN_MAINNET \<and> chain \<noteq> CHAIN_MIXED)"

fun network_get_banner_text :: "BitcoinChain \<Rightarrow> string option" where
  "network_get_banner_text CHAIN_MAINNET = None"
| "network_get_banner_text CHAIN_MIXED = None"
| "network_get_banner_text CHAIN_TESTNET = Some ''TESTNET - Coins have no value''"
| "network_get_banner_text CHAIN_SIGNET = Some ''SIGNET - Coins have no value''"
| "network_get_banner_text CHAIN_REGTEST = Some ''REGTEST - Local test network''"

fun network_get_banner_class :: "BitcoinChain \<Rightarrow> string option" where
  "network_get_banner_class CHAIN_MAINNET = None"
| "network_get_banner_class CHAIN_MIXED = None"
| "network_get_banner_class CHAIN_TESTNET = Some ''network-banner-testnet''"
| "network_get_banner_class CHAIN_SIGNET = Some ''network-banner-signet''"
| "network_get_banner_class CHAIN_REGTEST = Some ''network-banner-regtest''"

definition network_detect_chain_from_address :: "string option \<Rightarrow> BitcoinChain option" where
  "network_detect_chain_from_address address = detect_address_network address"

definition network_detect_chain_from_address_with_hint ::
    "string option \<Rightarrow> BitcoinChain \<Rightarrow> BitcoinChain option" where
  "network_detect_chain_from_address_with_hint address hint =
    (case detect_address_network address of
       None \<Rightarrow> None
     | Some detected \<Rightarrow>
        if detected = CHAIN_TESTNET \<and> hint = CHAIN_SIGNET then
          (case address of None \<Rightarrow> Some detected | Some a \<Rightarrow>
             if has_prefix ''tb1'' a then Some CHAIN_SIGNET
             else if a \<noteq> [] \<and> (hd a = CHR ''m'' \<or> hd a = CHR ''n'' \<or> hd a = CHR ''2'') then Some CHAIN_SIGNET
             else Some detected)
        else Some detected)"

subsection \<open>Properties\<close>

text \<open>The printed name of a chain reads back as the chain, whatever the case of its letters.\<close>

lemma chain_name_roundtrip:
  assumes "map tolower name = network_chain_to_string chain" "NUL \<notin> set name"
  shows "network_chain_from_string (Some name) = Some chain"
  using assms
  by (cases chain) (simp_all add: network_chain_from_string_def strcaseeq_def cstr_id tolower_def)

text \<open>
  An address accepted for the configured network has a warning entry only when the detected
  network differs in a way the prefix cannot tell apart (test networks among each other).
\<close>

lemma check_address_consistent:
  assumes "network_check_address expected address = (ADDR_MATCH, Some d)"
  shows "d = expected \<or> d = CHAIN_TESTNET \<and> expected \<in> {CHAIN_SIGNET, CHAIN_REGTEST}"
  using assms by (auto simp: network_check_address_def split: option.splits if_splits)

text \<open>
  A mainnet address is never accepted by a server of a test network, and no test-network
  address by a mainnet server.
\<close>

lemma check_address_separates_mainnet:
  assumes "network_check_address expected address = (ADDR_MATCH, Some d)"
  shows "d = CHAIN_MAINNET \<longleftrightarrow> expected = CHAIN_MAINNET"
  using check_address_consistent [OF assms] by auto

end
