(* ===== verification/Slots.thy ===== *)
theory Slots
  imports Prelude
begin

text \<open>
  \<^verbatim>\<open>src/src/slot_manager.c\<close>, the tiers of \<^verbatim>\<open>src/src/reader.c\<close>: the per-worker pools of
  connection slots, one per request-size tier. The C \<open>int\<close> counters are \<open>int\<close>; the lemmas
  below show that they stay between 0 and the configured maximum, so no C overflow is hidden.

  The locale \<open>slot_pool\<close> is the interface the connection and HTTP/2 code relies on; it is
  interpreted on the operations of \<^verbatim>\<open>slot_manager.c\<close> at the end.
\<close>

datatype RequestTier = TIER_NORMAL | TIER_LARGE | TIER_HUGE

text \<open>The enum's numeric values give the order that \<open>to_tier < from_tier\<close> compares.\<close>

fun tier_num :: "RequestTier \<Rightarrow> nat" where
  "tier_num TIER_NORMAL = 0"
| "tier_num TIER_LARGE = 1"
| "tier_num TIER_HUGE = 2"

lemma tier_num_inject: "tier_num a = tier_num b \<longleftrightarrow> a = b"
  by (cases a; cases b) auto

instantiation RequestTier :: linorder
begin
definition less_eq_RequestTier :: "RequestTier \<Rightarrow> RequestTier \<Rightarrow> bool" where
  "a \<le> b \<longleftrightarrow> tier_num a \<le> tier_num b"
definition less_RequestTier :: "RequestTier \<Rightarrow> RequestTier \<Rightarrow> bool" where
  "a < b \<longleftrightarrow> tier_num a < tier_num b"
instance
  by standard (auto simp: less_eq_RequestTier_def less_RequestTier_def tier_num_inject)
end

lemma tier_order_simps [simp]:
  "TIER_NORMAL \<le> t" "\<not> t < TIER_NORMAL" "t \<le> TIER_HUGE"
  "TIER_NORMAL < TIER_LARGE" "TIER_LARGE < TIER_HUGE" "TIER_NORMAL < TIER_HUGE"
  by (cases t; simp add: less_eq_RequestTier_def less_RequestTier_def)+

lemma all_tier: "(\<forall>t. P t) \<longleftrightarrow> P TIER_NORMAL \<and> P TIER_LARGE \<and> P TIER_HUGE"
  by (metis RequestTier.exhaust)

fun tier_name :: "RequestTier \<Rightarrow> string" where
  "tier_name TIER_NORMAL = ''NORMAL''"
| "tier_name TIER_LARGE = ''LARGE''"
| "tier_name TIER_HUGE = ''HUGE''"

record SlotManager =
  normal_current :: int
  normal_max :: int
  large_current :: int
  large_max :: int
  huge_current :: int
  huge_max :: int

definition slot_manager_init :: "int \<Rightarrow> int \<Rightarrow> int \<Rightarrow> SlotManager" where
  "slot_manager_init n l h =
    \<lparr>normal_current = 0, normal_max = n, large_current = 0, large_max = l,
     huge_current = 0, huge_max = h\<rparr>"

fun slot_manager_acquire :: "SlotManager \<Rightarrow> RequestTier \<Rightarrow> bool \<times> SlotManager" where
  "slot_manager_acquire sm TIER_NORMAL =
    (if normal_current sm \<ge> normal_max sm then (False, sm)
     else (True, sm\<lparr>normal_current := normal_current sm + 1\<rparr>))"
| "slot_manager_acquire sm TIER_LARGE =
    (if large_current sm \<ge> large_max sm then (False, sm)
     else (True, sm\<lparr>large_current := large_current sm + 1\<rparr>))"
| "slot_manager_acquire sm TIER_HUGE =
    (if huge_current sm \<ge> huge_max sm then (False, sm)
     else (True, sm\<lparr>huge_current := huge_current sm + 1\<rparr>))"

fun slot_manager_release :: "SlotManager \<Rightarrow> RequestTier \<Rightarrow> SlotManager" where
  "slot_manager_release sm TIER_NORMAL =
    (if normal_current sm > 0 then sm\<lparr>normal_current := normal_current sm - 1\<rparr> else sm)"
| "slot_manager_release sm TIER_LARGE =
    (if large_current sm > 0 then sm\<lparr>large_current := large_current sm - 1\<rparr> else sm)"
| "slot_manager_release sm TIER_HUGE =
    (if huge_current sm > 0 then sm\<lparr>huge_current := huge_current sm - 1\<rparr> else sm)"

definition slot_manager_promote ::
    "SlotManager \<Rightarrow> RequestTier \<Rightarrow> RequestTier \<Rightarrow> bool \<times> SlotManager" where
  "slot_manager_promote sm from_tier to_tier =
    (if from_tier = to_tier then (True, sm)
     else if to_tier < from_tier then (False, sm)
     else case slot_manager_acquire sm to_tier of
       (False, sm') \<Rightarrow> (False, sm')
     | (True, sm') \<Rightarrow> (True, slot_manager_release sm' from_tier))"

fun slot_manager_current :: "SlotManager \<Rightarrow> RequestTier \<Rightarrow> int" where
  "slot_manager_current sm TIER_NORMAL = normal_current sm"
| "slot_manager_current sm TIER_LARGE = large_current sm"
| "slot_manager_current sm TIER_HUGE = huge_current sm"

fun slot_manager_max :: "SlotManager \<Rightarrow> RequestTier \<Rightarrow> int" where
  "slot_manager_max sm TIER_NORMAL = normal_max sm"
| "slot_manager_max sm TIER_LARGE = large_max sm"
| "slot_manager_max sm TIER_HUGE = huge_max sm"

definition slot_manager_total_connections :: "SlotManager \<Rightarrow> int" where
  "slot_manager_total_connections sm = normal_current sm + large_current sm + huge_current sm"

definition slot_manager_acquire_request :: "SlotManager \<Rightarrow> RequestTier \<Rightarrow> bool \<times> SlotManager" where
  "slot_manager_acquire_request sm tier = slot_manager_acquire sm tier"

definition slot_manager_release_request :: "SlotManager \<Rightarrow> RequestTier \<Rightarrow> SlotManager" where
  "slot_manager_release_request sm tier = slot_manager_release sm tier"

subsection \<open>The slot interface\<close>

text \<open>
  The laws the clients rely on: an acquisition succeeds exactly below the maximum and then counts
  one more holder of that tier; a release of a held slot counts one less; neither changes another
  tier or a maximum. \<open>accounts m s h\<close> says that the maxima of \<open>s\<close> are \<open>m\<close> and its counters are
  exact for the holder counts \<open>h\<close> and within the maxima.
\<close>

locale slot_pool =
  fixes acquire :: "'s \<Rightarrow> 't \<Rightarrow> bool \<times> 's"
    and release :: "'s \<Rightarrow> 't \<Rightarrow> 's"
    and current :: "'s \<Rightarrow> 't \<Rightarrow> int"
    and maximum :: "'s \<Rightarrow> 't \<Rightarrow> int"
  assumes acquire_full: "maximum s t \<le> current s t \<Longrightarrow> acquire s t = (False, s)"
    and acquire_free: "current s t < maximum s t \<Longrightarrow>
      \<exists>s'. acquire s t = (True, s') \<and> current s' = (current s)(t := current s t + 1)
        \<and> maximum s' = maximum s"
    and release_held: "0 < current s t \<Longrightarrow> current (release s t) = (current s)(t := current s t - 1)"
    and release_none: "current s t \<le> 0 \<Longrightarrow> release s t = s"
    and maximum_release: "maximum (release s t) = maximum s"
begin

definition accounts :: "('t \<Rightarrow> int) \<Rightarrow> 's \<Rightarrow> ('t \<Rightarrow> nat) \<Rightarrow> bool" where
  "accounts m s h \<longleftrightarrow> maximum s = m \<and> (\<forall>t. current s t = int (h t) \<and> (h t = 0 \<or> int (h t) \<le> m t))"

lemma acquire_cases:
  obtains (full) "acquire s t = (False, s)" "maximum s t \<le> current s t"
  | (free) s' where "acquire s t = (True, s')" "current s t < maximum s t"
      "current s' = (current s)(t := current s t + 1)" "maximum s' = maximum s"
  by (metis acquire_free acquire_full not_le)

lemma acquire_fail_same: "acquire s t = (False, s') \<Longrightarrow> s' = s"
  by (cases rule: acquire_cases [of s t]) auto

lemma accounts_acquire:
  assumes "accounts m s h" and "acquire s t = (True, s')"
  shows "accounts m s' (h(t := h t + 1))"
  using assms by (cases rule: acquire_cases [of s t]) (auto simp: accounts_def)

lemma accounts_release:
  assumes "accounts m s h" and "0 < h t"
  shows "accounts m (release s t) (h(t := h t - 1))"
proof -
  have "0 < current s t" using assms by (simp add: accounts_def)
  then have c: "current (release s t) = (current s)(t := current s t - 1)" by (rule release_held)
  show ?thesis
    unfolding accounts_def c maximum_release
  proof (intro conjI allI)
    show "maximum s = m" using assms(1) by (simp add: accounts_def)
    fix u
    have "current s u = int (h u) \<and> (h u = 0 \<or> int (h u) \<le> m u)"
      using assms(1) by (simp add: accounts_def)
    then show "((current s)(t := current s t - 1)) u = int ((h(t := h t - 1)) u)"
      "(h(t := h t - 1)) u = 0 \<or> int ((h(t := h t - 1)) u) \<le> m u"
      using assms(2) by auto
  qed
qed

text \<open>
  A holder that gives its slot back can always get one of the same tier again: the fallback of
  the downgrade operations never loses both slots.
\<close>

lemma reacquire_after_release:
  assumes "accounts m s h" and "0 < h t"
  shows "\<exists>s'. acquire (release s t) t = (True, s')"
proof -
  have "current s t = int (h t)" "int (h t) \<le> maximum s t"
    using assms by (auto simp: accounts_def dest: spec [of _ t])
  then have "current (release s t) t < maximum (release s t) t"
    using assms(2) release_held [of s t] by (simp add: maximum_release)
  then show ?thesis using acquire_free by blast
qed

lemma accounts_move:
  assumes "accounts m s h" "0 < h a" "acquire (release s a) b = (True, s')"
  shows "accounts m s' ((h(a := h a - 1))(b := (h(a := h a - 1)) b + 1))"
  by (rule accounts_acquire [OF accounts_release]) (use assms in auto)

lemma accounts_within: "accounts m s h \<Longrightarrow> 0 \<le> current s t \<and> (h t = 0 \<or> current s t \<le> m t)"
  by (simp add: accounts_def)

end

interpretation sm: slot_pool slot_manager_acquire slot_manager_release slot_manager_current slot_manager_max
proof
  fix s t
  show "slot_manager_max s t \<le> slot_manager_current s t \<Longrightarrow> slot_manager_acquire s t = (False, s)"
    by (cases t) auto
  show "slot_manager_current s t < slot_manager_max s t \<Longrightarrow>
      \<exists>s'. slot_manager_acquire s t = (True, s') \<and>
        slot_manager_current s' = (slot_manager_current s)(t := slot_manager_current s t + 1) \<and>
        slot_manager_max s' = slot_manager_max s"
    by (cases t) (auto simp: fun_eq_iff all_tier)
  show "0 < slot_manager_current s t \<Longrightarrow>
      slot_manager_current (slot_manager_release s t) =
        (slot_manager_current s)(t := slot_manager_current s t - 1)"
    by (cases t) (auto simp: fun_eq_iff all_tier)
  show "slot_manager_current s t \<le> 0 \<Longrightarrow> slot_manager_release s t = s"
    by (cases t) auto
  show "slot_manager_max (slot_manager_release s t) = slot_manager_max s"
    by (cases t) (auto simp: fun_eq_iff all_tier)
qed

lemma accounts_init: "sm.accounts (slot_manager_max (slot_manager_init n l h)) (slot_manager_init n l h) (\<lambda>_. 0)"
  by (simp add: sm.accounts_def slot_manager_init_def all_tier)

lemma promote_accounts:
  assumes "sm.accounts m s h" "0 < h a" "a \<le> b" "slot_manager_promote s a b = (True, s')"
  shows "sm.accounts m s' ((h(a := h a - 1))(b := (h(a := h a - 1)) b + 1))"
proof (cases "a = b")
  case True
  then show ?thesis using assms by (simp add: slot_manager_promote_def fun_upd_idem)
next
  case False
  then have "\<not> b < a" using assms(3) by auto
  then obtain s1 where s1: "slot_manager_acquire s b = (True, s1)" "s' = slot_manager_release s1 a"
    using assms(4) False by (auto simp: slot_manager_promote_def split: prod.splits bool.splits if_splits)
  have "sm.accounts m s' ((h(b := h b + 1))(a := (h(b := h b + 1)) a - 1))"
    unfolding s1(2) by (rule sm.accounts_release [OF sm.accounts_acquire [OF assms(1) s1(1)]])
      (use assms(2) False in auto)
  then show ?thesis using False by (simp add: fun_upd_twist)
qed

lemma promote_fail_same:
  "slot_manager_promote s a b = (False, s') \<Longrightarrow> s' = s"
  by (auto simp: slot_manager_promote_def dest: sm.acquire_fail_same split: prod.splits bool.splits if_splits)

lemma promote_fail_full:
  "a < b \<Longrightarrow> slot_manager_promote s a b = (False, s') \<Longrightarrow> slot_manager_max s b \<le> slot_manager_current s b"
  by (cases rule: sm.acquire_cases [of s b]) (auto simp: slot_manager_promote_def split: if_splits)

end
