(* ===== verification/Config.thy ===== *)
theory Config
  imports Network Slots Complex_Main
begin

text \<open>
  \<^verbatim>\<open>src/src/config.c\<close>, \<^verbatim>\<open>src/include/config.h\<close>, the tier thresholds of \<^verbatim>\<open>src/src/reader.c\<close>:
  the INI configuration. A \<open>size_t\<close> is a \<open>nat\<close> below $2^{64}$ with the one multiplication
  that can wrap written modulo $2^{64}$; a C \<open>int\<close> is an \<open>int\<close>; \<open>char[n]\<close> fields are
  strings of at most \<open>n - 1\<close> characters; the chain value -1 (not set) is \<open>None\<close>. The
  C library's \<open>strtod\<close> is a parameter that gives the value, the characters consumed and
  whether \<open>errno\<close> is set; the file system is a function from paths to contents.
\<close>

record RPCConfig =
  rc_enabled :: int
  rc_host :: string
  rc_port :: int
  rc_user :: string
  rc_password :: string
  rc_cookie_file :: string
  rc_datadir :: string
  rc_timeout_sec :: int
  rc_wallet :: string

record Config =
  cfg_chain :: "BitcoinChain option"
  initial_buffer_size :: nat
  max_buffer_size :: nat
  tier_large_threshold :: nat
  tier_huge_threshold :: nat
  listen_port :: int
  max_connections :: int
  read_timeout_sec :: int
  static_dir :: string
  cache_max_age :: int
  slots_normal_max :: int
  slots_large_max :: int
  slots_huge_max :: int
  rate_limit_rps :: rat
  rate_limit_burst :: rat
  tls_enabled :: int
  tls_port :: int
  tls_cert_file :: string
  tls_key_file :: string
  http2_enabled :: int
  json_logging :: int
  cfg_verbose :: int
  acme_challenge_dir :: string
  blocklist_file :: string
  allowlist_file :: string
  seccomp_enabled :: int
  rpc_mainnet :: RPCConfig
  rpc_testnet :: RPCConfig
  rpc_signet :: RPCConfig
  rpc_regtest :: RPCConfig

type_synonym strtod = "string \<Rightarrow> rat \<times> nat \<times> bool"

definition rpc_config_default :: "int \<Rightarrow> RPCConfig" where
  "rpc_config_default default_port =
    \<lparr>rc_enabled = 0, rc_host = ''127.0.0.1'', rc_port = default_port, rc_user = [], rc_password = [],
     rc_cookie_file = [], rc_datadir = [], rc_timeout_sec = 30, rc_wallet = []\<rparr>"

definition config_default :: Config where
  "config_default =
    \<lparr>cfg_chain = None, initial_buffer_size = 4096, max_buffer_size = 16 * 1024 * 1024,
     tier_large_threshold = 64 * 1024, tier_huge_threshold = 1024 * 1024,
     listen_port = 8080, max_connections = 100, read_timeout_sec = 30,
     static_dir = ''./static'', cache_max_age = 3600,
     slots_normal_max = 100, slots_large_max = 20, slots_huge_max = 5,
     rate_limit_rps = 100, rate_limit_burst = 200,
     tls_enabled = 0, tls_port = 8443, tls_cert_file = [], tls_key_file = [], http2_enabled = 1,
     json_logging = 0, cfg_verbose = 0, acme_challenge_dir = ''.well-known/acme-challenge'',
     blocklist_file = [], allowlist_file = [], seccomp_enabled = 0,
     rpc_mainnet = rpc_config_default 8332, rpc_testnet = rpc_config_default 18332,
     rpc_signet = rpc_config_default 38332, rpc_regtest = rpc_config_default 18443\<rparr>"

text \<open>\<open>*endptr != 0\<close> is that the conversion stopped before the end of the string.\<close>

definition parse_size_t :: "string \<Rightarrow> nat \<Rightarrow> nat" where
  "parse_size_t str def_val = (case strtoul str of (val, k, erange) \<Rightarrow>
     if erange \<or> k = 0 \<or> k \<noteq> length str then def_val
     else if SIZE_MAX < val then def_val
     else val)"

definition parse_int :: "string \<Rightarrow> int \<Rightarrow> int" where
  "parse_int str def_val = (case strtol str of (val, k, erange) \<Rightarrow>
     if erange \<or> k = 0 \<or> k \<noteq> length str then def_val
     else if val < 0 \<or> INT_MAX < val then def_val
     else val)"

definition parse_double :: "strtod \<Rightarrow> string \<Rightarrow> rat \<Rightarrow> rat" where
  "parse_double strtod str def_val = (case strtod str of (val, k, err) \<Rightarrow>
     if err \<or> k = 0 \<or> k \<noteq> length str then def_val
     else if val < 0 then def_val
     else val)"

definition rpc_config_set :: "int \<Rightarrow> string \<Rightarrow> string \<Rightarrow> RPCConfig \<Rightarrow> RPCConfig" where
  "rpc_config_set default_port key v rpc =
    (if key = ''enabled'' then rpc\<lparr>rc_enabled := parse_int v 0\<rparr>
     else if key = ''host'' then rpc\<lparr>rc_host := strncpy_buf 256 v\<rparr>
     else if key = ''port'' then rpc\<lparr>rc_port := parse_int v default_port\<rparr>
     else if key = ''user'' then rpc\<lparr>rc_user := strncpy_buf 64 v\<rparr>
     else if key = ''password'' then rpc\<lparr>rc_password := strncpy_buf 64 v\<rparr>
     else if key = ''cookie_file'' then rpc\<lparr>rc_cookie_file := strncpy_buf 256 v\<rparr>
     else if key = ''datadir'' then rpc\<lparr>rc_datadir := strncpy_buf 256 v\<rparr>
     else if key = ''timeout'' then rpc\<lparr>rc_timeout_sec := parse_int v 30\<rparr>
     else if key = ''wallet'' then rpc\<lparr>rc_wallet := strncpy_buf 64 v\<rparr>
     else rpc)"

text \<open>The assignment of one key in one section, section by section as the loader dispatches.\<close>

definition set_buffer :: "string \<Rightarrow> string \<Rightarrow> Config \<Rightarrow> Config" where
  "set_buffer key v c =
    (if key = ''initial_size'' then c\<lparr>initial_buffer_size := parse_size_t v 4096\<rparr>
     else if key = ''max_size'' then c\<lparr>max_buffer_size := parse_size_t v (16 * 1024 * 1024)\<rparr> else c)"

definition set_tiers :: "string \<Rightarrow> string \<Rightarrow> Config \<Rightarrow> Config" where
  "set_tiers key v c =
    (if key = ''large_threshold'' then c\<lparr>tier_large_threshold := parse_size_t v (64 * 1024)\<rparr>
     else if key = ''huge_threshold'' then c\<lparr>tier_huge_threshold := parse_size_t v (1024 * 1024)\<rparr> else c)"

definition set_server :: "string \<Rightarrow> string \<Rightarrow> Config \<Rightarrow> Config" where
  "set_server key v c =
    (if key = ''port'' then c\<lparr>listen_port := parse_int v 8080\<rparr>
     else if key = ''max_connections'' then c\<lparr>max_connections := parse_int v 100\<rparr>
     else if key = ''read_timeout'' then c\<lparr>read_timeout_sec := parse_int v 30\<rparr> else c)"

definition set_static :: "string \<Rightarrow> string \<Rightarrow> Config \<Rightarrow> Config" where
  "set_static key v c =
    (if key = ''dir'' then c\<lparr>static_dir := strncpy_buf 256 v\<rparr>
     else if key = ''cache_max_age'' then c\<lparr>cache_max_age := parse_int v 3600\<rparr> else c)"

definition set_slots :: "string \<Rightarrow> string \<Rightarrow> Config \<Rightarrow> Config" where
  "set_slots key v c =
    (if key = ''normal_max'' then c\<lparr>slots_normal_max := parse_int v 100\<rparr>
     else if key = ''large_max'' then c\<lparr>slots_large_max := parse_int v 20\<rparr>
     else if key = ''huge_max'' then c\<lparr>slots_huge_max := parse_int v 5\<rparr> else c)"

definition set_ratelimit :: "strtod \<Rightarrow> string \<Rightarrow> string \<Rightarrow> Config \<Rightarrow> Config" where
  "set_ratelimit strtod key v c =
    (if key = ''rps'' then c\<lparr>rate_limit_rps := parse_double strtod v 100\<rparr>
     else if key = ''burst'' then c\<lparr>rate_limit_burst := parse_double strtod v 200\<rparr> else c)"

definition set_tls :: "string \<Rightarrow> string \<Rightarrow> Config \<Rightarrow> Config" where
  "set_tls key v c =
    (if key = ''enabled'' then c\<lparr>tls_enabled := parse_int v 0\<rparr>
     else if key = ''port'' then c\<lparr>tls_port := parse_int v 8443\<rparr>
     else if key = ''cert_file'' then c\<lparr>tls_cert_file := strncpy_buf 256 v\<rparr>
     else if key = ''key_file'' then c\<lparr>tls_key_file := strncpy_buf 256 v\<rparr>
     else if key = ''http2_enabled'' then c\<lparr>http2_enabled := parse_int v 1\<rparr> else c)"

definition set_logging :: "string \<Rightarrow> string \<Rightarrow> Config \<Rightarrow> Config" where
  "set_logging key v c =
    (if key = ''json'' then c\<lparr>json_logging := parse_int v 0\<rparr>
     else if key = ''verbose'' then c\<lparr>cfg_verbose := parse_int v 0\<rparr> else c)"

definition set_acme :: "string \<Rightarrow> string \<Rightarrow> Config \<Rightarrow> Config" where
  "set_acme key v c = (if key = ''challenge_dir'' then c\<lparr>acme_challenge_dir := strncpy_buf 256 v\<rparr> else c)"

definition set_security :: "string \<Rightarrow> string \<Rightarrow> Config \<Rightarrow> Config" where
  "set_security key v c =
    (if key = ''blocklist_file'' then c\<lparr>blocklist_file := strncpy_buf 256 v\<rparr>
     else if key = ''allowlist_file'' then c\<lparr>allowlist_file := strncpy_buf 256 v\<rparr>
     else if key = ''seccomp'' then c\<lparr>seccomp_enabled := parse_int v 0\<rparr> else c)"

definition set_network :: "string \<Rightarrow> string \<Rightarrow> Config \<Rightarrow> Config" where
  "set_network key v c =
    (if key = ''chain'' then
       (case network_chain_from_string (Some v) of None \<Rightarrow> c | Some chain \<Rightarrow> c\<lparr>cfg_chain := Some chain\<rparr>)
     else c)"

definition config_set :: "strtod \<Rightarrow> string \<Rightarrow> string \<Rightarrow> string \<Rightarrow> Config \<Rightarrow> Config" where
  "config_set strtod section key v c =
    (if section = ''buffer'' then set_buffer key v c
     else if section = ''tiers'' then set_tiers key v c
     else if section = ''server'' then set_server key v c
     else if section = ''static'' then set_static key v c
     else if section = ''slots'' then set_slots key v c
     else if section = ''ratelimit'' then set_ratelimit strtod key v c
     else if section = ''tls'' then set_tls key v c
     else if section = ''logging'' then set_logging key v c
     else if section = ''acme'' then set_acme key v c
     else if section = ''security'' then set_security key v c
     else if section = ''network'' then set_network key v c
     else if section = ''rpc.mainnet'' then c\<lparr>rpc_mainnet := rpc_config_set 8332 key v (rpc_mainnet c)\<rparr>
     else if section = ''rpc.testnet'' then c\<lparr>rpc_testnet := rpc_config_set 18332 key v (rpc_testnet c)\<rparr>
     else if section = ''rpc.signet'' then c\<lparr>rpc_signet := rpc_config_set 38332 key v (rpc_signet c)\<rparr>
     else if section = ''rpc.regtest'' then c\<lparr>rpc_regtest := rpc_config_set 18443 key v (rpc_regtest c)\<rparr>
     else c)"

text \<open>One iteration of the line loop: the current section and the configuration so far.\<close>

definition config_line :: "strtod \<Rightarrow> string \<Rightarrow> string \<times> Config \<Rightarrow> string \<times> Config" where
  "config_line strtod line st = (case st of (section, c) \<Rightarrow>
     let trimmed = trim line in
     if trimmed = [] \<or> hd trimmed = CHR ''#'' \<or> hd trimmed = CHR '';'' then st
     else if hd trimmed = CHR ''['' then
       (case strchr trimmed (CHR '']'') of
          Some e \<Rightarrow> (strncpy_buf 64 (tl (take e trimmed)), c)
        | None \<Rightarrow> st)
     else (case strchr trimmed (CHR ''='') of
         None \<Rightarrow> st
       | Some e \<Rightarrow> (section, config_set strtod section (trim (take e trimmed)) (trim (drop (e + 1) trimmed)) c)))"

definition any_rpc_enabled :: "Config \<Rightarrow> bool" where
  "any_rpc_enabled c = (rc_enabled (rpc_mainnet c) \<noteq> 0 \<or> rc_enabled (rpc_testnet c) \<noteq> 0
     \<or> rc_enabled (rpc_signet c) \<noteq> 0 \<or> rc_enabled (rpc_regtest c) \<noteq> 0)"

definition config_validate :: "Config \<Rightarrow> Config option" where
  "config_validate c =
    (if cfg_chain c = None then None
     else if cfg_chain c = Some CHAIN_MIXED \<and> \<not> any_rpc_enabled c then None
     else if tier_large_threshold c \<ge> tier_huge_threshold c
     then Some (c\<lparr>tier_huge_threshold := (tier_large_threshold c * 2) mod 2 ^ 64\<rparr>)
     else Some c)"

definition config_load :: "strtod \<Rightarrow> (string \<Rightarrow> string option) \<Rightarrow> bool \<Rightarrow> string option \<Rightarrow> Config option" where
  "config_load strtod fs malloc_ok path =
    (if \<not> malloc_ok then None
     else case path of
       None \<Rightarrow> Some config_default
     | Some p \<Rightarrow>
        (case fs p of
           None \<Rightarrow> Some config_default
         | Some contents \<Rightarrow>
            config_validate (snd (fold (config_line strtod) (fgets_lines 512 contents) ([], config_default)))))"

definition size_to_tier :: "nat \<Rightarrow> Config \<Rightarrow> RequestTier" where
  "size_to_tier sz cfg =
    (if tier_huge_threshold cfg \<le> sz then TIER_HUGE
     else if tier_large_threshold cfg \<le> sz then TIER_LARGE
     else TIER_NORMAL)"

subsection \<open>Well-formed configurations\<close>

definition int_field :: "int \<Rightarrow> bool" where "int_field i \<longleftrightarrow> 0 \<le> i \<and> i \<le> INT_MAX"

definition rpc_config_ok :: "RPCConfig \<Rightarrow> bool" where
  "rpc_config_ok r \<longleftrightarrow> int_field (rc_enabled r) \<and> int_field (rc_port r) \<and> int_field (rc_timeout_sec r)
     \<and> length (rc_host r) < 256 \<and> length (rc_user r) < 64 \<and> length (rc_password r) < 64
     \<and> length (rc_cookie_file r) < 256 \<and> length (rc_datadir r) < 256 \<and> length (rc_wallet r) < 64"

definition config_ok :: "Config \<Rightarrow> bool" where
  "config_ok c \<longleftrightarrow>
     initial_buffer_size c \<le> SIZE_MAX \<and> max_buffer_size c \<le> SIZE_MAX
     \<and> tier_large_threshold c \<le> SIZE_MAX \<and> tier_huge_threshold c \<le> SIZE_MAX
     \<and> int_field (listen_port c) \<and> int_field (max_connections c) \<and> int_field (read_timeout_sec c)
     \<and> int_field (cache_max_age c) \<and> int_field (slots_normal_max c) \<and> int_field (slots_large_max c)
     \<and> int_field (slots_huge_max c) \<and> int_field (tls_enabled c) \<and> int_field (tls_port c)
     \<and> int_field (http2_enabled c) \<and> int_field (json_logging c) \<and> int_field (cfg_verbose c)
     \<and> int_field (seccomp_enabled c) \<and> 0 \<le> rate_limit_rps c \<and> 0 \<le> rate_limit_burst c
     \<and> length (static_dir c) < 256 \<and> length (tls_cert_file c) < 256 \<and> length (tls_key_file c) < 256
     \<and> length (acme_challenge_dir c) < 256 \<and> length (blocklist_file c) < 256 \<and> length (allowlist_file c) < 256
     \<and> rpc_config_ok (rpc_mainnet c) \<and> rpc_config_ok (rpc_testnet c)
     \<and> rpc_config_ok (rpc_signet c) \<and> rpc_config_ok (rpc_regtest c)"

lemma parse_size_t_le: "d \<le> SIZE_MAX \<Longrightarrow> parse_size_t s d \<le> SIZE_MAX"
  by (simp add: parse_size_t_def split: prod.split)

lemma parse_int_field: "int_field d \<Longrightarrow> int_field (parse_int s d)"
  by (auto simp: parse_int_def int_field_def split: prod.split)

lemma parse_double_nonneg: "0 \<le> d \<Longrightarrow> 0 \<le> parse_double f s d"
  by (auto simp: parse_double_def split: prod.split)

lemma int_field_default [simp]:
  "int_field 0" "int_field 1" "int_field 5" "int_field 20" "int_field 30" "int_field 100" "int_field 3600"
  "int_field 8080" "int_field 8443" "int_field 8332" "int_field 18332" "int_field 38332" "int_field 18443"
  by (simp_all add: int_field_def)

lemmas config_fields = parse_size_t_le parse_int_field parse_double_nonneg length_strncpy_buf

lemma rpc_config_set_ok:
  "rpc_config_ok r \<Longrightarrow> int_field p \<Longrightarrow> rpc_config_ok (rpc_config_set p key v r)"
  by (auto simp: rpc_config_set_def rpc_config_ok_def config_fields)

lemma config_default_ok: "config_ok config_default"
  by (simp add: config_ok_def config_default_def rpc_config_ok_def rpc_config_default_def)

lemma config_set_ok:
  assumes "config_ok c"
  shows "config_ok (config_set f section key v c)"
proof -
  have "config_ok (set_buffer key v c)" "config_ok (set_tiers key v c)" "config_ok (set_server key v c)"
    "config_ok (set_static key v c)" "config_ok (set_slots key v c)" "config_ok (set_ratelimit f key v c)"
    using assms unfolding config_ok_def
    by (simp_all add: set_buffer_def set_tiers_def set_server_def set_static_def set_slots_def
        set_ratelimit_def config_fields)
  moreover have "config_ok (set_tls key v c)" "config_ok (set_logging key v c)" "config_ok (set_acme key v c)"
    "config_ok (set_security key v c)" "config_ok (set_network key v c)"
    using assms unfolding config_ok_def
    by (simp_all add: set_tls_def set_logging_def set_acme_def set_security_def set_network_def
        config_fields split: option.split)
  moreover have "config_ok (c\<lparr>rpc_mainnet := rpc_config_set 8332 key v (rpc_mainnet c)\<rparr>)"
    "config_ok (c\<lparr>rpc_testnet := rpc_config_set 18332 key v (rpc_testnet c)\<rparr>)"
    "config_ok (c\<lparr>rpc_signet := rpc_config_set 38332 key v (rpc_signet c)\<rparr>)"
    "config_ok (c\<lparr>rpc_regtest := rpc_config_set 18443 key v (rpc_regtest c)\<rparr>)"
    using assms unfolding config_ok_def by (simp_all add: rpc_config_set_ok)
  ultimately show ?thesis by (simp add: config_set_def assms)
qed

lemma config_line_ok: "config_ok (snd st) \<Longrightarrow> config_ok (snd (config_line f line st))"
  by (auto simp: config_line_def Let_def config_set_ok split: prod.split option.split)

lemma config_lines_ok: "config_ok (snd st) \<Longrightarrow> config_ok (snd (fold (config_line f) ls st))"
  by (induction ls arbitrary: st) (auto simp: config_line_ok)

lemma config_validate_ok: "config_ok c \<Longrightarrow> config_validate c = Some d \<Longrightarrow> config_ok d"
proof -
  assume c: "config_ok c" and d: "config_validate c = Some d"
  have "n mod 18446744073709551616 \<le> SIZE_MAX" for n
  proof -
    have "n mod 18446744073709551616 < (18446744073709551616 :: nat)" by (rule mod_less_divisor) simp
    then show ?thesis by linarith
  qed
  then show "config_ok d" using c d by (auto simp: config_validate_def config_ok_def split: if_splits)
qed

lemma config_validate_chain:
  assumes "config_validate c = Some d"
  shows "cfg_chain d \<noteq> None \<and> (cfg_chain d = Some CHAIN_MIXED \<longrightarrow> any_rpc_enabled d)
      \<and> (tier_large_threshold d < tier_huge_threshold d
         \<or> tier_large_threshold d = 0 \<or> 2 ^ 63 \<le> tier_large_threshold d)"
proof -
  have "n < 2 * n mod 18446744073709551616 \<or> n = 0 \<or> 9223372036854775808 \<le> n" for n :: nat
    by (cases "2 * n < 18446744073709551616") auto
  then show ?thesis
    using assms by (auto simp: config_validate_def any_rpc_enabled_def mult.commute split: if_splits)
qed



text \<open>
  A configuration path that cannot be opened is not an error: the loader returns the default
  configuration, whose chain is not set, although a readable file without a chain is refused with
  \<open>chain= is REQUIRED\<close>.
\<close>

lemma config_missing_file_unset_chain:
  assumes "fs p = None"
  shows "\<exists>c. config_load strtod fs True (Some p) = Some c \<and> cfg_chain c = None
     \<and> config_load strtod (\<lambda>_. Some []) True (Some p) = None"
  using assms by (simp add: config_load_def config_default_def fgets_lines.simps config_validate_def)

lemma config_missing_file_unset_chain_witness:
  "\<exists>c. config_load (\<lambda>_. (0, 0, True)) (\<lambda>_. None) True (Some ''config.ini'') = Some c \<and> cfg_chain c = None"
  using config_missing_file_unset_chain [of "\<lambda>_. None" "''config.ini''" "\<lambda>_. (0, 0, True)"] by blast

text \<open>
  A negative size is accepted and wraps: \<open>strtoull\<close> negates modulo $2^{64}$ without an
  error, so \<open>max_size = -1\<close> sets the largest possible buffer limit instead of the default.
\<close>

lemma parse_size_t_negative_wraps:
  assumes "0 < v" and "v \<le> ULONG_MAX"
  shows "parse_size_t (CHR ''-'' # fmt_u v) def_val = 2 ^ 64 - v"
proof -
  have tw: "takeWhile isdigit (fmt_u v) = fmt_u v"
    using takeWhile_digits [of "fmt_u v" "[]"] fmt_u_digits by auto
  have "num_scan (CHR ''-'' # fmt_u v) = (True, v, length (fmt_u v) + 1)"
    by (simp add: num_scan_def num_sign_def isspace_def digits_val_fmt_u tw Let_def)
  then show ?thesis using assms by (auto simp: parse_size_t_def strtoul_def)
qed

lemma parse_size_t_negative_wraps_witness:
  "parse_size_t (CHR ''-'' # fmt_u 1) 4096 = 2 ^ 64 - 1"
  using parse_size_t_negative_wraps [of 1 4096] by simp

subsection \<open>Documented settings\<close>

text \<open>A comment after a value is part of the value: the documented line for the chain does not set it.\<close>

lemma documented_chain_line_ignored:
  "config_line strtod ''chain = mainnet    # mainnet, testnet, signet, or regtest'' (''network'', c) = (''network'', c)"
  by (simp add: config_line_def config_set_def set_network_def trim_def cstr_def isspace_def strchr_def memchr_def
      has_prefix_def network_chain_from_string_def strcaseeq_def tolower_def)

text \<open>The section \<open>rpc\<close> of the documentation is not one that the loader knows.\<close>

lemma rpc_section_ignored: "config_set strtod ''rpc'' key v c = c"
  by (simp add: config_set_def)

end
