(* ===== verification/RpcState.thy ===== *)
theory RpcState
  imports Config
begin

text \<open>
  The records of \<^verbatim>\<open>src/include/rpc.h\<close>: a client per Bitcoin network and the manager that owns
  them. The list of requests in flight is part of \<open>RPCManager\<close>.
\<close>

definition RPC_OK :: int where "RPC_OK = 0"
definition RPC_ERR_CONNECT :: int where "RPC_ERR_CONNECT = -1"
definition RPC_ERR_AUTH :: int where "RPC_ERR_AUTH = -2"
definition RPC_ERR_TIMEOUT :: int where "RPC_ERR_TIMEOUT = -3"
definition RPC_ERR_PARSE :: int where "RPC_ERR_PARSE = -4"
definition RPC_ERR_NODE :: int where "RPC_ERR_NODE = -5"
definition RPC_ERR_MEMORY :: int where "RPC_ERR_MEMORY = -6"
definition RPC_ERR_COOKIE :: int where "RPC_ERR_COOKIE = -7"
definition RPC_ERR_CANCELLED :: int where "RPC_ERR_CANCELLED = -8"

lemmas rpc_codes = RPC_OK_def RPC_ERR_CONNECT_def RPC_ERR_AUTH_def RPC_ERR_TIMEOUT_def RPC_ERR_PARSE_def
  RPC_ERR_NODE_def RPC_ERR_MEMORY_def RPC_ERR_COOKIE_def RPC_ERR_CANCELLED_def

record RPCClient =
  cl_host :: string
  cl_port :: int
  cl_auth_header :: string
  cl_timeout_sec :: int
  cl_wallet :: string
  cl_chain :: BitcoinChain
  cl_available :: int
  cl_request_count :: u64
  cl_error_count :: u64
  cl_cookie_path :: string
  cl_cookie_mtime :: int
  cl_resolved :: bool

text \<open>
  An asynchronous request. \<open>rq_response\<close> holds the \<open>response_len\<close> bytes received so far,
  \<open>rq_response_cap\<close> the size of their buffer (0 for the NULL buffer); \<open>rq_chain\<close> names the
  client; \<open>rq_id\<close> stands for the address of the request, \<open>rq_callback\<close> for its callback.
\<close>

record RPCRequest =
  rq_id :: nat
  rq_chain :: BitcoinChain
  rq_request_body :: string
  rq_response :: string
  rq_response_cap :: nat
  rq_callback :: "nat option"
  rq_auth_retried :: bool
  rq_bev :: bool
  rq_timeout_ev :: bool

record RPCManager =
  mg_mainnet :: RPCClient
  mg_testnet :: RPCClient
  mg_signet :: RPCClient
  mg_regtest :: RPCClient
  mg_base :: bool
  mg_active :: "RPCRequest list"
  total_broadcasts :: u64
  successful_broadcasts :: u64
  failed_broadcasts :: u64

end
