(* ===== verification/Hex.thy ===== *)
theory Hex
  imports Prelude
begin

text \<open>
  \<^verbatim>\<open>src/src/hex.c\<close>, \<^verbatim>\<open>src/include/hex.h\<close>: the 256-entry lookup table that decides whether a
  byte is a hexadecimal digit, and the loop that checks a whole buffer with it.
\<close>

definition hex_char_valid :: "nat list" where
  "hex_char_valid = [
    0, 0, 0, 0, 0, 0, 0, 0, 0, 0, 0, 0, 0, 0, 0, 0,
    0, 0, 0, 0, 0, 0, 0, 0, 0, 0, 0, 0, 0, 0, 0, 0,
    0, 0, 0, 0, 0, 0, 0, 0, 0, 0, 0, 0, 0, 0, 0, 0,
    1, 1, 1, 1, 1, 1, 1, 1, 1, 1, 0, 0, 0, 0, 0, 0,
    0, 1, 1, 1, 1, 1, 1, 0, 0, 0, 0, 0, 0, 0, 0, 0,
    0, 0, 0, 0, 0, 0, 0, 0, 0, 0, 0, 0, 0, 0, 0, 0,
    0, 1, 1, 1, 1, 1, 1, 0, 0, 0, 0, 0, 0, 0, 0, 0,
    0, 0, 0, 0, 0, 0, 0, 0, 0, 0, 0, 0, 0, 0, 0, 0,
    0, 0, 0, 0, 0, 0, 0, 0, 0, 0, 0, 0, 0, 0, 0, 0,
    0, 0, 0, 0, 0, 0, 0, 0, 0, 0, 0, 0, 0, 0, 0, 0,
    0, 0, 0, 0, 0, 0, 0, 0, 0, 0, 0, 0, 0, 0, 0, 0,
    0, 0, 0, 0, 0, 0, 0, 0, 0, 0, 0, 0, 0, 0, 0, 0,
    0, 0, 0, 0, 0, 0, 0, 0, 0, 0, 0, 0, 0, 0, 0, 0,
    0, 0, 0, 0, 0, 0, 0, 0, 0, 0, 0, 0, 0, 0, 0, 0,
    0, 0, 0, 0, 0, 0, 0, 0, 0, 0, 0, 0, 0, 0, 0, 0,
    0, 0, 0, 0, 0, 0, 0, 0, 0, 0, 0, 0, 0, 0, 0, 0]"

definition is_hex_char :: "char \<Rightarrow> bool" where
  "is_hex_char c = (hex_char_valid ! of_char c \<noteq> 0)"

fun is_all_hex :: "string \<Rightarrow> bool" where
  "is_all_hex [] = True"
| "is_all_hex (c # cs) = (if hex_char_valid ! of_char c = 0 then False else is_all_hex cs)"

text \<open>The three ranges that the table's comment names.\<close>

definition hex_range :: "nat \<Rightarrow> bool" where
  "hex_range n = (48 \<le> n \<and> n \<le> 57 \<or> 65 \<le> n \<and> n \<le> 70 \<or> 97 \<le> n \<and> n \<le> 102)"

lemma hex_table_upto: "list_all (\<lambda>n. (hex_char_valid ! n \<noteq> 0) = hex_range n) [0..<256]"
  by code_simp

lemma hex_table: "n < 256 \<Longrightarrow> hex_char_valid ! n \<noteq> 0 \<longleftrightarrow> hex_range n"
  using hex_table_upto by (simp add: list_all_iff)

lemma of_char_less_256: "(of_char c :: nat) < 256"
  by (metis nat_of_char_less_256)

lemma is_hex_char_iff: "is_hex_char c \<longleftrightarrow> hex_range (of_char c)"
  using hex_table [OF of_char_less_256, of c] by (simp add: is_hex_char_def)

lemma is_all_hex_iff: "is_all_hex s \<longleftrightarrow> (\<forall>c \<in> set s. is_hex_char c)"
  by (induction s) (auto simp: is_hex_char_def)

lemma is_all_hex_append [simp]: "is_all_hex (s @ t) \<longleftrightarrow> is_all_hex s \<and> is_all_hex t"
  by (auto simp: is_all_hex_iff)

lemma is_all_hex_replicate: "is_hex_char c \<Longrightarrow> is_all_hex (replicate n c)"
  by (auto simp: is_all_hex_iff)

lemma not_hex_simps [simp]:
  "\<not> is_hex_char (CHR ''/'')" "\<not> is_hex_char (CHR ''.'')" "\<not> is_hex_char (CHR '' '')"
  "\<not> is_hex_char (CHR ''t'')" "\<not> is_hex_char (CHR ''h'')" "\<not> is_hex_char (CHR ''r'')"
  "\<not> is_hex_char (CHR ''v'')" "\<not> is_hex_char (CHR ''l'')" "\<not> is_hex_char (CHR ''m'')"
  "\<not> is_hex_char (CHR ''o'')" "\<not> is_hex_char (CHR ''s'')"
  by (simp_all add: is_hex_char_iff hex_range_def)

lemma hex_simps [simp]: "is_hex_char (CHR ''a'')" "is_hex_char (CHR ''0'')" "is_hex_char (CHR ''F'')"
  by (simp_all add: is_hex_char_iff hex_range_def)

end
