(* ===== verification/Router.thy ===== *)
theory Router
  imports Hex
begin

text \<open>
  \<^verbatim>\<open>src/src/router.c\<close>, \<^verbatim>\<open>src/include/router.h\<close>: the classification of a request path. A path and
  its length are one string; every test of the C code is on \<open>content\<close>, the path after its
  leading slash, and comes in the order of the source.
\<close>

datatype RouteType =
    ROUTE_HOME | ROUTE_BROADCAST | ROUTE_RESULT | ROUTE_ERROR | ROUTE_DOCS | ROUTE_STATUS
  | ROUTE_LOGOS | ROUTE_HEALTH | ROUTE_READY | ROUTE_ALIVE | ROUTE_METRICS | ROUTE_VERSION
  | ROUTE_ACME_CHALLENGE

definition MIN_TX_HEX_LENGTH :: nat where "MIN_TX_HEX_LENGTH = 164"
definition TXID_HEX_LENGTH :: nat where "TXID_HEX_LENGTH = 64"

definition acme_prefix :: string where "acme_prefix = ''.well-known/acme-challenge/''"

definition route_request :: "string \<Rightarrow> RouteType" where
  "route_request path =
    (if path = [] \<or> hd path \<noteq> CHR ''/'' then ROUTE_ERROR
     else let content = tl path; content_len = length content in
       if content_len = 0 then ROUTE_HOME
       else if content_len = 6 \<and> has_prefix ''health'' content then ROUTE_HEALTH
       else if content_len = 5 \<and> has_prefix ''ready'' content then ROUTE_READY
       else if content_len = 7 \<and> has_prefix ''version'' content then ROUTE_VERSION
       else if content_len = 5 \<and> has_prefix ''alive'' content then ROUTE_ALIVE
       else if content_len = 7 \<and> has_prefix ''metrics'' content then ROUTE_METRICS
       else if content_len = 4 \<and> has_prefix ''docs'' content then ROUTE_DOCS
       else if content_len = 6 \<and> has_prefix ''status'' content then ROUTE_STATUS
       else if content_len = 5 \<and> has_prefix ''logos'' content then ROUTE_LOGOS
       else if content_len > 27 \<and> has_prefix acme_prefix content then ROUTE_ACME_CHALLENGE
       else if content_len > 3 \<and> has_prefix ''tx/'' content then
         (let txid = drop 3 content; txid_len = content_len - 3 in
          if txid_len = TXID_HEX_LENGTH \<and> is_all_hex txid then ROUTE_RESULT else ROUTE_ERROR)
       else if \<not> is_all_hex content then ROUTE_ERROR
       else if content_len mod 2 \<noteq> 0 then ROUTE_ERROR
       else if content_len = TXID_HEX_LENGTH then ROUTE_RESULT
       else if content_len \<ge> MIN_TX_HEX_LENGTH then ROUTE_BROADCAST
       else ROUTE_ERROR)"

lemma has_prefix_full: "length s = length p \<Longrightarrow> has_prefix p s \<longleftrightarrow> s = p"
  by (simp add: has_prefix_def)

text \<open>The router on a path with its slash, each fixed name as an equation.\<close>

lemma route_request_Cons:
  "route_request (CHR ''/'' # c) =
    (if c = [] then ROUTE_HOME
     else if c = ''health'' then ROUTE_HEALTH else if c = ''ready'' then ROUTE_READY
     else if c = ''version'' then ROUTE_VERSION else if c = ''alive'' then ROUTE_ALIVE
     else if c = ''metrics'' then ROUTE_METRICS else if c = ''docs'' then ROUTE_DOCS
     else if c = ''status'' then ROUTE_STATUS else if c = ''logos'' then ROUTE_LOGOS
     else if length c > 27 \<and> has_prefix acme_prefix c then ROUTE_ACME_CHALLENGE
     else if has_prefix ''tx/'' c \<and> length c > 3 then
       (if length c = 67 \<and> is_all_hex (drop 3 c) then ROUTE_RESULT else ROUTE_ERROR)
     else if \<not> is_all_hex c \<or> odd (length c) then ROUTE_ERROR
     else if length c = 64 then ROUTE_RESULT
     else if length c \<ge> 164 then ROUTE_BROADCAST else ROUTE_ERROR)"
proof -
  have fixed: "length c = n \<and> has_prefix p c \<longleftrightarrow> c = p" if "length p = n" for n p
    using that by (auto simp: has_prefix_full)
  show ?thesis
    by (auto simp: route_request_def Let_def fixed TXID_HEX_LENGTH_def MIN_TX_HEX_LENGTH_def
        odd_iff_mod_2_eq_one)
qed

lemma hex_not_fixed:
  assumes "is_all_hex c"
  shows "c \<noteq> ''health'' \<and> c \<noteq> ''ready'' \<and> c \<noteq> ''version'' \<and> c \<noteq> ''alive'' \<and> c \<noteq> ''metrics''
    \<and> c \<noteq> ''docs'' \<and> c \<noteq> ''status'' \<and> c \<noteq> ''logos'' \<and> \<not> has_prefix acme_prefix c
    \<and> \<not> has_prefix ''tx/'' c"
  using assms by (auto simp: is_all_hex_iff has_prefix_iff acme_prefix_def)

lemma route_request_hex:
  assumes "is_all_hex c"
  shows "route_request (CHR ''/'' # c) =
    (if c = [] then ROUTE_HOME else if odd (length c) then ROUTE_ERROR
     else if length c = 64 then ROUTE_RESULT
     else if length c \<ge> 164 then ROUTE_BROADCAST else ROUTE_ERROR)"
  using assms hex_not_fixed [OF assms] by (simp add: route_request_Cons)

lemma route_request_slash: "route_request path \<noteq> ROUTE_ERROR \<Longrightarrow> \<exists>c. path = CHR ''/'' # c"
  by (cases path) (auto simp: route_request_def split: if_splits)

lemma route_broadcast_iff:
  "route_request path = ROUTE_BROADCAST \<longleftrightarrow>
    (\<exists>c. path = CHR ''/'' # c \<and> is_all_hex c \<and> even (length c) \<and> 164 \<le> length c)"
proof
  assume r: "route_request path = ROUTE_BROADCAST"
  then obtain c where c: "path = CHR ''/'' # c"
    using route_request_slash [of path] by auto
  then show "\<exists>c. path = CHR ''/'' # c \<and> is_all_hex c \<and> even (length c) \<and> 164 \<le> length c"
    using r by (simp add: route_request_Cons split: if_splits)
next
  assume "\<exists>c. path = CHR ''/'' # c \<and> is_all_hex c \<and> even (length c) \<and> 164 \<le> length c"
  then show "route_request path = ROUTE_BROADCAST"
    by (auto simp: route_request_hex)
qed

lemma route_result_iff:
  "route_request path = ROUTE_RESULT \<longleftrightarrow>
    (\<exists>t. is_all_hex t \<and> length t = 64 \<and> (path = CHR ''/'' # t \<or> path = ''/tx/'' @ t))"
proof
  assume r: "route_request path = ROUTE_RESULT"
  then obtain c where c: "path = CHR ''/'' # c"
    using route_request_slash [of path] by auto
  have "(has_prefix ''tx/'' c \<and> length c = 67 \<and> is_all_hex (drop 3 c)) \<or> (is_all_hex c \<and> length c = 64)"
    using r c by (simp add: route_request_Cons split: if_splits)
  then show "\<exists>t. is_all_hex t \<and> length t = 64 \<and> (path = CHR ''/'' # t \<or> path = ''/tx/'' @ t)"
    using c by (auto simp: has_prefix_iff)
next
  assume "\<exists>t. is_all_hex t \<and> length t = 64 \<and> (path = CHR ''/'' # t \<or> path = ''/tx/'' @ t)"
  then obtain t where t: "is_all_hex t" "length t = 64" "path = CHR ''/'' # t \<or> path = ''/tx/'' @ t"
    by blast
  then show "route_request path = ROUTE_RESULT"
    by (auto simp: route_request_hex) (simp add: route_request_Cons acme_prefix_def)
qed

text \<open>
  C13. A path is routed to the broadcast page exactly when it is a slash followed by an even number,
  at least 164, of hexadecimal digits (a plausible raw transaction), and to the result page exactly
  when it is a 64-digit transaction id, bare or under \<open>/tx/\<close>; nothing else reaches them.
\<close>

theorem route_request_transactions:
  "(route_request path = ROUTE_BROADCAST \<longleftrightarrow>
      (\<exists>c. path = CHR ''/'' # c \<and> is_all_hex c \<and> even (length c) \<and> 164 \<le> length c))
   \<and> (route_request path = ROUTE_RESULT \<longleftrightarrow>
      (\<exists>t. is_all_hex t \<and> length t = 64 \<and> (path = CHR ''/'' # t \<or> path = ''/tx/'' @ t)))"
  using route_broadcast_iff route_result_iff by blast

end
