(* ===== verification/Inet.thy ===== *)
theory Inet
  imports Prelude
begin

text \<open>
  The C library's address conversions that \<^verbatim>\<open>src/src/ip_acl.c\<close>, \<^verbatim>\<open>src/src/rate_limiter.c\<close> and
  \<^verbatim>\<open>src/src/worker.c\<close> call: \<open>inet_pton\<close> and \<open>inet_ntop\<close> for both families, with the
  character automata of the C library. An address is the list of its bytes in network order,
  and the two files' common step, the IPv4-mapped form of a textual address, is \<open>mapped_addr\<close>.
\<close>

unbundle bit_operations_syntax

type_synonym addr = "byte list"

subsection \<open>IPv4\<close>

text \<open>
  \<open>acc\<close> holds the finished octets, \<open>cur\<close> the octet being read, \<open>saw\<close> whether it has a
  digit, \<open>octets\<close> the number of octets begun.
\<close>

fun pton4_loop :: "string \<Rightarrow> addr \<Rightarrow> nat \<Rightarrow> bool \<Rightarrow> nat \<Rightarrow> addr option" where
  "pton4_loop [] acc cur saw octets = (if octets < 4 then None else Some (acc @ [of_nat cur]))"
| "pton4_loop (c # s) acc cur saw octets =
    (if isdigit c then
       let v = 10 * cur + ((of_char c :: nat) - 48) in
       if saw \<and> cur = 0 then None
       else if 255 < v then None
       else if \<not> saw then (if 4 < octets + 1 then None else pton4_loop s acc v True (octets + 1))
       else pton4_loop s acc v True octets
     else if c = CHR ''.'' \<and> saw then
       (if octets = 4 then None else pton4_loop s (acc @ [of_nat cur]) 0 False octets)
     else None)"

definition inet_pton4 :: "string \<Rightarrow> addr option" where
  "inet_pton4 s = pton4_loop s [] 0 False 0"

definition inet_ntop4 :: "addr \<Rightarrow> string" where
  "inet_ntop4 a = fmt_u (unat (a ! 0)) @ ''.'' @ fmt_u (unat (a ! 1)) @ ''.''
     @ fmt_u (unat (a ! 2)) @ ''.'' @ fmt_u (unat (a ! 3))"

lemma pton4_loop_length:
  assumes "pton4_loop s acc cur saw octets = Some a"
    and "octets = length acc + (if saw then 1 else 0)" and "octets \<le> 4" and "saw \<or> octets < 4"
  shows "length a = 4"
  using assms
proof (induction s acc cur saw octets rule: pton4_loop.induct)
  case (1 acc cur saw octets)
  then show ?case by (auto split: if_splits)
next
  case (2 c s acc cur saw octets)
  show ?case
  proof (cases "isdigit c")
    case True
    then show ?thesis using 2 by (cases saw) (auto simp: Let_def split: if_splits)
  next
    case False
    then have d: "c = CHR ''.''" "saw" "octets \<noteq> 4"
        "pton4_loop s (acc @ [of_nat cur]) 0 False octets = Some a"
      using "2.prems"(1) by (auto split: if_splits)
    then show ?thesis using False "2.IH"(3) "2.prems"(2,3) by auto
  qed
qed

lemma inet_pton4_length: "inet_pton4 s = Some a \<Longrightarrow> length a = 4"
  unfolding inet_pton4_def by (drule pton4_loop_length) auto

text \<open>Reading the decimal digits of an octet.\<close>

lemma pton4_loop_digits:
  assumes "\<And>c. c \<in> set ds \<Longrightarrow> isdigit c" "0 < cur"
    and "foldl (\<lambda>v c. 10 * v + ((of_char c :: nat) - 48)) cur ds \<le> 255"
  shows "pton4_loop (ds @ s) acc cur True octets =
         pton4_loop s acc (foldl (\<lambda>v c. 10 * v + ((of_char c :: nat) - 48)) cur ds) True octets"
  using assms
proof (induction ds arbitrary: cur)
  case Nil
  then show ?case by simp
next
  case (Cons c ds)
  let ?v = "10 * cur + ((of_char c :: nat) - 48)"
  have ge: "cur' \<le> foldl (\<lambda>v c. 10 * v + ((of_char c :: nat) - 48)) cur' xs" for cur' xs
  proof (induction xs arbitrary: cur')
    case (Cons a xs)
    have "cur' \<le> 10 * cur' + ((of_char a :: nat) - 48)" by simp
    also note Cons.IH
    finally show ?case by simp
  qed simp
  have "?v \<le> 255" using ge [of ?v ds] Cons.prems(3) by simp
  then show ?case using Cons by simp
qed

lemma fmt_u_leading:
  assumes "n \<noteq> 0" "fmt_u n = c # r"
  shows "(of_char c :: nat) \<noteq> 48"
  using assms
proof (induction n arbitrary: r rule: fmt_u.induct)
  case (1 n)
  show ?case
  proof (cases "n < 10")
    case True
    then show ?thesis using "1.prems" by (subst (asm) fmt_u.simps) auto
  next
    case False
    obtain c' r' where cr: "fmt_u (n div 10) = c' # r'" using fmt_u_not_Nil by (metis neq_Nil_conv)
    have "c' = c" using "1.prems"(2) cr False by (subst (asm) fmt_u.simps) simp
    then show ?thesis using "1.IH" [OF False _ cr [unfolded \<open>c' = c\<close>]] False by simp
  qed
qed

lemma pton4_loop_fmt_u:
  assumes "n \<le> 255" "octets < 4"
  shows "pton4_loop (fmt_u n @ s) acc 0 False octets = pton4_loop s acc n True (Suc octets)"
proof (cases "n = 0")
  case True
  then show ?thesis using assms by (simp add: fmt_u.simps [of 0] isdigit_def)
next
  case False
  obtain c r where cr: "fmt_u n = c # r" using fmt_u_not_Nil by (metis neq_Nil_conv)
  have dig: "isdigit c" "\<And>d. d \<in> set r \<Longrightarrow> isdigit d"
    using fmt_u_digits [of _ n] cr by auto
  have ne: "(of_char c :: nat) \<noteq> 48" by (rule fmt_u_leading [OF False cr])
  have val: "foldl (\<lambda>v c. 10 * v + ((of_char c :: nat) - 48)) ((of_char c :: nat) - 48) r = n"
    using digits_val_fmt_u [of n] by (simp add: digits_val_def cr)
  have v0: "0 < (of_char c :: nat) - 48" "(of_char c :: nat) - 48 \<le> 255"
    using dig(1) ne by (auto simp: isdigit_def)
  have "pton4_loop (fmt_u n @ s) acc 0 False octets
      = pton4_loop (r @ s) acc ((of_char c :: nat) - 48) True (Suc octets)"
    using dig(1) v0 assms(2) by (simp add: cr)
  also have "\<dots> = pton4_loop s acc n True (Suc octets)"
    using pton4_loop_digits [OF dig(2) v0(1), of r] val assms(1) by simp
  finally show ?thesis .
qed

lemma isdigit_dot [simp]: "\<not> isdigit CHR ''.''"
  by (simp add: isdigit_def)

text \<open>Printing an IPv4 address and reading it back gives the address.\<close>

lemma inet_pton4_ntop4:
  assumes "length a = 4"
  shows "inet_pton4 (inet_ntop4 a) = Some a"
proof -
  obtain w x y z where a: "a = [w, x, y, z]"
    using assms by (auto simp: length_Suc_conv numeral_eq_Suc)
  have le: "unat b \<le> 255" for b :: byte
    using unsigned_less [of b, where ?'a = nat] by simp
  show ?thesis
    unfolding inet_pton4_def inet_ntop4_def a
    using pton4_loop_fmt_u [OF le, of _ z "[]"]
    by (simp add: pton4_loop_fmt_u le)
qed

subsection \<open>IPv6\<close>

definition xdigit_value :: "char \<Rightarrow> nat option" where
  "xdigit_value c = (let n = (of_char c :: nat) in
     if 48 \<le> n \<and> n \<le> 57 then Some (n - 48)
     else if 97 \<le> n \<and> n \<le> 102 then Some (n - 87)
     else if 65 \<le> n \<and> n \<le> 70 then Some (n - 55) else None)"

definition be16 :: "nat \<Rightarrow> addr" where
  "be16 v = [of_nat (v div 256), of_nat v]"

text \<open>
  \<open>tp\<close> holds the bytes written, \<open>colonp\<close> the offset of the double colon, \<open>xd\<close> the digits
  seen of the group being read; \<open>curtok\<close> is where that group starts.
\<close>

fun pton6_loop ::
    "string \<Rightarrow> string \<Rightarrow> addr \<Rightarrow> nat option \<Rightarrow> nat \<Rightarrow> nat \<Rightarrow> (addr \<times> nat option \<times> nat \<times> nat) option" where
  "pton6_loop [] curtok tp colonp v xd = Some (tp, colonp, v, xd)"
| "pton6_loop (c # s) curtok tp colonp v xd =
    (case xdigit_value c of
       Some d \<Rightarrow>
         if xd = 4 then None
         else if 65535 < 16 * v + d then None
         else pton6_loop s curtok tp colonp (16 * v + d) (xd + 1)
     | None \<Rightarrow>
         if c = CHR '':'' then
           (if xd = 0 then (if colonp \<noteq> None then None else pton6_loop s s tp (Some (length tp)) v xd)
            else if s = [] then None
            else if 16 < length tp + 2 then None
            else pton6_loop s s (tp @ be16 v) colonp 0 0)
         else if c = CHR ''.'' \<and> length tp + 4 \<le> 16 then
           (case inet_pton4 curtok of None \<Rightarrow> None | Some a4 \<Rightarrow> Some (tp @ a4, colonp, v, 0))
         else None)"

definition inet_pton6 :: "string \<Rightarrow> addr option" where
  "inet_pton6 s =
    (if s = [] then None
     else if hd s = CHR '':'' \<and> (tl s = [] \<or> hd (tl s) \<noteq> CHR '':'') then None
     else let src = (if hd s = CHR '':'' then tl s else s) in
       case pton6_loop src src [] None 0 0 of None \<Rightarrow> None
       | Some (tp, colonp, v, xd) \<Rightarrow>
          if 0 < xd \<and> 16 < length tp + 2 then None
          else let tp1 = (if 0 < xd then tp @ be16 v else tp) in
            case colonp of
              Some k \<Rightarrow> if length tp1 = 16 then None
                       else Some (take k tp1 @ replicate (16 - length tp1) 0 @ drop k tp1)
            | None \<Rightarrow> if length tp1 = 16 then Some tp1 else None)"

lemma pton6_loop_bounds:
  assumes "pton6_loop s ct tp cp v xd = Some (tp', cp', v', xd')"
    and "length tp \<le> 16" and "\<And>k. cp = Some k \<Longrightarrow> k \<le> length tp"
  shows "length tp' \<le> 16 \<and> (\<forall>k. cp' = Some k \<longrightarrow> k \<le> length tp')"
  using assms
proof (induction s ct tp cp v xd rule: pton6_loop.induct)
  case (1 curtok tp colonp v xd)
  then show ?case by simp
next
  case (2 c s curtok tp colonp v xd)
  show ?case
  proof (cases "xdigit_value c")
    case (Some d)
    then show ?thesis using 2 by (auto split: if_splits)
  next
    case None
    show ?thesis
    proof (cases "c = CHR '':''")
      case True
      then show ?thesis using 2 None
        by (auto simp: be16_def split: if_splits) fastforce+
    next
      case False
      then obtain a4 where "inet_pton4 curtok = Some a4" "tp' = tp @ a4" "cp' = colonp" "length tp + 4 \<le> 16"
        using "2.prems"(1) None by (auto split: if_splits option.splits)
      then show ?thesis using "2.prems"(2,3) inet_pton4_length by fastforce
    qed
  qed
qed

lemma inet_pton6_length: "inet_pton6 s = Some a \<Longrightarrow> length a = 16"
  by (auto simp: inet_pton6_def Let_def be16_def dest!: pton6_loop_bounds
      split: if_splits option.splits prod.splits)

text \<open>
  \<open>inet_ntop\<close> for IPv6: the first longest run of at least two zero words is written as a double
  colon, and the IPv4-compatible and IPv4-mapped forms end in dotted decimal.
\<close>

definition addr_words :: "addr \<Rightarrow> nat list" where
  "addr_words a = map (\<lambda>i. 256 * unat (a ! (2 * i)) + unat (a ! (2 * i + 1))) [0, 1, 2, 3, 4, 5, 6, 7]"

fun zero_runs :: "nat list \<Rightarrow> nat \<Rightarrow> (nat \<times> nat) list" where
  "zero_runs [] i = []"
| "zero_runs (v # vs) i =
    (if v = 0 then let n = Suc (length (takeWhile (\<lambda>x. x = 0) vs)) in (i, n) # zero_runs vs (Suc i)
     else zero_runs vs (Suc i))"

definition best_run :: "nat list \<Rightarrow> (nat \<times> nat) option" where
  "best_run ws = (case fold (\<lambda>(b, n) best. case best of None \<Rightarrow> Some (b, n)
       | Some (b', n') \<Rightarrow> if n' < n then Some (b, n) else Some (b', n')) (zero_runs ws 0) None of
     Some (b, n) \<Rightarrow> if n < 2 then None else Some (b, n) | None \<Rightarrow> None)"

fun ntop6_words :: "addr \<Rightarrow> nat list \<Rightarrow> (nat \<times> nat) option \<Rightarrow> nat list \<Rightarrow> string" where
  "ntop6_words a ws best [] = []"
| "ntop6_words a ws best (i # is) =
    (let inside = (case best of None \<Rightarrow> False | Some (b, n) \<Rightarrow> b \<le> i \<and> i < b + n);
         start = (case best of None \<Rightarrow> False | Some (b, n) \<Rightarrow> i = b);
         v4 = (i = 6 \<and> (best = Some (0, 6) \<or> best = Some (0, 5) \<and> ws ! 5 = 65535)) in
     if inside then (if start then '':'' else []) @ ntop6_words a ws best is
     else (if i \<noteq> 0 then '':'' else []) @
       (if v4 then inet_ntop4 (drop 12 a) else fmt_x (ws ! i) @ ntop6_words a ws best is))"

definition inet_ntop6 :: "addr \<Rightarrow> string" where
  "inet_ntop6 a = (let ws = addr_words a; best = best_run ws in
     ntop6_words a ws best [0, 1, 2, 3, 4, 5, 6, 7]
     @ (case best of None \<Rightarrow> [] | Some (b, n) \<Rightarrow> if b + n = 8 then '':'' else []))"

subsection \<open>The 16-byte form\<close>

definition mapped_addr :: "string \<Rightarrow> (addr \<times> bool) option" where
  "mapped_addr s = (case inet_pton4 s of
     Some a4 \<Rightarrow> Some (replicate 10 0 @ [255, 255] @ a4, False)
   | None \<Rightarrow> (case inet_pton6 s of Some a6 \<Rightarrow> Some (a6, True) | None \<Rightarrow> None))"

lemma mapped_addr_length: "mapped_addr s = Some (a, b) \<Longrightarrow> length a = 16"
  by (auto simp: mapped_addr_def dest: inet_pton4_length inet_pton6_length split: option.splits)

definition fnv1a :: "addr \<Rightarrow> u32" where
  "fnv1a a = foldl (\<lambda>h b. (h XOR ucast b) * 16777619) 2166136261 a"

text \<open>
  A client that reaches the dual-stack listener over IPv4 appears with its IPv4-mapped address and
  is printed as \<open>::ffff:a.b.c.d\<close>; reading that text gives the same 16 bytes as reading the plain
  IPv4 text.
\<close>

definition mapped4 :: "addr \<Rightarrow> addr" where
  "mapped4 a4 = replicate 10 0 @ [255, 255] @ a4"

lemma ntop6_mapped:
  assumes "length a4 = 4"
  shows "inet_ntop6 (mapped4 a4) = ''::ffff:'' @ inet_ntop4 a4"
proof -
  obtain w x y z where a: "a4 = [w, x, y, z]" using assms by (auto simp: length_Suc_conv numeral_eq_Suc)
  have ff: "fmt_x 65535 = ''ffff''" by (simp add: fmt_x.simps hex_digit_def char_of_def bit_0)
  define p where "p = 256 * unat w + unat x"
  define r where "r = 256 * unat y + unat z"
  have m: "mapped4 a4 = [0, 0, 0, 0, 0, 0, 0, 0, 0, 0, 255, 255, w, x, y, z]"
    by (simp add: mapped4_def a numeral_eq_Suc)
  have ws: "addr_words (mapped4 a4) = [0, 0, 0, 0, 0, 65535, p, r]"
    by (simp add: addr_words_def m p_def r_def)
  have best: "best_run [0, 0, 0, 0, 0, 65535, p, r] = Some (0, 5)"
    by (cases "p = 0"; cases "r = 0") (simp_all add: best_run_def)
  show ?thesis
    unfolding inet_ntop6_def ws Let_def best
    by (simp add: m [unfolded a] a ff)
qed

lemma pton6_loop_digit_dot:
  assumes "\<And>c. c \<in> set ds \<Longrightarrow> isdigit c" "length ds \<le> 3" "length tp + 4 \<le> 16" "inet_pton4 curtok = Some a4"
    and "foldl (\<lambda>v c. 16 * v + ((of_char c :: nat) - 48)) v ds \<le> 65535" "xd + length ds \<le> 4"
  shows "pton6_loop (ds @ CHR ''.'' # s) curtok tp colonp v xd = Some (tp @ a4, colonp,
     foldl (\<lambda>v c. 16 * v + ((of_char c :: nat) - 48)) v ds, 0)"
  using assms
proof (induction ds arbitrary: v xd)
  case Nil
  then show ?case by (simp add: xdigit_value_def)
next
  case (Cons c ds)
  have ge: "w \<le> foldl (\<lambda>v c. 16 * v + ((of_char c :: nat) - 48)) w xs" for w xs
  proof (induction xs arbitrary: w)
    case (Cons b xs)
    have "w \<le> 16 * w + ((of_char b :: nat) - 48)" by simp
    also note Cons.IH
    finally show ?case by simp
  qed simp
  have x: "xdigit_value c = Some ((of_char c :: nat) - 48)"
    using Cons.prems(1) [of c] by (simp add: xdigit_value_def isdigit_def)
  have "16 * v + ((of_char c :: nat) - 48) \<le> 65535"
    using ge [of "16 * v + ((of_char c :: nat) - 48)" ds] Cons.prems(5) by simp
  then show ?case using Cons.prems x Cons.IH [of "16 * v + ((of_char c :: nat) - 48)" "Suc xd"] by simp
qed

lemma inet_pton4_colon: "inet_pton4 (CHR '':'' # s) = None"
  by (simp add: inet_pton4_def isdigit_def)

lemma parse_mapped:
  assumes "length a4 = 4"
  shows "inet_pton4 (inet_ntop6 (mapped4 a4)) = None \<and> inet_pton6 (inet_ntop6 (mapped4 a4)) = Some (mapped4 a4)"
proof -
  obtain w x y z where a: "a4 = [w, x, y, z]" using assms by (auto simp: length_Suc_conv numeral_eq_Suc)
  let ?ds = "fmt_u (unat w)"
  let ?t = "inet_ntop4 a4"
  have t: "?t = ?ds @ CHR ''.'' # (fmt_u (unat x) @ ''.'' @ fmt_u (unat y) @ ''.'' @ fmt_u (unat z))"
    by (simp add: inet_ntop4_def a)
  have w: "unat w < 10 ^ 3" using unsigned_less [of w, where ?'a = nat] by simp
  have len: "length ?ds \<le> 3" by (rule length_fmt_u [OF w]) simp
  have small: "foldl (\<lambda>v c. 16 * v + ((of_char c :: nat) - 48)) 0 ?ds \<le> 65535"
  proof -
    have b: "foldl (\<lambda>v c. 16 * v + ((of_char c :: nat) - 48)) v ds \<le> (v + 1) * 16 ^ length ds - 1"
      if "\<And>c. c \<in> set ds \<Longrightarrow> isdigit c" for v ds
      using that
    proof (induction ds arbitrary: v)
      case (Cons c ds)
      have c: "(of_char c :: nat) - 48 \<le> 9" using Cons.prems [of c] by (auto simp: isdigit_def)
      have "foldl (\<lambda>v c. 16 * v + ((of_char c :: nat) - 48)) (16 * v + ((of_char c :: nat) - 48)) ds
          \<le> (16 * v + ((of_char c :: nat) - 48) + 1) * 16 ^ length ds - 1"
        using Cons by simp
      also have "\<dots> \<le> (16 * v + 16) * 16 ^ length ds - 1" using c by (intro diff_le_mono mult_right_mono) auto
      finally show ?case by (simp add: algebra_simps)
    qed simp
    have "foldl (\<lambda>v c. 16 * v + ((of_char c :: nat) - 48)) 0 ?ds \<le> 16 ^ length ?ds - 1"
      using b [of ?ds 0] fmt_u_digits by simp
    also have "\<dots> \<le> 16 ^ 3 - 1" using power_increasing [OF len, of "16 :: nat"] by (intro diff_le_mono) simp
    finally show ?thesis by simp
  qed
  have loop: "pton6_loop ?t ?t [255, 255] (Some 0) 0 0 = Some ([255, 255] @ a4, Some 0,
      foldl (\<lambda>v c. 16 * v + ((of_char c :: nat) - 48)) 0 ?ds, 0)"
    using pton6_loop_digit_dot [of ?ds "[255, 255]" ?t a4 0 0 "fmt_u (unat x) @ ''.'' @ fmt_u (unat y) @ ''.'' @ fmt_u (unat z)" "Some 0"]
      fmt_u_digits len small inet_pton4_ntop4 [OF assms] by (simp add: t)
  have be: "be16 65535 = [255, 255]" by (simp add: be16_def)
  have "?t \<noteq> []" by (simp add: t)
  then have full: "pton6_loop ('':ffff:'' @ ?t) ('':ffff:'' @ ?t) [] None 0 0 = Some ([255, 255] @ a4, Some 0,
      foldl (\<lambda>v c. 16 * v + ((of_char c :: nat) - 48)) 0 ?ds, 0)"
    using loop by (simp add: xdigit_value_def be)
  show ?thesis
    using assms full [unfolded append_Cons append_Nil] unfolding ntop6_mapped [OF assms]
    by (simp add: inet_pton4_colon inet_pton6_def mapped4_def del: pton6_loop.simps)
qed

end
