(* ===== verification/Buckets.thy ===== *)
theory Buckets
  imports Prelude
begin

text \<open>
  The chained hash table that \<^verbatim>\<open>src/src/ip_acl.c\<close> and \<^verbatim>\<open>src/src/rate_limiter.c\<close> both write
  out: an array of singly linked chains, a search along the chain of the key's bucket, insertion
  at the head of that chain, and removal of the entries a test selects. A table is the list of its
  chains. The locale \<open>chained_table\<close> states what the two files need of their hash functions
  and proves the laws of a finite map for the table, once for both.
\<close>

definition table_entries :: "'e list list \<Rightarrow> 'e list" where
  "table_entries bs = concat bs"

lemma table_entries_replicate [simp]: "table_entries (replicate n []) = []"
  by (simp add: table_entries_def)

lemma length_concat_update:
  "i < length bs \<Longrightarrow> length (concat (bs[i := c])) + length (bs ! i) = length (concat bs) + length c"
proof (induction bs arbitrary: i)
  case (Cons b bs)
  show ?case
  proof (cases i)
    case (Suc j)
    then show ?thesis using Cons.IH [of j] Cons.prems by simp
  qed simp
qed simp

lemma set_concat_insert:
  "i < length bs \<Longrightarrow> set (concat (bs[i := e # (bs ! i)])) = insert e (set (concat bs))"
proof (induction bs arbitrary: i)
  case (Cons b bs)
  then show ?case by (cases i) auto
qed simp

lemma find_distinct_key:
  "distinct (map key es) \<Longrightarrow> e \<in> set es \<Longrightarrow> find (\<lambda>x. key x = key e) es = Some e"
proof (induction es)
  case (Cons x es)
  show ?case
  proof (cases "key x = key e")
    case True
    then have "e \<notin> set es" using Cons.prems(1) by force
    then show ?thesis using Cons.prems(2) by simp
  next
    case False
    then show ?thesis using Cons by auto
  qed
qed simp

lemma in_table_iff: "e \<in> set (table_entries bs) \<longleftrightarrow> (\<exists>i < length bs. e \<in> set (bs ! i))"
  unfolding table_entries_def set_concat by (metis UN_iff in_set_conv_nth)

locale chained_table =
  fixes key :: "'e \<Rightarrow> 'k" and idx :: "'k \<Rightarrow> nat" and nb :: nat
  assumes idx_less: "idx k < nb"
begin

definition wf_table :: "'e list list \<Rightarrow> bool" where
  "wf_table bs \<longleftrightarrow> length bs = nb \<and>
     (\<forall>i < nb. distinct (map key (bs ! i)) \<and> (\<forall>e \<in> set (bs ! i). idx (key e) = i))"

definition lookup :: "'e list list \<Rightarrow> 'k \<Rightarrow> 'e option" where
  "lookup bs k = find (\<lambda>e. key e = k) (bs ! idx k)"

definition insert_head :: "'e list list \<Rightarrow> 'e \<Rightarrow> 'e list list" where
  "insert_head bs e = bs[idx (key e) := e # (bs ! idx (key e))]"

definition replace :: "'e list list \<Rightarrow> 'k \<Rightarrow> ('e \<Rightarrow> 'e) \<Rightarrow> 'e list list" where
  "replace bs k f = bs[idx k := map (\<lambda>e. if key e = k then f e else e) (bs ! idx k)]"

lemma wf_table_empty: "wf_table (replicate nb [])"
  by (simp add: wf_table_def)

lemma find_key: "find (\<lambda>e. key e = k) es = Some e \<Longrightarrow> key e = k \<and> e \<in> set es"
  by (induction es) (auto split: if_splits)

lemma wf_table_chain:
  assumes "wf_table bs" "i < nb"
  shows "distinct (map key (bs ! i))" and "e \<in> set (bs ! i) \<Longrightarrow> idx (key e) = i"
  using assms by (simp_all add: wf_table_def)

lemma wf_table_length: "wf_table bs \<Longrightarrow> length bs = nb"
  by (simp add: wf_table_def)

lemma lookup_Some_iff:
  assumes "wf_table bs"
  shows "lookup bs k = Some e \<longleftrightarrow> e \<in> set (table_entries bs) \<and> key e = k"
proof
  assume "lookup bs k = Some e"
  then have "key e = k" "e \<in> set (bs ! idx k)" using find_key unfolding lookup_def by metis+
  then show "e \<in> set (table_entries bs) \<and> key e = k"
    using wf_table_length [OF assms] idx_less [of k] by (auto simp: in_table_iff)
next
  assume e: "e \<in> set (table_entries bs) \<and> key e = k"
  then obtain i where i: "i < nb" "e \<in> set (bs ! i)"
    using wf_table_length [OF assms] by (auto simp: in_table_iff)
  have "idx k = i" using wf_table_chain(2) [OF assms i] e by simp
  then show "lookup bs k = Some e"
    using find_distinct_key [OF wf_table_chain(1) [OF assms i(1)] i(2)] e by (simp add: lookup_def)
qed

lemma lookup_None_iff:
  assumes "wf_table bs"
  shows "lookup bs k = None \<longleftrightarrow> (\<forall>e \<in> set (table_entries bs). key e \<noteq> k)"
  using lookup_Some_iff [OF assms, of k] by (cases "lookup bs k") auto

lemma wf_table_insert:
  assumes "wf_table bs" "lookup bs (key e) = None"
  shows "wf_table (insert_head bs e)"
proof -
  have "key e \<notin> key ` set (bs ! idx (key e))"
    using assms(2) by (auto simp: lookup_def find_None_iff)
  then show ?thesis
    using assms(1) idx_less [of "key e"]
    by (auto simp: wf_table_def insert_head_def nth_list_update)
qed

lemma entries_insert:
  assumes "wf_table bs"
  shows "set (table_entries (insert_head bs e)) = insert e (set (table_entries bs))"
    and "length (table_entries (insert_head bs e)) = Suc (length (table_entries bs))"
proof -
  have i: "idx (key e) < length bs" using assms idx_less by (simp add: wf_table_def)
  then show "length (table_entries (insert_head bs e)) = Suc (length (table_entries bs))"
    using length_concat_update [OF i, of "e # bs ! idx (key e)"]
    by (simp add: insert_head_def table_entries_def)
  show "set (table_entries (insert_head bs e)) = insert e (set (table_entries bs))"
    unfolding insert_head_def table_entries_def by (rule set_concat_insert [OF i])
qed

lemma lookup_insert:
  assumes "wf_table bs"
  shows "lookup (insert_head bs e) k = (if k = key e then Some e else lookup bs k)"
proof -
  have "idx (key e) < length bs" using assms idx_less by (simp add: wf_table_def)
  then show ?thesis by (auto simp: lookup_def insert_head_def nth_list_update)
qed

lemma wf_table_replace:
  assumes "wf_table bs" "\<And>e. key e = k \<Longrightarrow> key (f e) = k"
  shows "wf_table (replace bs k f)"
proof -
  define g where "g = (\<lambda>e. if key e = k then f e else e)"
  have g: "key (g e) = key e" for e by (simp add: g_def assms(2))
  have "length (replace bs k f) = nb" using wf_table_length [OF assms(1)] by (simp add: replace_def)
  moreover have "distinct (map key (replace bs k f ! i)) \<and> (\<forall>e \<in> set (replace bs k f ! i). idx (key e) = i)"
    if i: "i < nb" for i
  proof (cases "i = idx k")
    case True
    then have "replace bs k f ! i = map g (bs ! i)"
      using i wf_table_length [OF assms(1)] by (simp add: replace_def g_def)
    then show ?thesis using wf_table_chain [OF assms(1) i] by (simp add: comp_def g)
  next
    case False
    then show ?thesis using wf_table_chain [OF assms(1) i] by (simp add: replace_def)
  qed
  ultimately show ?thesis by (simp add: wf_table_def)
qed

lemma length_replace: "length (table_entries (replace bs k f)) = length (table_entries bs)"
proof (cases "idx k < length bs")
  case True
  then show ?thesis
    using length_concat_update [OF True, of "map (\<lambda>e. if key e = k then f e else e) (bs ! idx k)"]
    by (simp add: replace_def table_entries_def)
next
  case False
  then show ?thesis by (simp add: replace_def list_update_beyond)
qed

lemma find_map_replace:
  assumes "\<And>e. key e = k \<Longrightarrow> key (f e) = k"
  shows "find (\<lambda>e. key e = k') (map (\<lambda>e. if key e = k then f e else e) es)
       = (if k' = k then map_option f (find (\<lambda>e. key e = k') es) else find (\<lambda>e. key e = k') es)"
  using assms by (induction es) auto

lemma lookup_replace:
  assumes "wf_table bs" "\<And>e. key e = k \<Longrightarrow> key (f e) = k"
  shows "lookup (replace bs k f) k' = (if k' = k then map_option f (lookup bs k) else lookup bs k')"
proof -
  have i: "idx k < length bs" using assms(1) idx_less by (simp add: wf_table_def)
  show ?thesis
  proof (cases "idx k' = idx k")
    case True
    then show ?thesis using i find_map_replace [OF assms(2)] by (auto simp: lookup_def replace_def)
  next
    case False
    then show ?thesis by (auto simp: lookup_def replace_def)
  qed
qed

lemma entries_replace:
  assumes "wf_table bs" "\<And>e. key e = k \<Longrightarrow> key (f e) = k" "e \<in> set (table_entries (replace bs k f))"
  shows "\<exists>e0 \<in> set (table_entries bs). e = (if key e0 = k then f e0 else e0)"
proof -
  have "lookup (replace bs k f) (key e) = Some e"
    using assms lookup_Some_iff [OF wf_table_replace [OF assms(1,2)]] by auto
  then have "(if key e = k then map_option f (lookup bs k) else lookup bs (key e)) = Some e"
    using lookup_replace [OF assms(1,2)] by simp
  then show ?thesis
    using lookup_Some_iff [OF assms(1)] assms(2) by (auto split: if_splits)
qed

lemma wf_table_filter: "wf_table bs \<Longrightarrow> wf_table (map (filter P) bs)"
  by (auto simp: wf_table_def distinct_map_filter)

lemma entries_filter: "table_entries (map (filter P) bs) = filter P (table_entries bs)"
  by (simp add: table_entries_def filter_concat)

end

end
