(* ===== verification/RateLimiter.thy ===== *)
theory RateLimiter
  imports Inet Buckets Complex_Main
begin

text \<open>
  \<^verbatim>\<open>src/src/rate_limiter.c\<close>: a token bucket per client address. A C \<open>double\<close> is a rational and
  every floating-point operation is followed by the rounding \<open>rnd\<close> of the machine, a parameter;
  \<open>fp_rounding\<close> states the properties of IEEE rounding the invariant uses. The quantitative
  bound is stated for exact arithmetic. The monotonic clock, the wall clock and the result of
  \<open>malloc\<close> are arguments.
\<close>

record RateLimitKey =
  key_addr :: addr
  key_is_ipv6 :: bool

record RateLimitEntry =
  rle_key :: RateLimitKey
  rle_tokens :: rat
  rle_last_update :: rat
  rle_last_request :: int

record RateLimiter =
  rl_buckets :: "RateLimitEntry list list option"
  rl_num_buckets :: int
  rl_num_entries :: int
  rl_rate :: rat
  rl_burst :: rat
  rl_enabled :: bool

definition HASH_SIZE :: nat where "HASH_SIZE = 4099"
definition RATE_LIMITER_MAX_ENTRIES :: int where "RATE_LIMITER_MAX_ENTRIES = 10000"
definition RATE_LIMITER_ENTRY_TTL :: int where "RATE_LIMITER_ENTRY_TTL = 60"

text \<open>\<open>ts.tv_sec + ts.tv_nsec / 1e9\<close>, and the conversion of a double to \<open>time_t\<close>.\<close>

definition get_time_precise :: "(rat \<Rightarrow> rat) \<Rightarrow> int \<times> int \<Rightarrow> rat" where
  "get_time_precise rnd ts = rnd (of_int (fst ts) + rnd (of_int (snd ts) / 10 ^ 9))"

definition trunc_time :: "rat \<Rightarrow> int" where
  "trunc_time x = (if 0 \<le> x then \<lfloor>x\<rfloor> else \<lceil>x\<rceil>)"

definition parse_ip :: "string \<Rightarrow> RateLimitKey option" where
  "parse_ip ip_str = (case inet_pton4 ip_str of
     Some addr4 \<Rightarrow> Some \<lparr>key_addr = replicate 10 0 @ [0xff, 0xff] @ addr4, key_is_ipv6 = False\<rparr>
   | None \<Rightarrow> (case inet_pton6 ip_str of
       Some addr6 \<Rightarrow> Some \<lparr>key_addr = addr6, key_is_ipv6 = True\<rparr> | None \<Rightarrow> None))"

definition hash_key :: "RateLimitKey \<Rightarrow> u32" where
  "hash_key key = foldl (\<lambda>hash b. (hash XOR ucast b) * 16777619) 2166136261 (key_addr key)"

definition keys_equal :: "RateLimitKey \<Rightarrow> RateLimitKey \<Rightarrow> bool" where
  "keys_equal a b = (key_addr a = key_addr b)"

definition rate_limiter_init :: "bool \<Rightarrow> rat \<Rightarrow> rat \<Rightarrow> bool \<times> RateLimiter" where
  "rate_limiter_init calloc_ok rate burst =
    (let rl = \<lparr>rl_buckets = None, rl_num_buckets = 0, rl_num_entries = 0, rl_rate = 0,
               rl_burst = 0, rl_enabled = False\<rparr> in
     if rate \<le> 0 then (True, rl\<lparr>rl_enabled := False\<rparr>)
     else if \<not> calloc_ok then (False, rl)
     else (True, \<lparr>rl_buckets = Some (replicate HASH_SIZE []), rl_num_buckets = int HASH_SIZE,
                  rl_num_entries = 0, rl_rate = rate, rl_burst = (if burst > 0 then burst else rate),
                  rl_enabled = True\<rparr>))"

definition rate_limiter_free :: "RateLimiter \<Rightarrow> RateLimiter" where
  "rate_limiter_free rl = (if rl_buckets rl = None then rl else rl\<lparr>rl_buckets := None\<rparr>)"

definition rl_bucket :: "RateLimiter \<Rightarrow> RateLimitKey \<Rightarrow> nat" where
  "rl_bucket rl key = unat (hash_key key mod of_int (rl_num_buckets rl))"

definition rate_limiter_cleanup :: "int \<Rightarrow> RateLimiter \<Rightarrow> RateLimiter" where
  "rate_limiter_cleanup wall rl = (case rl_buckets rl of
     None \<Rightarrow> rl
   | Some bs \<Rightarrow>
      let expiry = wall - RATE_LIMITER_ENTRY_TTL;
          bs' = map (filter (\<lambda>e. \<not> rle_last_request e < expiry)) bs in
      rl\<lparr>rl_buckets := Some bs',
         rl_num_entries := rl_num_entries rl - int (length (filter (\<lambda>e. rle_last_request e < expiry) (concat bs)))\<rparr>)"

text \<open>
  \<open>get_entry\<close> returns a pointer into the table: here the state, and the entry as it is stored.
  A write through that pointer is \<open>rl_store\<close>, which replaces the entry of that key in its chain.
\<close>

definition get_entry ::
    "int \<Rightarrow> bool \<Rightarrow> RateLimiter \<Rightarrow> RateLimitKey \<Rightarrow> rat \<Rightarrow> RateLimiter \<times> RateLimitEntry option" where
  "get_entry wall malloc_ok rl key now =
    (let bucket = rl_bucket rl key in
     case find (\<lambda>entry. keys_equal (rle_key entry) key) (the (rl_buckets rl) ! bucket) of
       Some entry \<Rightarrow> (rl, Some entry)
     | None \<Rightarrow>
        let rl1 = (if RATE_LIMITER_MAX_ENTRIES \<le> rl_num_entries rl then rate_limiter_cleanup wall rl else rl) in
        if RATE_LIMITER_MAX_ENTRIES \<le> rl_num_entries rl1 then (rl1, None)
        else if \<not> malloc_ok then (rl1, None)
        else let entry = \<lparr>rle_key = key, rle_tokens = rl_burst rl1, rle_last_update = now,
                          rle_last_request = trunc_time now\<rparr>;
                 bs = the (rl_buckets rl1) in
          (rl1\<lparr>rl_buckets := Some (bs[bucket := entry # bs ! bucket]),
               rl_num_entries := rl_num_entries rl1 + 1\<rparr>, Some entry))"

definition rl_store :: "RateLimiter \<Rightarrow> RateLimitKey \<Rightarrow> RateLimitEntry \<Rightarrow> RateLimiter" where
  "rl_store rl key e = (let bs = the (rl_buckets rl); b = rl_bucket rl key in
     rl\<lparr>rl_buckets := Some (bs[b := map (\<lambda>x. if keys_equal (rle_key x) key then e else x) (bs ! b)])\<rparr>)"

definition replenish_tokens :: "(rat \<Rightarrow> rat) \<Rightarrow> RateLimiter \<Rightarrow> RateLimitEntry \<Rightarrow> rat \<Rightarrow> RateLimitEntry" where
  "replenish_tokens rnd rl entry now =
    (if now \<le> rle_last_update entry then entry
     else let elapsed = rnd (now - rle_last_update entry);
              new_tokens = rnd (rle_tokens entry + rnd (elapsed * rl_rate rl));
              capped = (if rl_burst rl < new_tokens then rl_burst rl else new_tokens) in
       entry\<lparr>rle_tokens := capped, rle_last_update := now\<rparr>)"

definition rate_limiter_allow ::
    "(rat \<Rightarrow> rat) \<Rightarrow> int \<times> int \<Rightarrow> int \<Rightarrow> bool \<Rightarrow> RateLimiter \<Rightarrow> string \<Rightarrow> bool \<times> RateLimiter" where
  "rate_limiter_allow rnd mono_clock wall malloc_ok rl ip_str =
    (if \<not> rl_enabled rl \<or> rl_buckets rl = None then (True, rl)
     else case parse_ip ip_str of
       None \<Rightarrow> (True, rl)
     | Some key \<Rightarrow>
        let now = get_time_precise rnd mono_clock in
        (case get_entry wall malloc_ok rl key now of
           (rl1, None) \<Rightarrow> (False, rl1)
         | (rl1, Some e0) \<Rightarrow>
            let e1 = e0\<lparr>rle_last_request := trunc_time now\<rparr>;
                e2 = replenish_tokens rnd rl1 e1 now in
            if 1 \<le> rle_tokens e2
            then (True, rl_store rl1 key (e2\<lparr>rle_tokens := rnd (rle_tokens e2 - 1)\<rparr>))
            else (False, rl_store rl1 key e2)))"

definition rate_limiter_get_entry_count :: "RateLimiter \<Rightarrow> int" where
  "rate_limiter_get_entry_count rl = rl_num_entries rl"

subsection \<open>The table\<close>

interpretation rlt: chained_table "\<lambda>e. key_addr (rle_key e)"
    "\<lambda>a. unat (hash_key \<lparr>key_addr = a, key_is_ipv6 = False\<rparr> mod 4099)" HASH_SIZE
  by unfold_locales (simp add: HASH_SIZE_def unat_mod)

lemma hash_key_addr: "hash_key k = hash_key \<lparr>key_addr = key_addr k, key_is_ipv6 = False\<rparr>"
  by (simp add: hash_key_def)

text \<open>IEEE rounding: monotone, exact at 0, and idempotent.\<close>

definition fp_rounding :: "(rat \<Rightarrow> rat) \<Rightarrow> bool" where
  "fp_rounding rnd \<longleftrightarrow> mono rnd \<and> rnd 0 = 0 \<and> (\<forall>x. rnd (rnd x) = rnd x)"

definition entry_ok :: "(rat \<Rightarrow> rat) \<Rightarrow> RateLimiter \<Rightarrow> RateLimitEntry \<Rightarrow> bool" where
  "entry_ok rnd rl e \<longleftrightarrow> 0 \<le> rle_tokens e \<and> rle_tokens e \<le> rl_burst rl \<and> rnd (rle_tokens e) = rle_tokens e"

definition rl_ok :: "(rat \<Rightarrow> rat) \<Rightarrow> RateLimiter \<Rightarrow> bool" where
  "rl_ok rnd rl \<longleftrightarrow> (case rl_buckets rl of
     None \<Rightarrow> \<not> rl_enabled rl
   | Some bs \<Rightarrow> rl_enabled rl \<and> rl_num_buckets rl = 4099 \<and> rlt.wf_table bs
      \<and> rl_num_entries rl = int (length (table_entries bs)) \<and> rl_num_entries rl \<le> RATE_LIMITER_MAX_ENTRIES
      \<and> 0 < rl_rate rl \<and> 0 < rl_burst rl \<and> rnd (rl_burst rl) = rl_burst rl
      \<and> (\<forall>e \<in> set (table_entries bs). entry_ok rnd rl e))"

lemma rl_bucket_idx:
  "rl_num_buckets rl = 4099 \<Longrightarrow> rl_bucket rl key =
     unat (hash_key \<lparr>key_addr = key_addr key, key_is_ipv6 = False\<rparr> mod 4099)"
  unfolding rl_bucket_def using hash_key_addr [of key] by simp

lemma rl_init_ok:
  assumes "rnd (if burst > 0 then burst else rate) = (if burst > 0 then burst else rate)"
  shows "rl_ok rnd (snd (rate_limiter_init c rate burst))"
  using assms rlt.wf_table_empty
  by (auto simp: rate_limiter_init_def rl_ok_def HASH_SIZE_def RATE_LIMITER_MAX_ENTRIES_def Let_def)

lemma rl_cleanup_ok: "rl_ok rnd rl \<Longrightarrow> rl_ok rnd (rate_limiter_cleanup w rl)"
proof (cases "rl_buckets rl")
  case (Some bs)
  assume ok: "rl_ok rnd rl"
  let ?P = "\<lambda>e. \<not> rle_last_request e < w - RATE_LIMITER_ENTRY_TTL"
  have "length (filter (\<lambda>e. \<not> ?P e) (concat bs)) + length (filter ?P (concat bs)) = length (concat bs)"
    by (metis add.commute sum_length_filter_compl)
  then have n: "int (length (concat bs)) - int (length (filter (\<lambda>e. \<not> ?P e) (concat bs)))
      = int (length (filter ?P (concat bs)))" by linarith
  show ?thesis
    using ok Some rlt.wf_table_filter [of bs ?P] n
    by (auto simp: rl_ok_def rate_limiter_cleanup_def Let_def table_entries_def filter_concat entry_ok_def)
qed (simp add: rate_limiter_cleanup_def)

definition rl_lookup :: "RateLimiter \<Rightarrow> addr \<Rightarrow> RateLimitEntry option" where
  "rl_lookup rl a = (case rl_buckets rl of None \<Rightarrow> None | Some bs \<Rightarrow> rlt.lookup bs a)"

lemma rl_find_lookup:
  assumes "rl_ok rnd rl" "rl_buckets rl = Some bs"
  shows "find (\<lambda>e. keys_equal (rle_key e) key) (bs ! rl_bucket rl key) = rl_lookup rl (key_addr key)"
  using assms by (simp add: rl_lookup_def rl_ok_def rl_bucket_idx rlt.lookup_def keys_equal_def)

lemma rl_lookup_ok:
  "rl_ok rnd rl \<Longrightarrow> rl_lookup rl a = Some e \<Longrightarrow> entry_ok rnd rl e \<and> key_addr (rle_key e) = a"
  using rlt.lookup_Some_iff by (fastforce simp: rl_ok_def rl_lookup_def split: option.splits)

text \<open>Storing through an entry pointer.\<close>

lemma rl_store_ok:
  assumes "rl_ok rnd rl" "rl_buckets rl \<noteq> None" "entry_ok rnd rl e" "key_addr (rle_key e) = key_addr key"
  shows "rl_ok rnd (rl_store rl key e)"
    and "rl_lookup (rl_store rl key e) a =
         (if a = key_addr key then map_option (\<lambda>_. e) (rl_lookup rl a) else rl_lookup rl a)"
proof -
  obtain bs where bs: "rl_buckets rl = Some bs" using assms(2) by auto
  have wf: "rlt.wf_table bs" and nb: "rl_num_buckets rl = 4099" using assms(1) bs by (auto simp: rl_ok_def)
  let ?bs = "rlt.replace bs (key_addr key) (\<lambda>_. e)"
  have st: "rl_store rl key e = rl\<lparr>rl_buckets := Some ?bs\<rparr>"
    by (simp add: rl_store_def bs Let_def rlt.replace_def rl_bucket_idx [OF nb] keys_equal_def)
  have k: "key_addr (rle_key x) = key_addr key \<Longrightarrow> key_addr (rle_key e) = key_addr key" for x :: RateLimitEntry
    using assms(4) .
  have "entry_ok rnd rl x" if x: "x \<in> set (table_entries ?bs)" for x
  proof -
    have "\<exists>e0 \<in> set (table_entries bs). x = (if key_addr (rle_key e0) = key_addr key then e else e0)"
      by (rule rlt.entries_replace [OF wf _ x]) (rule assms(4))
    then show ?thesis using assms(1,3) bs by (auto simp: rl_ok_def split: if_splits)
  qed
  then show "rl_ok rnd (rl_store rl key e)"
    using assms(1) bs rlt.wf_table_replace [OF wf k] rlt.length_replace [of bs "key_addr key" "\<lambda>_. e"]
    by (simp add: rl_ok_def st entry_ok_def)
  show "rl_lookup (rl_store rl key e) a =
      (if a = key_addr key then map_option (\<lambda>_. e) (rl_lookup rl a) else rl_lookup rl a)"
    using rlt.lookup_replace [OF wf k] by (simp add: rl_lookup_def st bs)
qed

lemma rl_store_frame [simp]:
  "rl_rate (rl_store rl key e) = rl_rate rl" "rl_burst (rl_store rl key e) = rl_burst rl"
  "rl_enabled (rl_store rl key e) = rl_enabled rl" "rl_num_entries (rl_store rl key e) = rl_num_entries rl"
  "rl_buckets (rl_store rl key e) \<noteq> None"
  by (simp_all add: rl_store_def Let_def)

lemma rl_cleanup_frame [simp]:
  "rl_rate (rate_limiter_cleanup w rl) = rl_rate rl" "rl_burst (rate_limiter_cleanup w rl) = rl_burst rl"
  "rl_enabled (rate_limiter_cleanup w rl) = rl_enabled rl"
  "rl_num_buckets (rate_limiter_cleanup w rl) = rl_num_buckets rl"
  "rl_buckets (rate_limiter_cleanup w rl) = None \<longleftrightarrow> rl_buckets rl = None"
  by (simp_all add: rate_limiter_cleanup_def Let_def split: option.splits)

lemma rl_cleanup_lookup_None:
  assumes "rl_ok rnd rl" "rl_lookup rl a = None"
  shows "rl_lookup (rate_limiter_cleanup w rl) a = None"
proof (cases "rl_buckets rl")
  case (Some bs)
  let ?P = "\<lambda>e. \<not> rle_last_request e < w - RATE_LIMITER_ENTRY_TTL"
  have wf: "rlt.wf_table bs" using assms(1) Some by (simp add: rl_ok_def)
  show ?thesis
    using assms(2) Some rlt.lookup_None_iff [OF wf] rlt.lookup_None_iff [OF rlt.wf_table_filter [OF wf, of ?P]]
    by (simp add: rl_lookup_def rate_limiter_cleanup_def Let_def rlt.entries_filter)
qed (simp add: rl_lookup_def rate_limiter_cleanup_def)

text \<open>\<open>get_entry\<close>: an existing entry is returned, a new one starts with a full bucket.\<close>

lemma get_entry_ok:
  assumes "rl_ok rnd rl" "rl_buckets rl \<noteq> None" "get_entry w mok rl key now = (rl1, r)"
  shows "rl_ok rnd rl1" and "rl_buckets rl1 \<noteq> None"
    and "rl_rate rl1 = rl_rate rl \<and> rl_burst rl1 = rl_burst rl \<and> rl_enabled rl1 = rl_enabled rl"
    and "r = Some e \<Longrightarrow> rl_lookup rl1 (key_addr key) = Some e"
    and "r = Some e \<Longrightarrow> rl_lookup rl (key_addr key) = Some e \<or>
           rl_lookup rl (key_addr key) = None \<and> rle_tokens e = rl_burst rl \<and> rle_last_update e = now"
    and "rl_num_entries rl < RATE_LIMITER_MAX_ENTRIES \<Longrightarrow> a \<noteq> key_addr key \<Longrightarrow> rl_lookup rl1 a = rl_lookup rl a"
    and "rl_num_entries rl < RATE_LIMITER_MAX_ENTRIES \<Longrightarrow> rl_num_entries rl1 \<le> rl_num_entries rl + 1"
    and "rl_num_entries rl < RATE_LIMITER_MAX_ENTRIES \<Longrightarrow> r = None \<Longrightarrow> \<not> mok \<and> rl1 = rl"
proof -
  let ?k = "key_addr key"
  obtain bs where bs: "rl_buckets rl = Some bs" using assms(2) by auto
  note fl = rl_find_lookup [OF assms(1) bs, of key]
  have "rl_ok rnd rl1 \<and> rl_buckets rl1 \<noteq> None
    \<and> (rl_rate rl1 = rl_rate rl \<and> rl_burst rl1 = rl_burst rl \<and> rl_enabled rl1 = rl_enabled rl)
    \<and> (r = Some e \<longrightarrow> rl_lookup rl1 ?k = Some e \<and> (rl_lookup rl ?k = Some e \<or>
           rl_lookup rl ?k = None \<and> rle_tokens e = rl_burst rl \<and> rle_last_update e = now))
    \<and> (rl_num_entries rl < RATE_LIMITER_MAX_ENTRIES \<longrightarrow>
         (a \<noteq> ?k \<longrightarrow> rl_lookup rl1 a = rl_lookup rl a) \<and> rl_num_entries rl1 \<le> rl_num_entries rl + 1
         \<and> (r = None \<longrightarrow> \<not> mok \<and> rl1 = rl))"
  proof (cases "rl_lookup rl ?k")
    case (Some e0)
    then have "rl1 = rl" "r = Some e0" using assms(3) by (auto simp: get_entry_def fl bs)
    then show ?thesis using assms(1) Some bs by simp
  next
    case None
    define rl0 where "rl0 = (if RATE_LIMITER_MAX_ENTRIES \<le> rl_num_entries rl then rate_limiter_cleanup w rl else rl)"
    have ok0: "rl_ok rnd rl0" using assms(1) rl_cleanup_ok by (simp add: rl0_def)
    have n0: "rl_lookup rl0 ?k = None" using None rl_cleanup_lookup_None [OF assms(1)] by (simp add: rl0_def)
    obtain bs0 where bs0: "rl_buckets rl0 = Some bs0" using bs by (cases "rl_buckets rl0") (auto simp: rl0_def split: if_splits)
    have fr: "rl_rate rl0 = rl_rate rl" "rl_burst rl0 = rl_burst rl" "rl_enabled rl0 = rl_enabled rl"
      by (simp_all add: rl0_def)
    have wf: "rlt.wf_table bs0" and nb: "rl_num_buckets rl0 = 4099" using ok0 bs0 by (auto simp: rl_ok_def)
    have bk: "rl_bucket rl key = rl_bucket rl0 key" by (simp add: rl_bucket_def rl0_def)
    show ?thesis
    proof (cases "RATE_LIMITER_MAX_ENTRIES \<le> rl_num_entries rl0 \<or> \<not> mok")
      case True
      then have "rl1 = rl0" "r = None"
        using assms(3) None by (auto simp: get_entry_def fl bs Let_def rl0_def split: if_splits)
      then show ?thesis using ok0 bs0 fr True by (auto simp: rl0_def split: if_splits)
    next
      case False
      define new where "new = \<lparr>rle_key = key, rle_tokens = rl_burst rl0, rle_last_update = now,
          rle_last_request = trunc_time now\<rparr>"
      have ins: "bs0[rl_bucket rl key := new # bs0 ! rl_bucket rl key] = rlt.insert_head bs0 new"
        by (simp add: bk rlt.insert_head_def rl_bucket_idx [OF nb] new_def)
      have r1: "rl1 = rl0\<lparr>rl_buckets := Some (rlt.insert_head bs0 new), rl_num_entries := rl_num_entries rl0 + 1\<rparr>"
        and r: "r = Some new"
        using assms(3) None False
        by (auto simp: get_entry_def fl bs Let_def rl0_def [symmetric] new_def [symmetric] bs0 ins)
      have lk: "rl_lookup rl1 x = (if x = ?k then Some new else rl_lookup rl0 x)" for x
        using rlt.lookup_insert [OF wf, of new x] by (simp add: rl_lookup_def r1 bs0 new_def)
      have "rlt.wf_table (rlt.insert_head bs0 new)"
        by (rule rlt.wf_table_insert [OF wf]) (use n0 in \<open>simp add: rl_lookup_def bs0 new_def\<close>)
      moreover have "entry_ok rnd rl0 new" using ok0 bs0 by (simp add: entry_ok_def new_def rl_ok_def)
      ultimately have "rl_ok rnd rl1"
        using ok0 bs0 False rlt.entries_insert [OF wf, of new] by (auto simp: rl_ok_def r1 entry_ok_def)
      then show ?thesis using lk r fr None r1 by (auto simp: new_def rl0_def)
    qed
  qed
  then show "rl_ok rnd rl1" "rl_buckets rl1 \<noteq> None"
    "rl_rate rl1 = rl_rate rl \<and> rl_burst rl1 = rl_burst rl \<and> rl_enabled rl1 = rl_enabled rl"
    "r = Some e \<Longrightarrow> rl_lookup rl1 ?k = Some e"
    "r = Some e \<Longrightarrow> rl_lookup rl ?k = Some e \<or>
       rl_lookup rl ?k = None \<and> rle_tokens e = rl_burst rl \<and> rle_last_update e = now"
    "rl_num_entries rl < RATE_LIMITER_MAX_ENTRIES \<Longrightarrow> a \<noteq> ?k \<Longrightarrow> rl_lookup rl1 a = rl_lookup rl a"
    "rl_num_entries rl < RATE_LIMITER_MAX_ENTRIES \<Longrightarrow> rl_num_entries rl1 \<le> rl_num_entries rl + 1"
    "rl_num_entries rl < RATE_LIMITER_MAX_ENTRIES \<Longrightarrow> r = None \<Longrightarrow> \<not> mok \<and> rl1 = rl"
    by simp_all
qed

lemma replenish_ok:
  assumes "fp_rounding rnd" "entry_ok rnd rl e" "0 < rl_rate rl" "0 < rl_burst rl" "rnd (rl_burst rl) = rl_burst rl"
  shows "entry_ok rnd rl (replenish_tokens rnd rl e now)"
    and "rle_key (replenish_tokens rnd rl e now) = rle_key e"
proof -
  show "rle_key (replenish_tokens rnd rl e now) = rle_key e" by (simp add: replenish_tokens_def Let_def)
  have m: "x \<le> y \<Longrightarrow> rnd x \<le> rnd y" for x y using assms(1) by (auto simp: fp_rounding_def mono_def)
  have z: "0 \<le> x \<Longrightarrow> 0 \<le> rnd x" for x using m [of 0 x] assms(1) by (simp add: fp_rounding_def)
  have idem: "rnd (rnd x) = rnd x" for x using assms(1) by (simp add: fp_rounding_def)
  show "entry_ok rnd rl (replenish_tokens rnd rl e now)"
    using assms(2-5) z idem by (auto simp: entry_ok_def replenish_tokens_def Let_def)
qed

lemma entry_ok_last_request [simp]: "entry_ok rnd rl (e\<lparr>rle_last_request := t\<rparr>) = entry_ok rnd rl e"
  by (simp add: entry_ok_def)

lemma take_token_ok:
  assumes "fp_rounding rnd" "entry_ok rnd rl e" "1 \<le> rle_tokens e"
  shows "entry_ok rnd rl (e\<lparr>rle_tokens := rnd (rle_tokens e - 1)\<rparr>)"
proof -
  have m: "x \<le> y \<Longrightarrow> rnd x \<le> rnd y" for x y using assms(1) by (auto simp: fp_rounding_def mono_def)
  have "0 \<le> rnd (rle_tokens e - 1)"
    using m [of 0 "rle_tokens e - 1"] assms(1,3) by (simp add: fp_rounding_def)
  moreover have "rnd (rle_tokens e - 1) \<le> rl_burst rl"
    using m [of "rle_tokens e - 1" "rle_tokens e"] assms(2) by (simp add: entry_ok_def)
  ultimately show ?thesis using assms(1) by (simp add: entry_ok_def fp_rounding_def)
qed

lemma rl_okD:
  assumes "rl_ok rnd rl" "rl_buckets rl \<noteq> None"
  shows "0 < rl_rate rl" "0 < rl_burst rl" "rnd (rl_burst rl) = rl_burst rl"
  using assms by (auto simp: rl_ok_def)

lemma entry_ok_cong: "rl_burst rl' = rl_burst rl \<Longrightarrow> entry_ok rnd rl' e = entry_ok rnd rl e"
  by (simp add: entry_ok_def)

text \<open>The outcome of a call on a tracked address, in terms of the entry's state.\<close>

lemma allow_cases:
  assumes "rl_ok rnd rl" "rl_buckets rl \<noteq> None" "parse_ip ip = Some key"
    and "rate_limiter_allow rnd mc w mok rl ip = (res, rl')"
  obtains (untracked) rl1 where "get_entry w mok rl key (get_time_precise rnd mc) = (rl1, None)" "\<not> res" "rl' = rl1"
  | (tracked) rl1 e0 e2 where "get_entry w mok rl key (get_time_precise rnd mc) = (rl1, Some e0)"
      "e2 = replenish_tokens rnd rl1 (e0\<lparr>rle_last_request := trunc_time (get_time_precise rnd mc)\<rparr>) (get_time_precise rnd mc)"
      "res \<longleftrightarrow> 1 \<le> rle_tokens e2"
      "rl' = rl_store rl1 key (if res then e2\<lparr>rle_tokens := rnd (rle_tokens e2 - 1)\<rparr> else e2)"
proof -
  have "rl_enabled rl" using assms(1,2) by (auto simp: rl_ok_def)
  then show thesis
    using assms(2,3,4) that
    by (auto simp: rate_limiter_allow_def Let_def split: prod.splits option.splits if_splits)
qed

lemma rl_allow_ok:
  assumes "fp_rounding rnd" "rl_ok rnd rl" "rate_limiter_allow rnd mc w mok rl ip = (res, rl')"
  shows "rl_ok rnd rl'"
proof (cases "rl_buckets rl = None \<or> parse_ip ip = None")
  case True
  then show ?thesis using assms by (auto simp: rate_limiter_allow_def split: if_splits)
next
  case False
  then obtain key where nb: "rl_buckets rl \<noteq> None" and key: "parse_ip ip = Some key" by auto
  show ?thesis
  proof (rule allow_cases [OF assms(2) nb key assms(3)], goal_cases)
    case (1 rl1)
    then show ?case using get_entry_ok(1) [OF assms(2) nb] by blast
  next
    case (2 rl1 e0 e2)
    note g = get_entry_ok [OF assms(2) nb 2(1)]
    have e0: "entry_ok rnd rl1 e0" "key_addr (rle_key e0) = key_addr key"
      using rl_lookup_ok [OF g(1) g(4) [OF refl]] by auto
    note D = rl_okD [OF g(1,2)]
    have e2: "entry_ok rnd rl1 e2" "key_addr (rle_key e2) = key_addr key"
      using replenish_ok [OF assms(1) _ D, of "e0\<lparr>rle_last_request := trunc_time (get_time_precise rnd mc)\<rparr>"] e0
      by (auto simp: 2(2))
    show ?case
      unfolding 2(4)
      by (rule rl_store_ok(1) [OF g(1,2)]) (use e2 take_token_ok [OF assms(1) e2(1)] 2(3) in \<open>auto split: if_splits\<close>)
  qed
qed

subsection \<open>The token bucket\<close>

text \<open>
  The tokens an address could spend at time \<open>t\<close>: what its entry holds plus what has accrued
  since, up to the burst; a full bucket when it has no entry.
\<close>

definition budget :: "RateLimiter \<Rightarrow> addr \<Rightarrow> rat \<Rightarrow> rat" where
  "budget rl a t = (case rl_lookup rl a of None \<Rightarrow> rl_burst rl
     | Some e \<Rightarrow> min (rl_burst rl) (rle_tokens e + rl_rate rl * max 0 (t - rle_last_update e)))"

type_synonym request = "(int \<times> int) \<times> int \<times> bool \<times> string"

definition req_time :: "request \<Rightarrow> rat" where
  "req_time r = get_time_precise id (fst r)"

fun allowed_count :: "addr \<Rightarrow> RateLimiter \<Rightarrow> request list \<Rightarrow> nat" where
  "allowed_count a rl [] = 0"
| "allowed_count a rl ((mc, w, mok, ip) # rs) =
    (case rate_limiter_allow id mc w mok rl ip of (res, rl') \<Rightarrow>
       (if res \<and> map_option key_addr (parse_ip ip) = Some a then 1 else 0) + allowed_count a rl' rs)"

lemma fp_rounding_id: "fp_rounding id"
  by (simp add: fp_rounding_def mono_def)

lemma budget_le_burst: "budget rl a t \<le> rl_burst rl"
  by (simp add: budget_def split: option.splits)

lemma budget_nonneg: "rl_ok rnd rl \<Longrightarrow> rl_buckets rl \<noteq> None \<Longrightarrow> 0 \<le> budget rl a t"
  using rl_okD [of rnd rl] rl_lookup_ok [of rnd rl a]
  by (auto simp: budget_def entry_ok_def split: option.splits)

lemma budget_later:
  assumes "0 < rl_rate rl" "t \<le> t'"
  shows "budget rl a t' \<le> budget rl a t + rl_rate rl * (t' - t)"
proof -
  have "rl_rate rl * max 0 (t' - lu) \<le> rl_rate rl * max 0 (t - lu) + rl_rate rl * (t' - t)" for lu
  proof -
    have "max 0 (t' - lu) \<le> max 0 (t - lu) + (t' - t)" using assms(2) by (simp add: max_def)
    then show ?thesis using assms(1) by (metis distrib_left mult_left_mono less_imp_le)
  qed
  note acc = this
  have nn: "0 \<le> rl_rate rl * (t' - t)" using assms by simp
  show ?thesis
  proof (cases "rl_lookup rl a")
    case None
    then show ?thesis using nn by (simp add: budget_def)
  next
    case (Some e)
    then show ?thesis using nn acc [of "rle_last_update e"] by (simp add: budget_def min_def)
  qed
qed

lemma replenish_budget:
  assumes "entry_ok id rl e" "0 < rl_rate rl"
  shows "rle_tokens (replenish_tokens id rl e now)
       = min (rl_burst rl) (rle_tokens e + rl_rate rl * max 0 (now - rle_last_update e))"
    and "now \<le> rle_last_update (replenish_tokens id rl e now)"
proof -
  show "rle_tokens (replenish_tokens id rl e now)
       = min (rl_burst rl) (rle_tokens e + rl_rate rl * max 0 (now - rle_last_update e))"
    using assms by (auto simp: replenish_tokens_def Let_def entry_ok_def min_def mult.commute)
  show "now \<le> rle_last_update (replenish_tokens id rl e now)"
    by (simp add: replenish_tokens_def Let_def)
qed

text \<open>An allowed request is paid for out of the budget of its address, and of no other.\<close>

lemma allow_budget:
  assumes "rl_ok id rl" "rl_buckets rl \<noteq> None" "rl_num_entries rl < RATE_LIMITER_MAX_ENTRIES"
    and "rate_limiter_allow id mc w mok rl ip = (res, rl')"
  shows "budget rl' a (get_time_precise id mc) + (if res \<and> map_option key_addr (parse_ip ip) = Some a then 1 else 0)
       \<le> budget rl a (get_time_precise id mc)"
    and "rl_buckets rl' \<noteq> None \<and> rl_rate rl' = rl_rate rl \<and> rl_burst rl' = rl_burst rl
       \<and> rl_num_entries rl' \<le> rl_num_entries rl + 1"
proof -
  let ?now = "get_time_precise id mc"
  have "budget rl' a ?now + (if res \<and> map_option key_addr (parse_ip ip) = Some a then 1 else 0) \<le> budget rl a ?now
    \<and> (rl_buckets rl' \<noteq> None \<and> rl_rate rl' = rl_rate rl \<and> rl_burst rl' = rl_burst rl
       \<and> rl_num_entries rl' \<le> rl_num_entries rl + 1)"
  proof (cases "parse_ip ip")
    case None
    then have "rl' = rl" using assms(4) by (auto simp: rate_limiter_allow_def split: if_splits)
    then show ?thesis using assms(2) None by simp
  next
    case (Some key)
    show ?thesis
    proof (rule allow_cases [OF assms(1,2) Some assms(4)], goal_cases)
      case (1 rl1)
      then show ?case using get_entry_ok(8) [OF assms(1,2) 1(1) assms(3)] assms(2) by simp
    next
      case (2 rl1 e0 e2)
      note g = get_entry_ok [OF assms(1,2) 2(1)]
      note D = rl_okD [OF g(1,2)]
      have e0: "entry_ok id rl1 e0" "key_addr (rle_key e0) = key_addr key"
        using rl_lookup_ok [OF g(1) g(4) [OF refl]] by auto
      let ?e1 = "e0\<lparr>rle_last_request := trunc_time ?now\<rparr>"
      have e1: "entry_ok id rl1 ?e1" using e0(1) by simp
      have e2: "entry_ok id rl1 e2" "key_addr (rle_key e2) = key_addr key"
        using replenish_ok [where rnd = id and rl = rl1 and e = ?e1 and now = ?now] fp_rounding_id e1 D e0
        by (auto simp: 2(2))
      have rb: "rle_tokens e2 = min (rl_burst rl1) (rle_tokens e0 + rl_rate rl1 * max 0 (?now - rle_last_update e0))"
          "?now \<le> rle_last_update e2"
        using replenish_budget [OF e1 D(1)] by (simp_all add: 2(2))
      let ?e = "if res then e2\<lparr>rle_tokens := id (rle_tokens e2 - 1)\<rparr> else e2"
      have e: "entry_ok id rl1 ?e" "key_addr (rle_key ?e) = key_addr key"
        using e2 take_token_ok [OF fp_rounding_id e2(1)] 2(3) by auto
      note st = rl_store_ok(2) [OF g(1,2) e, of a]
      have fr: "rl_burst rl' = rl_burst rl" "rl_rate rl' = rl_rate rl" "rl_num_entries rl' \<le> rl_num_entries rl + 1"
          "rl_buckets rl' \<noteq> None"
        using g(3) g(7) [OF assms(3)] by (simp_all add: 2(4))
      have "budget rl' a ?now + (if res \<and> key_addr key = a then 1 else 0) \<le> budget rl a ?now"
      proof (cases "a = key_addr key")
        case True
        have b': "budget rl' a ?now \<le> rle_tokens e2 - (if res then 1 else 0)"
          using st True g(4) [OF refl] rb(2) by (simp add: budget_def fr 2(4) split: if_splits)
        have "rle_tokens e2 = budget rl a ?now"
          using g(3) g(5) [OF refl] True rb(1) D by (auto simp: budget_def)
        then show ?thesis using b' True by (auto split: if_splits)
      next
        case False
        then have "rl_lookup rl' a = rl_lookup rl a"
          using st g(6) [OF assms(3)] by (simp add: 2(4))
        then show ?thesis using False by (simp add: budget_def fr split: option.split)
      qed
      then show ?case using fr Some by auto
    qed
  qed
  then show "budget rl' a ?now + (if res \<and> map_option key_addr (parse_ip ip) = Some a then 1 else 0) \<le> budget rl a ?now"
    "rl_buckets rl' \<noteq> None \<and> rl_rate rl' = rl_rate rl \<and> rl_burst rl' = rl_burst rl
       \<and> rl_num_entries rl' \<le> rl_num_entries rl + 1" by auto
qed

lemma allowed_count_budget:
  assumes "rl_ok id rl" "rl_buckets rl \<noteq> None" "sorted (t0 # map req_time reqs @ [t1])"
    and "rl_num_entries rl + int (length reqs) \<le> RATE_LIMITER_MAX_ENTRIES"
  shows "of_nat (allowed_count a rl reqs) \<le> budget rl a t0 + rl_rate rl * (t1 - t0)"
  using assms
proof (induction reqs arbitrary: rl t0)
  case Nil
  then show ?case using budget_nonneg [OF Nil.prems(1,2)] rl_okD(1) [OF Nil.prems(1,2)] by simp
next
  case (Cons r reqs)
  obtain mc w mok ip where r: "r = (mc, w, mok, ip)" by (metis prod.collapse)
  obtain res rl' where al: "rate_limiter_allow id mc w mok rl ip = (res, rl')" by force
  let ?t = "get_time_precise id mc"
  have t: "t0 \<le> ?t" "sorted (?t # map req_time reqs @ [t1])"
  proof -
    have "req_time r = ?t" by (simp add: req_time_def r)
    then show "t0 \<le> ?t" "sorted (?t # map req_time reqs @ [t1])" using Cons.prems(3) by simp_all
  qed
  have room: "rl_num_entries rl < RATE_LIMITER_MAX_ENTRIES" using Cons.prems(4) by simp
  note b = allow_budget [OF Cons.prems(1,2) room al]
  have ok': "rl_ok id rl'" by (rule rl_allow_ok [OF fp_rounding_id Cons.prems(1) al])
  have "of_nat (allowed_count a rl' reqs) \<le> budget rl' a ?t + rl_rate rl' * (t1 - ?t)"
    by (rule Cons.IH [OF ok' _ t(2)]) (use b(2) Cons.prems(4) in auto)
  moreover have "budget rl a ?t \<le> budget rl a t0 + rl_rate rl * (?t - t0)"
    by (rule budget_later [OF rl_okD(1) [OF Cons.prems(1,2)] t(1)])
  moreover define c :: rat where "c = (if res \<and> map_option key_addr (parse_ip ip) = Some a then 1 else 0)"
  have "of_nat (allowed_count a rl (r # reqs)) = c + of_nat (allowed_count a rl' reqs)"
    by (simp add: r al c_def)
  moreover have "budget rl' a ?t + c \<le> budget rl a ?t" using b(1) [of a] by (simp only: c_def)
  moreover have "rl_rate rl * (?t - t0) + rl_rate rl' * (t1 - ?t) = rl_rate rl * (t1 - t0)"
    using b(2) by (simp add: algebra_simps)
  ultimately show ?case by linarith
qed

text \<open>
  The token bucket bounds every client in every time window: from any well-formed state of
  an enabled limiter, over any sequence of requests of any clients at non-decreasing times in
  \<open>[t0, t1]\<close> that does not fill the table, the number of requests allowed to one address is at
  most the burst plus the rate times the length of the window.
\<close>

lemma rate_limiter_window_bound:
  assumes "rl_ok id rl" "rl_enabled rl" "sorted (t0 # map req_time reqs @ [t1])"
    and "rl_num_entries rl + int (length reqs) \<le> RATE_LIMITER_MAX_ENTRIES"
  shows "of_nat (allowed_count a rl reqs) \<le> rl_burst rl + rl_rate rl * (t1 - t0)"
proof -
  have nb: "rl_buckets rl \<noteq> None" using assms(1,2) by (auto simp: rl_ok_def split: option.splits)
  show ?thesis
    using allowed_count_budget [OF assms(1) nb assms(3,4), of a] budget_le_burst [of rl a t0] by linarith
qed

lemma rate_limiter_window_bound_witness:
  "of_nat (allowed_count (replicate 10 0 @ [255, 255, 1, 2, 3, 4]) (snd (rate_limiter_init True 2 5))
      (replicate 9 ((7, 0), 0, True, ''1.2.3.4''))) \<le> (5 :: rat)"
proof -
  let ?rl = "snd (rate_limiter_init True 2 5)"
  have "rl_ok id ?rl" by (rule rl_init_ok) simp
  moreover have "rl_enabled ?rl" "rl_num_entries ?rl = 0" "rl_burst ?rl = 5"
    by (simp_all add: rate_limiter_init_def)
  moreover have "sorted (7 # map req_time (replicate 9 ((7, 0), 0, True, ''1.2.3.4'')) @ [7])"
    by (simp add: req_time_def get_time_precise_def numeral_eq_Suc)
  ultimately show ?thesis
    using rate_limiter_window_bound [of ?rl 7 "replicate 9 ((7, 0), 0, True, ''1.2.3.4'')" 7
        "replicate 10 0 @ [255, 255, 1, 2, 3, 4]"]
    by (simp add: RATE_LIMITER_MAX_ENTRIES_def)
qed

text \<open>
  C15. Whatever the rounding of the machine's floating point, every operation keeps the limiter
  well-formed: each tracked address has one entry, in its own hash bucket, the entry count is
  exact and never above 10000, and every bucket holds between 0 and the burst tokens.
\<close>

theorem rate_limiter_invariant:
  assumes "fp_rounding rnd" and "rl_ok rnd rl"
  shows "rl_ok rnd (snd (rate_limiter_allow rnd mc w mok rl ip)) \<and> rl_ok rnd (rate_limiter_cleanup w rl)"
  using rl_allow_ok [OF assms] rl_cleanup_ok [OF assms(2)] by (metis prod.collapse)

theorem rate_limiter_invariant_witness:
  "rl_ok id (snd (rate_limiter_allow id (1, 5) 100 True (snd (rate_limiter_init True 2 5)) ''::1''))"
  using rate_limiter_invariant [OF fp_rounding_id rl_init_ok] by simp



end
