(* ===== verification/IpAcl.thy ===== *)
theory IpAcl
  imports Inet Buckets
begin

text \<open>
  \<^verbatim>\<open>src/src/ip_acl.c\<close>: the block list and the allow list. Exact addresses are in a chained hash
  table, CIDR ranges in a list scanned in order. A NULL \<open>exact_buckets\<close> is \<open>None\<close>; the result
  of each \<open>malloc\<close> is an argument; the file system is a function from paths to contents.
\<close>

record ACLEntry =
  acl_addr :: addr
  acl_prefix_len :: byte

record IpACL =
  exact_buckets :: "ACLEntry list list option"
  num_exact_buckets :: int
  num_exact_entries :: int
  cidr_entries :: "ACLEntry list"
  num_cidr_entries :: int
  source_file :: string

record IpACLContext =
  blocklist :: IpACL
  allowlist :: IpACL

datatype IpACLResult = IP_ACL_ALLOW | IP_ACL_BLOCK | IP_ACL_NEUTRAL

definition IP_ACL_HASH_SIZE :: nat where "IP_ACL_HASH_SIZE = 1024"
definition INET6_ADDRSTRLEN :: nat where "INET6_ADDRSTRLEN = 46"

definition parse_ip_to_addr :: "string \<Rightarrow> addr option" where
  "parse_ip_to_addr ip_str = (case inet_pton4 ip_str of
     Some addr4 \<Rightarrow> Some (replicate 10 0 @ [0xff, 0xff] @ addr4)
   | None \<Rightarrow> (case inet_pton6 ip_str of Some addr6 \<Rightarrow> Some addr6 | None \<Rightarrow> None))"

definition parse_cidr :: "string \<Rightarrow> (addr \<times> byte) option" where
  "parse_cidr cidr_str = (case strchr cidr_str (CHR ''/'') of
     None \<Rightarrow> None
   | Some ip_len \<Rightarrow>
      if INET6_ADDRSTRLEN \<le> ip_len then None
      else let ip_part = take ip_len cidr_str; prefix = atoi (drop (ip_len + 1) cidr_str) in
        case inet_pton4 ip_part of
          Some addr4 \<Rightarrow>
            if prefix < 0 \<or> 32 < prefix then None
            else Some (replicate 10 0 @ [0xff, 0xff] @ addr4, of_int (96 + prefix))
        | None \<Rightarrow> (case inet_pton6 ip_part of
            Some addr6 \<Rightarrow>
              if prefix < 0 \<or> 128 < prefix then None else Some (addr6, of_int prefix)
          | None \<Rightarrow> None))"

definition hash_addr :: "addr \<Rightarrow> u32" where
  "hash_addr addr = foldl (\<lambda>hash b. (hash XOR ucast b) * 16777619) 2166136261 addr"

definition cidr_match :: "addr \<Rightarrow> addr \<Rightarrow> byte \<Rightarrow> bool" where
  "cidr_match addr network prefix_len =
    (let full_bytes = unat prefix_len div 8; remaining_bits = unat prefix_len mod 8 in
     if 0 < full_bytes \<and> take full_bytes addr \<noteq> take full_bytes network then False
     else if 0 < remaining_bits \<and> full_bytes < 16 then
       (let mask = push_bit (8 - remaining_bits) (0xff :: byte) in
        (addr ! full_bytes) AND mask = (network ! full_bytes) AND mask)
     else True)"

definition ip_acl_init :: "bool \<Rightarrow> bool \<times> IpACL" where
  "ip_acl_init calloc_ok =
    (let acl = \<lparr>exact_buckets = None, num_exact_buckets = 0, num_exact_entries = 0,
                cidr_entries = [], num_cidr_entries = 0, source_file = []\<rparr> in
     if \<not> calloc_ok then (False, acl)
     else (True, acl\<lparr>exact_buckets := Some (replicate IP_ACL_HASH_SIZE []),
                     num_exact_buckets := int IP_ACL_HASH_SIZE\<rparr>))"

definition ip_acl_free :: "IpACL \<Rightarrow> IpACL" where
  "ip_acl_free acl = acl\<lparr>exact_buckets := None, cidr_entries := [],
     num_exact_entries := 0, num_cidr_entries := 0\<rparr>"

text \<open>The bucket of an address: \<open>hash % num_exact_buckets\<close>, computed in \<open>uint32_t\<close>.\<close>

definition acl_bucket :: "IpACL \<Rightarrow> addr \<Rightarrow> nat" where
  "acl_bucket acl addr = unat (hash_addr addr mod of_int (num_exact_buckets acl))"

definition add_exact_entry :: "IpACL \<Rightarrow> addr \<Rightarrow> bool \<Rightarrow> bool \<times> IpACL" where
  "add_exact_entry acl addr malloc_ok =
    (let bucket = acl_bucket acl addr; bs = the (exact_buckets acl) in
     case find (\<lambda>entry. acl_addr entry = addr) (bs ! bucket) of
       Some entry \<Rightarrow> (True, acl)
     | None \<Rightarrow>
        if \<not> malloc_ok then (False, acl)
        else let entry = \<lparr>acl_addr = addr, acl_prefix_len = 128\<rparr> in
          (True, acl\<lparr>exact_buckets := Some (bs[bucket := entry # bs ! bucket]),
                     num_exact_entries := num_exact_entries acl + 1\<rparr>))"

definition add_cidr_entry :: "IpACL \<Rightarrow> addr \<Rightarrow> byte \<Rightarrow> bool \<Rightarrow> bool \<times> IpACL" where
  "add_cidr_entry acl addr prefix_len malloc_ok =
    (case find (\<lambda>entry. acl_addr entry = addr \<and> acl_prefix_len entry = prefix_len) (cidr_entries acl) of
       Some entry \<Rightarrow> (True, acl)
     | None \<Rightarrow>
        if \<not> malloc_ok then (False, acl)
        else (True, acl\<lparr>cidr_entries := \<lparr>acl_addr = addr, acl_prefix_len = prefix_len\<rparr> # cidr_entries acl,
                        num_cidr_entries := num_cidr_entries acl + 1\<rparr>))"

text \<open>One iteration of the loop over the lines, and whether the line is counted.\<close>

definition acl_load_line :: "bool \<Rightarrow> string \<Rightarrow> IpACL \<Rightarrow> bool \<times> IpACL" where
  "acl_load_line malloc_ok line acl =
    (let trimmed = trim line in
     if trimmed = [] \<or> hd trimmed = CHR ''#'' then (False, acl)
     else if strchr trimmed (CHR ''/'') \<noteq> None then
       (case parse_cidr trimmed of None \<Rightarrow> (False, acl)
        | Some (addr, prefix_len) \<Rightarrow> add_cidr_entry acl addr prefix_len malloc_ok)
     else (case parse_ip_to_addr trimmed of None \<Rightarrow> (False, acl)
        | Some addr \<Rightarrow> add_exact_entry acl addr malloc_ok))"

fun acl_load_lines :: "(nat \<Rightarrow> bool) \<Rightarrow> nat \<Rightarrow> string list \<Rightarrow> IpACL \<Rightarrow> int \<Rightarrow> int \<times> IpACL" where
  "acl_load_lines mok line_num [] acl count = (count, acl)"
| "acl_load_lines mok line_num (line # lines) acl count =
    (case acl_load_line (mok line_num) line acl of (counted, acl') \<Rightarrow>
       acl_load_lines mok (line_num + 1) lines acl' (if counted then count + 1 else count))"

definition ip_acl_load_file ::
    "(string \<Rightarrow> string option) \<Rightarrow> (nat \<Rightarrow> bool) \<Rightarrow> IpACL \<Rightarrow> string \<Rightarrow> int \<times> IpACL" where
  "ip_acl_load_file fs mok acl path =
    (if path = [] then (0, acl)
     else case fs path of
       None \<Rightarrow> (-1, acl)
     | Some contents \<Rightarrow>
        acl_load_lines mok 0 (fgets_lines 512 contents) (acl\<lparr>source_file := strncpy_buf 256 path\<rparr>) 0)"

definition ip_acl_contains :: "IpACL \<Rightarrow> string \<Rightarrow> bool" where
  "ip_acl_contains acl ip_str =
    (case exact_buckets acl of None \<Rightarrow> False
     | Some bs \<Rightarrow>
        (case parse_ip_to_addr ip_str of None \<Rightarrow> False
         | Some addr \<Rightarrow>
            find (\<lambda>entry. acl_addr entry = addr) (bs ! acl_bucket acl addr) \<noteq> None
            \<or> find (\<lambda>entry. cidr_match addr (acl_addr entry) (acl_prefix_len entry)) (cidr_entries acl) \<noteq> None))"

definition ip_acl_context_init :: "bool \<Rightarrow> bool \<Rightarrow> IpACLContext \<Rightarrow> bool \<times> IpACLContext" where
  "ip_acl_context_init ok1 ok2 ctx =
    (case ip_acl_init ok1 of
       (False, b) \<Rightarrow> (False, ctx\<lparr>blocklist := b\<rparr>)
     | (True, b) \<Rightarrow>
        (case ip_acl_init ok2 of
           (False, a) \<Rightarrow> (False, ctx\<lparr>blocklist := ip_acl_free b, allowlist := a\<rparr>)
         | (True, a) \<Rightarrow> (True, ctx\<lparr>blocklist := b, allowlist := a\<rparr>)))"

definition ip_acl_context_free :: "IpACLContext \<Rightarrow> IpACLContext" where
  "ip_acl_context_free ctx =
    ctx\<lparr>blocklist := ip_acl_free (blocklist ctx), allowlist := ip_acl_free (allowlist ctx)\<rparr>"

definition ip_acl_check :: "IpACLContext option \<Rightarrow> string \<Rightarrow> IpACLResult" where
  "ip_acl_check ctx ip_str = (case ctx of
     None \<Rightarrow> IP_ACL_NEUTRAL
   | Some c \<Rightarrow> if ip_acl_contains (blocklist c) ip_str then IP_ACL_BLOCK
              else if ip_acl_contains (allowlist c) ip_str then IP_ACL_ALLOW
              else IP_ACL_NEUTRAL)"

definition ip_acl_stats :: "IpACL option \<Rightarrow> string" where
  "ip_acl_stats acl = snprintf_buf 256 (case acl of None \<Rightarrow> ''disabled''
     | Some a \<Rightarrow> fmt_d (num_exact_entries a) @ '' exact + '' @ fmt_d (num_cidr_entries a) @ '' CIDR entries'')"

subsection \<open>Prefix matching\<close>

text \<open>The bits of an address, most significant first.\<close>

definition byte_bits :: "byte \<Rightarrow> bool list" where
  "byte_bits b = map (bit b) [7, 6, 5, 4, 3, 2, 1, 0]"

definition addr_bits :: "addr \<Rightarrow> bool list" where
  "addr_bits a = concat (map byte_bits a)"

lemma length_byte_bits [simp]: "length (byte_bits b) = 8"
  by (simp add: byte_bits_def)

lemma less_8_cases: "(n :: nat) < 8 \<Longrightarrow> n = 0 \<or> n = 1 \<or> n = 2 \<or> n = 3 \<or> n = 4 \<or> n = 5 \<or> n = 6 \<or> n = 7"
  by linarith

lemma all_less_8: "(\<forall>n < (8 :: nat). P n) \<longleftrightarrow> P 0 \<and> P 1 \<and> P 2 \<and> P 3 \<and> P 4 \<and> P 5 \<and> P 6 \<and> P 7"
  using less_8_cases by auto

lemma byte_eq_iff: "(x :: byte) = y \<longleftrightarrow> (\<forall>n < 8. bit x n = bit y n)"
  by (auto simp: bit_eq_iff)

lemma byte_bits_inject [simp]: "byte_bits x = byte_bits y \<longleftrightarrow> x = y"
proof
  assume "byte_bits x = byte_bits y"
  then have "\<forall>n < 8. bit x n = bit y n" by (auto simp: byte_bits_def dest!: less_8_cases)
  then show "x = y" by (simp only: byte_eq_iff)
qed simp

lemma length_addr_bits: "length (addr_bits a) = 8 * length a"
  by (induction a) (auto simp: addr_bits_def)

lemma addr_bits_inject: "length a = length b \<Longrightarrow> addr_bits a = addr_bits b \<longleftrightarrow> a = b"
  by (induction a b rule: list_induct2) (auto simp: addr_bits_def)

lemma take_addr_bits:
  assumes "q < length a"  "r < 8"
  shows "take (8 * q + r) (addr_bits a) = addr_bits (take q a) @ take r (byte_bits (a ! q))"
proof -
  have "a = take q a @ a ! q # drop (Suc q) a" using assms(1) by (rule id_take_nth_drop)
  then have "addr_bits a = addr_bits (take q a) @ byte_bits (a ! q) @ addr_bits (drop (Suc q) a)"
    by (metis addr_bits_def concat.simps(2) concat_append list.simps(9) map_append)
  moreover have "length (addr_bits (take q a)) = 8 * q" using assms(1) by (simp add: length_addr_bits)
  ultimately show ?thesis using assms(2) by simp
qed

lemma mask_match:
  assumes "0 < r" "r < 8"
  shows "(x :: byte) AND push_bit (8 - r) 0xff = y AND push_bit (8 - r) 0xff
     \<longleftrightarrow> take r (byte_bits x) = take r (byte_bits y)"
proof -
  have ff: "(0xff :: byte) = - 1" by simp
  have "x AND push_bit (8 - r) 0xff = y AND push_bit (8 - r) 0xff
      \<longleftrightarrow> (\<forall>n < 8. 8 - r \<le> n \<longrightarrow> bit x n = bit y n)"
    unfolding byte_eq_iff ff by (auto simp: bit_simps)
  also have "\<dots> \<longleftrightarrow> take r (byte_bits x) = take r (byte_bits y)"
    using less_8_cases [OF assms(2)] assms(1)
    unfolding all_less_8 by (elim disjE) (auto simp: byte_bits_def)
  finally show ?thesis .
qed

lemma cidr_match_bits:
  assumes "length addr = 16" "length network = 16" "unat p \<le> 128"
  shows "cidr_match addr network p \<longleftrightarrow> take (unat p) (addr_bits addr) = take (unat p) (addr_bits network)"
proof -
  define q where "q = unat p div 8"
  define r where "r = unat p mod 8"
  have p: "unat p = 8 * q + r" and r8: "r < 8" by (simp_all add: q_def r_def)
  show ?thesis
  proof (cases "q < 16")
    case True
    have "take (unat p) (addr_bits addr) = take (unat p) (addr_bits network)
      \<longleftrightarrow> take q addr = take q network \<and> take r (byte_bits (addr ! q)) = take r (byte_bits (network ! q))"
      unfolding p using True assms(1,2) r8
      by (simp add: take_addr_bits length_addr_bits addr_bits_inject)
    then show ?thesis
      using True r8 mask_match [of r "addr ! q" "network ! q"]
      by (auto simp: cidr_match_def Let_def q_def [symmetric] r_def [symmetric])
  next
    case False
    then have "q = 16" "r = 0" using assms(3) p by auto
    then have "unat p = 128" using p by simp
    then show ?thesis using assms(1,2)
      by (simp add: cidr_match_def length_addr_bits addr_bits_inject)
  qed
qed

subsection \<open>The table of exact addresses\<close>

lemma hash_bucket_less: "unat ((h :: u32) mod 1024) < 1024"
  by (simp add: unat_mod)

interpretation acl: chained_table acl_addr "\<lambda>a. unat (hash_addr a mod 1024)" IP_ACL_HASH_SIZE
  by unfold_locales (simp add: IP_ACL_HASH_SIZE_def hash_bucket_less)

text \<open>
  A well-formed list: the table has its 1024 buckets with every address in its own bucket and
  once only, the counters count, and every range has a 16-byte address and at most 128 bits.
\<close>

definition acl_ok :: "IpACL \<Rightarrow> bool" where
  "acl_ok acl = (case exact_buckets acl of None \<Rightarrow> False | Some bs \<Rightarrow>
     acl.wf_table bs \<and> num_exact_buckets acl = 1024
     \<and> num_exact_entries acl = int (length (table_entries bs))
     \<and> num_cidr_entries acl = int (length (cidr_entries acl))
     \<and> (\<forall>e \<in> set (cidr_entries acl). length (acl_addr e) = 16 \<and> unat (acl_prefix_len e) \<le> 128))"

lemma acl_okE:
  assumes "acl_ok acl"
  obtains bs where "exact_buckets acl = Some bs" "acl.wf_table bs" "num_exact_buckets acl = 1024"
    "num_exact_entries acl = int (length (table_entries bs))"
    "num_cidr_entries acl = int (length (cidr_entries acl))"
    "\<forall>e \<in> set (cidr_entries acl). length (acl_addr e) = 16 \<and> unat (acl_prefix_len e) \<le> 128"
  using assms unfolding acl_ok_def by (auto split: option.splits)

text \<open>What a list denotes: the exact addresses and the ranges.\<close>

definition acl_exact :: "IpACL \<Rightarrow> addr set" where
  "acl_exact acl = (case exact_buckets acl of None \<Rightarrow> {} | Some bs \<Rightarrow> acl_addr ` set (table_entries bs))"

definition acl_ranges :: "IpACL \<Rightarrow> (addr \<times> byte) set" where
  "acl_ranges acl = (\<lambda>e. (acl_addr e, acl_prefix_len e)) ` set (cidr_entries acl)"

lemma acl_init_ok: "ip_acl_init True = (True, acl) \<Longrightarrow> acl_ok acl \<and> acl_exact acl = {} \<and> acl_ranges acl = {}"
  using acl.wf_table_empty
  by (auto simp: ip_acl_init_def acl_ok_def acl_exact_def acl_ranges_def IP_ACL_HASH_SIZE_def)

lemma parse_ip_length: "parse_ip_to_addr s = Some a \<Longrightarrow> length a = 16"
  by (auto simp: parse_ip_to_addr_def dest: inet_pton4_length inet_pton6_length split: option.splits)

lemma parse_cidr_bounds: "parse_cidr s = Some (a, p) \<Longrightarrow> length a = 16 \<and> unat p \<le> 128"
  by (auto simp: parse_cidr_def Let_def unat_of_int_small dest: inet_pton4_length inet_pton6_length
      simp del: of_int_add split: option.splits if_splits)

lemma add_exact_ok:
  assumes "acl_ok acl" "add_exact_entry acl a mok = (r, acl')"
  shows "acl_ok acl' \<and> acl_ranges acl' = acl_ranges acl
    \<and> acl_exact acl' = (if r then insert a (acl_exact acl) else acl_exact acl) \<and> (mok \<longrightarrow> r)"
proof -
  obtain bs where bs: "exact_buckets acl = Some bs" "acl.wf_table bs" "num_exact_buckets acl = 1024"
    "num_exact_entries acl = int (length (table_entries bs))"
    "num_cidr_entries acl = int (length (cidr_entries acl))"
    "\<forall>e \<in> set (cidr_entries acl). length (acl_addr e) = 16 \<and> unat (acl_prefix_len e) \<le> 128"
    using assms(1) by (rule acl_okE)
  have lk: "find (\<lambda>e. acl_addr e = a) (bs ! acl_bucket acl a) = acl.lookup bs a"
    by (simp add: acl.lookup_def acl_bucket_def bs(3))
  let ?e = "\<lparr>acl_addr = a, acl_prefix_len = 128\<rparr>"
  have up: "bs[acl_bucket acl a := ?e # bs ! acl_bucket acl a] = acl.insert_head bs ?e"
    by (simp add: acl.insert_head_def acl_bucket_def bs(3))
  show ?thesis
  proof (cases "acl.lookup bs a")
    case None
    then show ?thesis
      using assms(2) bs acl.wf_table_insert [OF bs(2), of ?e] acl.entries_insert [OF bs(2), of ?e]
      by (auto simp: add_exact_entry_def Let_def lk up acl_ok_def acl_exact_def acl_ranges_def split: if_splits)
  next
    case (Some e)
    then have "a \<in> acl_exact acl"
      using acl.lookup_Some_iff [OF bs(2)] by (auto simp: acl_exact_def bs(1))
    then show ?thesis using assms Some
      by (auto simp: add_exact_entry_def Let_def lk bs(1))
  qed
qed

lemma add_cidr_ok:
  assumes "acl_ok acl" "add_cidr_entry acl a p mok = (r, acl')" "length a = 16" "unat p \<le> 128"
  shows "acl_ok acl' \<and> acl_exact acl' = acl_exact acl
    \<and> acl_ranges acl' = (if r then insert (a, p) (acl_ranges acl) else acl_ranges acl) \<and> (mok \<longrightarrow> r)"
proof (cases "find (\<lambda>e. acl_addr e = a \<and> acl_prefix_len e = p) (cidr_entries acl)")
  case None
  then show ?thesis using assms
    by (auto simp: add_cidr_entry_def acl_ok_def acl_exact_def acl_ranges_def split: option.splits if_splits)
next
  case (Some e)
  then have "(a, p) \<in> acl_ranges acl"
    by (auto simp: acl_ranges_def find_Some_iff image_iff)
  then show ?thesis using assms Some by (auto simp: add_cidr_entry_def)
qed

text \<open>Membership, for a well-formed list: the address is listed or one of the ranges covers it.\<close>

lemma acl_contains_iff:
  assumes "acl_ok acl"
  shows "ip_acl_contains acl ip \<longleftrightarrow> (\<exists>a. parse_ip_to_addr ip = Some a \<and>
     (a \<in> acl_exact acl \<or>
      (\<exists>(n, p) \<in> acl_ranges acl. take (unat p) (addr_bits a) = take (unat p) (addr_bits n))))"
proof -
  obtain bs where bs: "exact_buckets acl = Some bs" "acl.wf_table bs" "num_exact_buckets acl = 1024"
    "\<forall>e \<in> set (cidr_entries acl). length (acl_addr e) = 16 \<and> unat (acl_prefix_len e) \<le> 128"
    using assms by (rule acl_okE)
  have ex: "find (\<lambda>e. acl_addr e = a) (bs ! acl_bucket acl a) \<noteq> None \<longleftrightarrow> a \<in> acl_exact acl" for a
    using acl.lookup_None_iff [OF bs(2), of a]
    by (auto simp: acl.lookup_def acl_bucket_def bs acl_exact_def)
  have rg: "find (\<lambda>e. cidr_match a (acl_addr e) (acl_prefix_len e)) (cidr_entries acl) \<noteq> None
      \<longleftrightarrow> (\<exists>(n, p) \<in> acl_ranges acl. take (unat p) (addr_bits a) = take (unat p) (addr_bits n))"
    if "length a = 16" for a
    using cidr_match_bits [OF that] bs(4) by (auto simp: find_None_iff acl_ranges_def)
  show ?thesis
    unfolding ip_acl_contains_def bs(1)
    using parse_ip_length ex rg by (auto split: option.splits)
qed

subsection \<open>Loading a file\<close>

text \<open>
  What one line of a file stands for, independently of the tables: a comment or an unreadable
  line covers nothing, a line with a slash covers the addresses that agree on its prefix, any
  other line covers its own address.
\<close>

definition line_covers :: "string \<Rightarrow> addr \<Rightarrow> bool" where
  "line_covers line a = (let s = trim line in
     s \<noteq> [] \<and> hd s \<noteq> CHR ''#'' \<and>
     (if CHR ''/'' \<in> set s then
        (case parse_cidr s of None \<Rightarrow> False
         | Some (n, p) \<Rightarrow> take (unat p) (addr_bits a) = take (unat p) (addr_bits n))
      else parse_ip_to_addr s = Some a))"

definition acl_covers :: "IpACL \<Rightarrow> addr \<Rightarrow> bool" where
  "acl_covers acl a \<longleftrightarrow> a \<in> acl_exact acl \<or>
     (\<exists>(n, p) \<in> acl_ranges acl. take (unat p) (addr_bits a) = take (unat p) (addr_bits n))"

lemma trim_no_NUL: "NUL \<notin> set (trim s)"
proof -
  have "set (trim s) \<subseteq> set (cstr s)"
    unfolding trim_def by (auto dest!: set_dropWhileD)
  then show ?thesis using cstr_no_NUL by blast
qed

lemma strchr_trim: "strchr (trim s) c = None \<longleftrightarrow> c \<notin> set (trim s)"
  by (simp add: strchr_def cstr_id [OF trim_no_NUL] memchr_None_iff)

lemma acl_load_line_covers:
  assumes "acl_ok acl" "acl_load_line mok line acl = (r, acl')"
  shows "acl_ok acl'" and "r \<or> mok \<Longrightarrow> acl_covers acl' a \<longleftrightarrow> acl_covers acl a \<or> line_covers line a"
    and "\<not> r \<Longrightarrow> acl_covers acl' a \<longleftrightarrow> acl_covers acl a"
proof -
  let ?s = "trim line"
  have "acl_ok acl' \<and> (r \<or> mok \<longrightarrow> (acl_covers acl' a \<longleftrightarrow> acl_covers acl a \<or> line_covers line a))
      \<and> (\<not> r \<longrightarrow> (acl_covers acl' a \<longleftrightarrow> acl_covers acl a))"
  proof (cases "?s = [] \<or> hd ?s = CHR ''#''")
    case True
    then show ?thesis using assms by (auto simp: acl_load_line_def line_covers_def Let_def)
  next
    case False
    note nc = this
    show ?thesis
    proof (cases "CHR ''/'' \<in> set ?s")
      case True
      show ?thesis
      proof (cases "parse_cidr ?s")
        case None
        then show ?thesis using assms nc True
          by (auto simp: acl_load_line_def line_covers_def Let_def strchr_trim)
      next
        case (Some np)
        obtain n p where np: "np = (n, p)" by force
        have "add_cidr_entry acl n p mok = (r, acl')"
          using assms(2) nc True Some np by (auto simp: acl_load_line_def Let_def strchr_trim)
        moreover have "length n = 16" "unat p \<le> 128" using Some np parse_cidr_bounds by auto
        ultimately show ?thesis
          using add_cidr_ok [OF assms(1), of n p mok r acl'] nc True Some np
          by (auto simp: acl_covers_def line_covers_def Let_def)
      qed
    next
      case False
      show ?thesis
      proof (cases "parse_ip_to_addr ?s")
        case None
        then show ?thesis using assms nc False
          by (auto simp: acl_load_line_def line_covers_def Let_def strchr_trim)
      next
        case (Some b)
        then have "add_exact_entry acl b mok = (r, acl')"
          using assms(2) nc False by (auto simp: acl_load_line_def Let_def strchr_trim)
        then show ?thesis
          using add_exact_ok [OF assms(1), of b mok r acl'] nc False Some
          by (auto simp: acl_covers_def line_covers_def Let_def)
      qed
    qed
  qed
  then show "acl_ok acl'" "r \<or> mok \<Longrightarrow> acl_covers acl' a \<longleftrightarrow> acl_covers acl a \<or> line_covers line a"
    "\<not> r \<Longrightarrow> acl_covers acl' a \<longleftrightarrow> acl_covers acl a" by auto
qed

lemma acl_load_lines_covers:
  assumes "acl_ok acl" "acl_load_lines mok k lines acl c = (c', acl')"
  shows "acl_ok acl'"
    and "(\<forall>n. mok n) \<Longrightarrow> acl_covers acl' a \<longleftrightarrow> acl_covers acl a \<or> (\<exists>l \<in> set lines. line_covers l a)"
    and "acl_covers acl' a \<Longrightarrow> acl_covers acl a \<or> (\<exists>l \<in> set lines. line_covers l a)"
    and "acl_covers acl a \<Longrightarrow> acl_covers acl' a"
proof -
  have "acl_ok acl' \<and> ((\<forall>n. mok n) \<longrightarrow> (acl_covers acl' a \<longleftrightarrow> acl_covers acl a \<or> (\<exists>l \<in> set lines. line_covers l a)))
      \<and> (acl_covers acl' a \<longrightarrow> acl_covers acl a \<or> (\<exists>l \<in> set lines. line_covers l a))
      \<and> (acl_covers acl a \<longrightarrow> acl_covers acl' a)"
    using assms
  proof (induction mok k lines acl c rule: acl_load_lines.induct)
    case (1 mok line_num acl count)
    then show ?case by simp
  next
    case (2 mok line_num line lines acl count)
    obtain r acl1 where l: "acl_load_line (mok line_num) line acl = (r, acl1)" by force
    note one = acl_load_line_covers [OF "2.prems"(1) l]
    note rest = "2.IH" [OF l [symmetric] one(1)]
    show ?case using rest "2.prems"(2) l one(2,3) [of a] by (cases r) auto
  qed
  then show "acl_ok acl'"
    "(\<forall>n. mok n) \<Longrightarrow> acl_covers acl' a \<longleftrightarrow> acl_covers acl a \<or> (\<exists>l \<in> set lines. line_covers l a)"
    "acl_covers acl' a \<Longrightarrow> acl_covers acl a \<or> (\<exists>l \<in> set lines. line_covers l a)"
    "acl_covers acl a \<Longrightarrow> acl_covers acl' a" by auto
qed

lemma acl_ok_source_file [simp]:
  "acl_ok (acl\<lparr>source_file := f\<rparr>) = acl_ok acl" "acl_covers (acl\<lparr>source_file := f\<rparr>) a = acl_covers acl a"
  by (simp_all add: acl_ok_def acl_covers_def acl_exact_def acl_ranges_def split: option.split)

lemma acl_contains_covers:
  "acl_ok acl \<Longrightarrow> ip_acl_contains acl ip \<longleftrightarrow> (\<exists>a. parse_ip_to_addr ip = Some a \<and> acl_covers acl a)"
  by (simp add: acl_contains_iff acl_covers_def)

lemma acl_load_file_ok:
  assumes "acl_ok acl"
  shows "acl_ok (snd (ip_acl_load_file fs mok acl path))"
proof -
  let ?acl = "acl\<lparr>source_file := strncpy_buf 256 path\<rparr>"
  have "acl_ok (snd (acl_load_lines mok 0 ls ?acl 0))" for ls
    using acl_load_lines_covers(1) [of ?acl mok 0 ls 0] assms by (metis acl_ok_source_file(1) prod.collapse)
  then show ?thesis using assms by (simp add: ip_acl_load_file_def split: option.split)
qed

lemma acl_file_members:
  assumes "path \<noteq> []" and "fs path = Some contents" and "\<forall>n. mok n"
  shows "ip_acl_contains (snd (ip_acl_load_file fs mok (snd (ip_acl_init True)) path)) ip \<longleftrightarrow>
     (\<exists>a. parse_ip_to_addr ip = Some a \<and> (\<exists>l \<in> set (fgets_lines 512 contents). line_covers l a))"
proof -
  let ?acl = "snd (ip_acl_init True)"
  have i: "acl_ok ?acl" "\<And>a. \<not> acl_covers ?acl a"
    using acl_init_ok [of ?acl] by (auto simp: ip_acl_init_def acl_covers_def)
  obtain c acl' where l: "acl_load_lines mok 0 (fgets_lines 512 contents)
      (?acl\<lparr>source_file := strncpy_buf 256 path\<rparr>) 0 = (c, acl')" by force
  have ok: "acl_ok (?acl\<lparr>source_file := strncpy_buf 256 path\<rparr>)" using i(1) by simp
  note cov = acl_load_lines_covers [OF ok l]
  have "snd (ip_acl_load_file fs mok ?acl path) = acl'"
    using assms(1,2) l by (simp add: ip_acl_load_file_def)
  then show ?thesis using cov(2) [OF assms(3)] i(2) by (simp add: acl_contains_covers [OF cov(1)])
qed

text \<open>
  C12. Loading an access-control file into a fresh list makes membership mean exactly what the
  file says: a client address is in the list if and only if it parses and some line of the file,
  read in 511-character pieces as \<open>fgets\<close> does, is that address or a CIDR range whose
  prefix bits agree with it. No line is lost to a hash collision or a duplicate, no other address
  is let in.
\<close>

theorem ip_acl_file_membership:
  assumes "path \<noteq> []" and "fs path = Some contents" and "\<forall>n. mok n"
  shows "ip_acl_contains (snd (ip_acl_load_file fs mok (snd (ip_acl_init True)) path)) ip \<longleftrightarrow>
     (\<exists>a. parse_ip_to_addr ip = Some a \<and> (\<exists>l \<in> set (fgets_lines 512 contents). line_covers l a))"
  using assms by (rule acl_file_members)

theorem ip_acl_file_membership_witness:
  "ip_acl_contains (snd (ip_acl_load_file (\<lambda>_. Some ''1.2.3.4'') (\<lambda>_. True) (snd (ip_acl_init True)) ''f'')) ''1.2.3.4''"
proof -
  have l: "fgets_lines 512 ''1.2.3.4'' = [''1.2.3.4'']"
    by (simp add: fgets_lines.simps fgets_len_def memchr_def)
  have "line_covers ''1.2.3.4'' a \<longleftrightarrow> parse_ip_to_addr ''1.2.3.4'' = Some a" for a
    by (simp add: line_covers_def trim_def cstr_def isspace_def Let_def)
  moreover have "\<exists>a. parse_ip_to_addr ''1.2.3.4'' = Some a"
    by (simp add: parse_ip_to_addr_def inet_pton4_def isdigit_def)
  ultimately show ?thesis
    using ip_acl_file_membership [of "''f''" "\<lambda>_. Some ''1.2.3.4''" "''1.2.3.4''" "\<lambda>_. True" "''1.2.3.4''"] l
    by simp
qed

text \<open>
  The prefix length is read with \<open>atoi\<close>: any text after the slash that does not start
  with a number counts as 0.
\<close>

lemma atoi_no_number:
  assumes "s = [] \<or> \<not> isdigit (hd s) \<and> \<not> isspace (hd s) \<and> hd s \<noteq> CHR ''-'' \<and> hd s \<noteq> CHR ''+''"
  shows "atoi s = 0"
  using assms
  by (cases s) (auto simp: atoi_def strtol_def num_scan_def num_sign_def digits_val_def)

lemma inet_ntop4_no_slash: "CHR ''/'' \<notin> set (inet_ntop4 a)" "NUL \<notin> set (inet_ntop4 a)"
  by (auto simp: inet_ntop4_def isdigit_def dest: fmt_u_digits)

lemma length_inet_ntop4: "length (inet_ntop4 a) \<le> 15"
proof -
  have l: "length (fmt_u (unat b)) \<le> 3" for b :: byte
    using unsigned_less [of b, where ?'a = nat] by (intro length_fmt_u) auto
  show ?thesis
    using l [of "a ! 0"] l [of "a ! 1"] l [of "a ! 2"] l [of "a ! 3"] by (simp add: inet_ntop4_def)
qed

lemma parse_cidr_ipv4:
  assumes "length n = 4" "0 \<le> atoi s" "atoi s \<le> 32"
  shows "parse_cidr (inet_ntop4 n @ ''/'' @ s) = Some (replicate 10 0 @ [0xff, 0xff] @ n, of_int (96 + atoi s))"
proof -
  have "strchr (inet_ntop4 n @ ''/'' @ s) (CHR ''/'') = Some (length (inet_ntop4 n))"
  proof -
    have "cstr (inet_ntop4 n @ ''/'' @ s) = inet_ntop4 n @ CHR ''/'' # cstr s"
      using inet_ntop4_no_slash(2) [of n] unfolding cstr_def by (subst takeWhile_append2) auto
    then show ?thesis using inet_ntop4_no_slash(1) by (simp add: strchr_def memchr_append_notin)
  qed
  moreover have "length (inet_ntop4 n) < INET6_ADDRSTRLEN"
    using length_inet_ntop4 [of n] by (simp add: INET6_ADDRSTRLEN_def)
  ultimately show ?thesis
    using assms by (simp add: parse_cidr_def Let_def inet_pton4_ntop4)
qed

text \<open>
  C35. A CIDR line whose text after the slash is empty or not a number (as \<open>10.0.0.0/\<close> or
  \<open>10.0.0.0/x\<close>) is not rejected as malformed: it is accepted as a prefix of length 0 and
  matches every IPv4 client. On the block list it shuts out all IPv4 clients, on the allow list it
  exempts all of them from rate limiting.
\<close>

theorem cidr_garbage_prefix_matches_all_ipv4:
  assumes "length n = 4"
    and "s = [] \<or> \<not> isdigit (hd s) \<and> \<not> isspace (hd s) \<and> hd s \<noteq> CHR ''-'' \<and> hd s \<noteq> CHR ''+''"
    and "inet_pton4 ip = Some a4"
  shows "\<exists>net p a. parse_cidr (inet_ntop4 n @ ''/'' @ s) = Some (net, p)
     \<and> parse_ip_to_addr ip = Some a \<and> cidr_match a net p"
proof -
  have "parse_cidr (inet_ntop4 n @ ''/'' @ s) = Some (replicate 10 0 @ [0xff, 0xff] @ n, 96)"
    using parse_cidr_ipv4 [OF assms(1), of s] atoi_no_number [OF assms(2)] by simp
  moreover have "parse_ip_to_addr ip = Some (replicate 10 0 @ [0xff, 0xff] @ a4)"
    using assms(3) by (simp add: parse_ip_to_addr_def)
  moreover have "cidr_match (replicate 10 0 @ [0xff, 0xff] @ a4) (replicate 10 0 @ [0xff, 0xff] @ n) 96"
    by (simp add: cidr_match_def)
  ultimately show ?thesis by blast
qed

theorem cidr_garbage_prefix_matches_all_ipv4_witness:
  "\<exists>net p a. parse_cidr (inet_ntop4 [10, 0, 0, 0] @ ''/'' @ ''x'') = Some (net, p)
     \<and> parse_ip_to_addr ''8.8.4.4'' = Some a \<and> cidr_match a net p"
proof -
  have "\<exists>a4. inet_pton4 ''8.8.4.4'' = Some a4" by (simp add: inet_pton4_def isdigit_def)
  then show ?thesis
    using cidr_garbage_prefix_matches_all_ipv4 [of "[10, 0, 0, 0]" "''x''" "''8.8.4.4''"]
    by (auto simp: isdigit_def isspace_def)
qed

text \<open>
  C16. The byte-and-mask comparison of the CIDR test is exactly agreement of the first
  \<open>prefix_len\<close> bits of the two addresses, for every prefix length from 0 to 128.
\<close>

theorem cidr_match_prefix:
  assumes "length addr = 16" "length network = 16" "unat p \<le> 128"
  shows "cidr_match addr network p \<longleftrightarrow> (\<forall>i < unat p. addr_bits addr ! i = addr_bits network ! i)"
  unfolding cidr_match_bits [OF assms] using assms
  by (auto simp: list_eq_iff_nth_eq length_addr_bits)

theorem cidr_match_prefix_witness:
  "\<not> (\<forall>i < unat (16 :: byte). addr_bits (10 # 1 # replicate 14 0) ! i = addr_bits (10 # replicate 15 0) ! i)"
  using cidr_match_prefix [of "10 # 1 # replicate 14 0" "10 # replicate 15 0" 16]
  by (simp add: cidr_match_def)

end
