(* ===== verification/State.thy ===== *)
theory State
  imports RpcState Router RateLimiter IpAcl
begin

text \<open>
  The state of a worker process: \<^verbatim>\<open>src/include/worker.h\<close>, \<^verbatim>\<open>src/include/connection.h\<close>,
  \<^verbatim>\<open>src/include/http2.h\<close>, \<^verbatim>\<open>src/include/static_files.h\<close>, \<^verbatim>\<open>src/include/tls.h\<close>.

  A connection's bufferevent is its input and its output buffer. The 64-bit statistics of
  \<open>WorkerProcess\<close> are one function from the counters' names. The intrusive lists of
  connections and streams are lists, newest first. The function-local static counters that
  number the requests are fields of the worker, as each worker is a process. What a callback asks
  of the operating system, OpenSSL and nghttp2 during its run is an environment record.
\<close>

type_synonym timespec = "int \<times> int"

record StaticFile =
  sf_content :: string
  sf_length :: nat
  sf_content_type :: string

record StaticFiles =
  sf_index :: StaticFile
  sf_broadcast :: StaticFile
  sf_result :: StaticFile
  sf_error :: StaticFile
  sf_docs :: StaticFile
  sf_status :: StaticFile
  sf_logos :: StaticFile

record TLSContext =
  tls_ctx :: bool
  tls_http2_enabled :: bool
  tls_cert_expiry :: int

datatype ConnState =
    CONN_STATE_READING_HEADERS | CONN_STATE_READING_BODY | CONN_STATE_PROCESSING
  | CONN_STATE_WRITING_RESPONSE | CONN_STATE_CLOSING

datatype ProtocolType = PROTO_HTTP_1_1 | PROTO_HTTP_2

datatype H2StreamState =
    H2_STREAM_IDLE | H2_STREAM_OPEN | H2_STREAM_HALF_CLOSED_REMOTE
  | H2_STREAM_HALF_CLOSED_LOCAL | H2_STREAM_CLOSED

text \<open>The body source owns a copy of the body and the position read so far.\<close>

record H2BodySource =
  bs_data :: string
  bs_len :: nat
  bs_pos :: nat

record H2Stream =
  stream_id :: int
  hs_state :: H2StreamState
  hs_tier :: RequestTier
  slot_acquired :: bool
  hs_method :: "string option"
  hs_path :: "string option"
  hs_path_len :: nat
  hs_authority :: "string option"
  hs_scheme :: "string option"
  hs_content_length :: nat
  hs_body_received :: nat
  hs_request_id :: string
  hs_start_time :: timespec
  hs_response_status :: int
  hs_response_bytes :: nat
  hs_body_source :: "H2BodySource option"

text \<open>A response handed to nghttp2: the stream, the header fields and the body.\<close>

record H2Response =
  h2r_stream :: int
  h2r_headers :: "(string \<times> string) list"
  h2r_body :: string

record H2Connection =
  h2_streams :: "H2Stream list"
  h2_stream_count :: int
  h2_max_concurrent_streams :: nat
  h2_initial_window_size :: nat
  h2_settings :: "(string \<times> nat) list"
  h2_submitted :: "H2Response list"
  h2_rst_submitted :: "int list"

record Connection =
  c_state :: ConnState
  c_protocol :: ProtocolType
  current_tier :: RequestTier
  client_ip :: string
  client_port :: nat
  headers_scanned :: nat
  headers_end :: nat
  content_length :: nat
  body_received :: nat
  c_method :: string
  c_path :: "string option"
  c_path_len :: nat
  path_validated :: bool
  validation_failed :: bool
  keep_alive :: bool
  slot_held :: bool
  requests_on_connection :: int
  c_ssl :: bool
  tls_handshake_done :: bool
  c_h2 :: "H2Connection option"
  c_start_time :: timespec
  last_progress_time :: timespec
  bytes_at_last_check :: nat
  request_id :: string
  response_status :: int
  response_bytes :: nat
  inbuf :: string
  outbuf :: string

datatype Counter =
    Connections_accepted | Connections_rejected_rate | Connections_rejected_slot
  | Connections_rejected_blocked | Connections_allowlisted | Requests_processed
  | Latency_bucket_1ms | Latency_bucket_5ms | Latency_bucket_10ms | Latency_bucket_50ms
  | Latency_bucket_100ms | Latency_bucket_500ms | Latency_bucket_1s | Latency_bucket_5s
  | Latency_bucket_inf
  | Status_2xx | Status_4xx | Status_5xx
  | Status_200 | Status_400 | Status_404 | Status_408 | Status_429 | Status_503
  | Method_get | Method_post | Method_other
  | Tls_handshakes_total | Tls_handshake_errors | Tls_protocol_tls12 | Tls_protocol_tls13
  | H2_streams_total | H2_rst_stream_total | H2_goaway_sent
  | Errors_timeout | Errors_parse | Errors_tls
  | Endpoint_health | Endpoint_ready | Endpoint_alive | Endpoint_version | Endpoint_metrics
  | Endpoint_home | Endpoint_broadcast | Endpoint_result | Endpoint_docs | Endpoint_status
  | Endpoint_logos | Endpoint_acme
  | Response_bytes_total | Slowloris_kills | Slot_promotion_failures | Keepalive_reuses

record WorkerProcess =
  worker_id :: int
  w_listener :: bool
  w_tls_listener :: bool
  w_config :: Config
  w_static_files :: StaticFiles
  w_slots :: SlotManager
  w_rate_limiter :: RateLimiter
  w_ip_acl :: IpACLContext
  w_tls :: TLSContext
  w_rpc :: RPCManager
  draining :: bool
  listener_disabled :: bool
  tls_listener_disabled :: bool
  counters :: "Counter \<Rightarrow> u64"
  active_connections :: int
  w_start_time :: timespec
  w_start_wallclock :: int
  latency_sum_seconds :: rat
  h2_streams_active :: int
  request_counter :: u32
  keepalive_counter :: u32
  h2_request_counter :: u32
  loopexit :: bool

text \<open>
  The environment of one callback: the clocks, the rounding of floating point, the results of
  allocations (by call site), of opening, examining and reading a file, the names in \<^verbatim>\<open>/proc/self/fd\<close>, the descriptor limit, and
  the state of the TLS session.
\<close>

record Env =
  e_now :: timespec
  e_wall :: int
  e_rnd :: "rat \<Rightarrow> rat"
  e_malloc :: "nat \<Rightarrow> bool"
  e_open :: "string \<Rightarrow> (bool \<times> nat \<times> string option) option"
  e_fd_dir :: "string list option"
  e_rlimit :: "u64 option"
  e_ssl_init_finished :: bool
  e_ssl_version :: nat
  e_alpn_h2 :: bool
  e_h2_init_ok :: bool
  e_h2_send_ok :: bool

definition bump :: "Counter \<Rightarrow> WorkerProcess \<Rightarrow> WorkerProcess" where
  "bump c w = w\<lparr>counters := (counters w)(c := counters w c + 1)\<rparr>"

definition bump_by :: "Counter \<Rightarrow> nat \<Rightarrow> WorkerProcess \<Rightarrow> WorkerProcess" where
  "bump_by c n w = w\<lparr>counters := (counters w)(c := counters w c + of_nat n)\<rparr>"

text \<open>Elapsed seconds between two time stamps, as the callbacks compute it in \<open>double\<close>.\<close>

definition elapsed_sec :: "(rat \<Rightarrow> rat) \<Rightarrow> timespec \<Rightarrow> timespec \<Rightarrow> rat" where
  "elapsed_sec rnd now since =
     rnd (of_int (fst now - fst since) + rnd (of_int (snd now - snd since) / 10 ^ 9))"

definition elapsed_ms :: "(rat \<Rightarrow> rat) \<Rightarrow> timespec \<Rightarrow> timespec \<Rightarrow> rat" where
  "elapsed_ms rnd now since =
     rnd (rnd (of_int (fst now - fst since) * 1000) + rnd (of_int (snd now - snd since) / 10 ^ 6))"

text \<open>
  The time stamp in a request identifier: microseconds in a \<open>long\<close> printed as
  \<open>unsigned long\<close>.
\<close>

definition stamp_usec :: "timespec \<Rightarrow> nat" where
  "stamp_usec ts = nat ((fst ts * 1000000 + snd ts div 1000) mod 2 ^ 64)"

subsection \<open>What the bookkeeping leaves alone\<close>

lemma bump_frame [simp]:
  "w_static_files (bump c w) = w_static_files w"
  "w_slots (bump c w) = w_slots w" "active_connections (bump c w) = active_connections w"
  "draining (bump c w) = draining w" "h2_streams_active (bump c w) = h2_streams_active w"
  "loopexit (bump c w) = loopexit w" "w_config (bump c w) = w_config w"
  "listener_disabled (bump c w) = listener_disabled w" "tls_listener_disabled (bump c w) = tls_listener_disabled w"
  "w_listener (bump c w) = w_listener w" "w_tls_listener (bump c w) = w_tls_listener w"
  "w_rate_limiter (bump c w) = w_rate_limiter w" "w_ip_acl (bump c w) = w_ip_acl w"
  by (simp_all add: bump_def)

lemma bump_by_frame [simp]:
  "w_static_files (bump_by c n w) = w_static_files w"
  "w_slots (bump_by c n w) = w_slots w" "active_connections (bump_by c n w) = active_connections w"
  "draining (bump_by c n w) = draining w" "h2_streams_active (bump_by c n w) = h2_streams_active w"
  "loopexit (bump_by c n w) = loopexit w" "w_config (bump_by c n w) = w_config w"
  "listener_disabled (bump_by c n w) = listener_disabled w"
  "tls_listener_disabled (bump_by c n w) = tls_listener_disabled w"
  "w_listener (bump_by c n w) = w_listener w" "w_tls_listener (bump_by c n w) = w_tls_listener w"
  "w_rate_limiter (bump_by c n w) = w_rate_limiter w" "w_ip_acl (bump_by c n w) = w_ip_acl w"
  by (simp_all add: bump_by_def)

lemma counters_bump: "counters (bump c w) d = (if c = d then counters w d + 1 else counters w d)"
  by (simp add: bump_def)

lemma counters_bump_by: "counters (bump_by c n w) d = (if c = d then counters w d + of_nat n else counters w d)"
  by (simp add: bump_by_def)

end
