(* ===== verification/Endpoints.thy ===== *)
theory Endpoints
  imports State
begin

text \<open>
  \<^verbatim>\<open>src/src/endpoints.c\<close>: the bodies of \<^verbatim>\<open>/health\<close> and \<^verbatim>\<open>/metrics\<close>, the ACME challenge lookup,
  the validation of long paths and the per-request counters.
\<close>

definition tls_get_cert_expiry :: "TLSContext \<Rightarrow> int" where
  "tls_get_cert_expiry tls = tls_cert_expiry tls"

text \<open>Integer division of C, towards zero.\<close>

definition cdiv :: "int \<Rightarrow> int \<Rightarrow> int" where
  "cdiv a b = (if (0 \<le> a) = (0 < b) then \<bar>a\<bar> div \<bar>b\<bar> else - (\<bar>a\<bar> div \<bar>b\<bar>))"

definition get_open_fds :: "Env \<Rightarrow> int" where
  "get_open_fds env = (case e_fd_dir env of
     None \<Rightarrow> 0
   | Some names \<Rightarrow> int (length (filter (\<lambda>name. take 1 name \<noteq> ''.'') names)))"

definition get_max_fds :: "Env \<Rightarrow> int" where
  "get_max_fds env = (case e_rlimit env of None \<Rightarrow> -1 | Some rlim_cur \<Rightarrow> sint (ucast rlim_cur :: 32 word))"

text \<open>\<open>snprintf\<close> into the buffer and the length clipped to what was stored.\<close>

definition generate_health_text :: "Env \<Rightarrow> WorkerProcess \<Rightarrow> string" where
  "generate_health_text env w =
    (let uptime_sec = fst (e_now env) - fst (w_start_time w);
         open_fds = get_open_fds env; max_fds = get_max_fds env;
         fd_usage_pct = (if max_fds > 0
            then e_rnd env (e_rnd env (100 * of_int open_fds) / of_int max_fds) else 0);
         cert_expiry = tls_get_cert_expiry (w_tls w);
         cert_days_remaining = (if cert_expiry > 0 then cdiv (cert_expiry - e_wall env) 86400 else 0);
         cert_warning = (cert_expiry > 0 \<and> cert_days_remaining < 30) in
     ''{'' @ quoted ''status'' @ '':'' @ quoted ''healthy'' @ '','' @ quoted ''worker_id'' @ '':'' @ fmt_d (worker_id w) @
     '','' @ quoted ''uptime_seconds'' @ '':'' @ fmt_d (uptime_sec) @ '','' @ quoted ''active_connections'' @ '':'' @
     fmt_d (active_connections w) @ '','' @ quoted ''requests_processed'' @ '':'' @ fmt_u (unat (counters w
     Requests_processed)) @ '','' @ quoted ''slots'' @ '':{'' @ quoted ''normal'' @ '':{'' @ quoted ''used'' @ '':'' @ fmt_d
     (slot_manager_current (w_slots w) TIER_NORMAL) @ '','' @ quoted ''max'' @ '':'' @ fmt_d (slot_manager_max
     (w_slots w) TIER_NORMAL) @ ''},'' @ quoted ''large'' @ '':{'' @ quoted ''used'' @ '':'' @ fmt_d
     (slot_manager_current (w_slots w) TIER_LARGE) @ '','' @ quoted ''max'' @ '':'' @ fmt_d (slot_manager_max
     (w_slots w) TIER_LARGE) @ ''},'' @ quoted ''huge'' @ '':{'' @ quoted ''used'' @ '':'' @ fmt_d (slot_manager_current
     (w_slots w) TIER_HUGE) @ '','' @ quoted ''max'' @ '':'' @ fmt_d (slot_manager_max (w_slots w) TIER_HUGE) @
     ''}},'' @ quoted ''rate_limiter_entries'' @ '':'' @ fmt_d (rate_limiter_get_entry_count (w_rate_limiter w)) @
     '','' @ quoted ''tls'' @ '':{'' @ quoted ''enabled'' @ '':'' @ (if tls_ctx (w_tls w) then ''true'' else ''false'')
     @ '','' @ quoted ''cert_expires_in_days'' @ '':'' @ fmt_d (cert_days_remaining) @ '','' @ quoted
     ''cert_expiry_warning'' @ '':'' @ (if cert_warning then ''true'' else ''false'') @ ''},'' @ quoted
     ''resources'' @ '':{'' @ quoted ''open_fds'' @ '':'' @ fmt_d (open_fds) @ '','' @ quoted ''max_fds'' @ '':'' @
     fmt_d (max_fds) @ '','' @ quoted ''fd_usage_percent'' @ '':'' @ fmt_f 1 (fd_usage_pct) @ ''}}'')"

definition generate_health_body :: "Env \<Rightarrow> WorkerProcess \<Rightarrow> nat \<Rightarrow> string \<times> nat" where
  "generate_health_body env w bufsize =
    (let t = generate_health_text env w in
     (snprintf_buf bufsize t, if bufsize \<le> length t then bufsize - 1 else length t))"

subsection \<open>The metrics page\<close>

definition metrics_basic :: "WorkerProcess \<Rightarrow> string" where
  "metrics_basic w =
     ''# HELP rawrelay_requests_total Total requests processed'' @ [LF]
     @ ''# TYPE rawrelay_requests_total counter'' @ [LF]
     @ ''rawrelay_requests_total{worker='' @ quoted (fmt_d (worker_id w)) @ ''} ''
       @ fmt_u (unat (counters w Requests_processed)) @ [LF]
     @ [LF]
     @ ''# HELP rawrelay_connections_accepted_total Total connections accepted'' @ [LF]
     @ ''# TYPE rawrelay_connections_accepted_total counter'' @ [LF]
     @ ''rawrelay_connections_accepted_total{worker='' @ quoted (fmt_d (worker_id w)) @ ''} ''
       @ fmt_u (unat (counters w Connections_accepted)) @ [LF]
     @ [LF]
     @ ''# HELP rawrelay_connections_rejected_total Rejected connections by reason'' @ [LF]
     @ ''# TYPE rawrelay_connections_rejected_total counter'' @ [LF]
     @ ''rawrelay_connections_rejected_total{worker='' @ quoted (fmt_d (worker_id w)) @ '',reason=''
       @ quoted ''rate_limit'' @ ''} '' @ fmt_u (unat (counters w Connections_rejected_rate)) @ [LF]
     @ ''rawrelay_connections_rejected_total{worker='' @ quoted (fmt_d (worker_id w)) @ '',reason=''
       @ quoted ''slot_limit'' @ ''} '' @ fmt_u (unat (counters w Connections_rejected_slot)) @ [LF]
     @ ''rawrelay_connections_rejected_total{worker='' @ quoted (fmt_d (worker_id w)) @ '',reason=''
       @ quoted ''blocked'' @ ''} '' @ fmt_u (unat (counters w Connections_rejected_blocked)) @ [LF]
     @ [LF]
     @ ''# HELP rawrelay_connections_allowlisted_total Connections that bypassed rate limiting'' @ [LF]
     @ ''# TYPE rawrelay_connections_allowlisted_total counter'' @ [LF]
     @ ''rawrelay_connections_allowlisted_total{worker='' @ quoted (fmt_d (worker_id w)) @ ''} ''
       @ fmt_u (unat (counters w Connections_allowlisted)) @ [LF]
     @ [LF]
     @ ''# HELP rawrelay_active_connections Current active connections'' @ [LF]
     @ ''# TYPE rawrelay_active_connections gauge'' @ [LF]
     @ ''rawrelay_active_connections{worker='' @ quoted (fmt_d (worker_id w)) @ ''} ''
       @ fmt_d (active_connections w) @ [LF]
     @ [LF]"

definition metrics_latency :: "WorkerProcess \<Rightarrow> string" where
  "metrics_latency w =
     ''# HELP rawrelay_request_duration_seconds Request latency histogram'' @ [LF]
     @ ''# TYPE rawrelay_request_duration_seconds histogram'' @ [LF]
     @ ''rawrelay_request_duration_seconds_bucket{worker='' @ quoted (fmt_d (worker_id w)) @ '',le=''
       @ quoted ''0.001'' @ ''} '' @ fmt_u (unat (counters w Latency_bucket_1ms)) @ [LF]
     @ ''rawrelay_request_duration_seconds_bucket{worker='' @ quoted (fmt_d (worker_id w)) @ '',le=''
       @ quoted ''0.005'' @ ''} '' @ fmt_u (unat (counters w Latency_bucket_5ms)) @ [LF]
     @ ''rawrelay_request_duration_seconds_bucket{worker='' @ quoted (fmt_d (worker_id w)) @ '',le='' @ quoted ''0.01''
       @ ''} '' @ fmt_u (unat (counters w Latency_bucket_10ms)) @ [LF]
     @ ''rawrelay_request_duration_seconds_bucket{worker='' @ quoted (fmt_d (worker_id w)) @ '',le='' @ quoted ''0.05''
       @ ''} '' @ fmt_u (unat (counters w Latency_bucket_50ms)) @ [LF]
     @ ''rawrelay_request_duration_seconds_bucket{worker='' @ quoted (fmt_d (worker_id w)) @ '',le='' @ quoted ''0.1''
       @ ''} '' @ fmt_u (unat (counters w Latency_bucket_100ms)) @ [LF]
     @ ''rawrelay_request_duration_seconds_bucket{worker='' @ quoted (fmt_d (worker_id w)) @ '',le='' @ quoted ''0.5''
       @ ''} '' @ fmt_u (unat (counters w Latency_bucket_500ms)) @ [LF]
     @ ''rawrelay_request_duration_seconds_bucket{worker='' @ quoted (fmt_d (worker_id w)) @ '',le='' @ quoted ''1''
       @ ''} '' @ fmt_u (unat (counters w Latency_bucket_1s)) @ [LF]
     @ ''rawrelay_request_duration_seconds_bucket{worker='' @ quoted (fmt_d (worker_id w)) @ '',le='' @ quoted ''5''
       @ ''} '' @ fmt_u (unat (counters w Latency_bucket_5s)) @ [LF]
     @ ''rawrelay_request_duration_seconds_bucket{worker='' @ quoted (fmt_d (worker_id w)) @ '',le='' @ quoted ''+Inf''
       @ ''} '' @ fmt_u (unat (counters w Latency_bucket_inf)) @ [LF]
     @ ''rawrelay_request_duration_seconds_sum{worker='' @ quoted (fmt_d (worker_id w)) @ ''} ''
       @ fmt_f 6 (latency_sum_seconds w) @ [LF]
     @ ''rawrelay_request_duration_seconds_count{worker='' @ quoted (fmt_d (worker_id w)) @ ''} ''
       @ fmt_u (unat (counters w Latency_bucket_inf)) @ [LF]
     @ [LF]"

definition metrics_status :: "WorkerProcess \<Rightarrow> string" where
  "metrics_status w =
     ''# HELP rawrelay_http_requests_total HTTP requests by status code'' @ [LF]
     @ ''# TYPE rawrelay_http_requests_total counter'' @ [LF]
     @ ''rawrelay_http_requests_total{worker='' @ quoted (fmt_d (worker_id w)) @ '',status='' @ quoted ''200'' @ ''} ''
       @ fmt_u (unat (counters w Status_200)) @ [LF]
     @ ''rawrelay_http_requests_total{worker='' @ quoted (fmt_d (worker_id w)) @ '',status='' @ quoted ''400'' @ ''} ''
       @ fmt_u (unat (counters w Status_400)) @ [LF]
     @ ''rawrelay_http_requests_total{worker='' @ quoted (fmt_d (worker_id w)) @ '',status='' @ quoted ''404'' @ ''} ''
       @ fmt_u (unat (counters w Status_404)) @ [LF]
     @ ''rawrelay_http_requests_total{worker='' @ quoted (fmt_d (worker_id w)) @ '',status='' @ quoted ''408'' @ ''} ''
       @ fmt_u (unat (counters w Status_408)) @ [LF]
     @ ''rawrelay_http_requests_total{worker='' @ quoted (fmt_d (worker_id w)) @ '',status='' @ quoted ''429'' @ ''} ''
       @ fmt_u (unat (counters w Status_429)) @ [LF]
     @ ''rawrelay_http_requests_total{worker='' @ quoted (fmt_d (worker_id w)) @ '',status='' @ quoted ''503'' @ ''} ''
       @ fmt_u (unat (counters w Status_503)) @ [LF]
     @ [LF]
     @ ''# HELP rawrelay_http_requests_by_class_total HTTP requests by status class'' @ [LF]
     @ ''# TYPE rawrelay_http_requests_by_class_total counter'' @ [LF]
     @ ''rawrelay_http_requests_by_class_total{worker='' @ quoted (fmt_d (worker_id w)) @ '',class='' @ quoted ''2xx''
       @ ''} '' @ fmt_u (unat (counters w Status_2xx)) @ [LF]
     @ ''rawrelay_http_requests_by_class_total{worker='' @ quoted (fmt_d (worker_id w)) @ '',class='' @ quoted ''4xx''
       @ ''} '' @ fmt_u (unat (counters w Status_4xx)) @ [LF]
     @ ''rawrelay_http_requests_by_class_total{worker='' @ quoted (fmt_d (worker_id w)) @ '',class='' @ quoted ''5xx''
       @ ''} '' @ fmt_u (unat (counters w Status_5xx)) @ [LF]
     @ [LF]"

definition metrics_methods :: "WorkerProcess \<Rightarrow> string" where
  "metrics_methods w =
     ''# HELP rawrelay_requests_by_method_total HTTP requests by method'' @ [LF]
     @ ''# TYPE rawrelay_requests_by_method_total counter'' @ [LF]
     @ ''rawrelay_requests_by_method_total{worker='' @ quoted (fmt_d (worker_id w)) @ '',method='' @ quoted ''GET''
       @ ''} '' @ fmt_u (unat (counters w Method_get)) @ [LF]
     @ ''rawrelay_requests_by_method_total{worker='' @ quoted (fmt_d (worker_id w)) @ '',method='' @ quoted ''POST''
       @ ''} '' @ fmt_u (unat (counters w Method_post)) @ [LF]
     @ ''rawrelay_requests_by_method_total{worker='' @ quoted (fmt_d (worker_id w)) @ '',method='' @ quoted ''OTHER''
       @ ''} '' @ fmt_u (unat (counters w Method_other)) @ [LF]
     @ [LF]"

definition metrics_process :: "rat \<Rightarrow> WorkerProcess \<Rightarrow> string" where
  "metrics_process uptime_sec w =
     ''# HELP rawrelay_process_start_time_seconds Unix timestamp of process start'' @ [LF]
     @ ''# TYPE rawrelay_process_start_time_seconds gauge'' @ [LF]
     @ ''rawrelay_process_start_time_seconds{worker='' @ quoted (fmt_d (worker_id w)) @ ''} ''
       @ fmt_d (w_start_wallclock w) @ [LF]
     @ [LF]
     @ ''# HELP rawrelay_process_uptime_seconds Process uptime in seconds'' @ [LF]
     @ ''# TYPE rawrelay_process_uptime_seconds gauge'' @ [LF]
     @ ''rawrelay_process_uptime_seconds{worker='' @ quoted (fmt_d (worker_id w)) @ ''} '' @ fmt_f 3 (uptime_sec) @ [LF]
     @ [LF]"

definition metrics_fds :: "int \<Rightarrow> int \<Rightarrow> WorkerProcess \<Rightarrow> string" where
  "metrics_fds open_fds max_fds w =
     ''# HELP rawrelay_open_fds Current number of open file descriptors'' @ [LF]
     @ ''# TYPE rawrelay_open_fds gauge'' @ [LF]
     @ ''rawrelay_open_fds{worker='' @ quoted (fmt_d (worker_id w)) @ ''} '' @ fmt_d (open_fds) @ [LF]
     @ [LF]
     @ ''# HELP rawrelay_max_fds Maximum file descriptors allowed'' @ [LF]
     @ ''# TYPE rawrelay_max_fds gauge'' @ [LF]
     @ ''rawrelay_max_fds{worker='' @ quoted (fmt_d (worker_id w)) @ ''} '' @ fmt_d (max_fds) @ [LF]
     @ [LF]"

definition metrics_tls :: "WorkerProcess \<Rightarrow> string" where
  "metrics_tls w =
     ''# HELP rawrelay_tls_handshakes_total TLS handshakes by protocol version'' @ [LF]
     @ ''# TYPE rawrelay_tls_handshakes_total counter'' @ [LF]
     @ ''rawrelay_tls_handshakes_total{worker='' @ quoted (fmt_d (worker_id w)) @ '',protocol='' @ quoted ''TLSv1.2''
       @ ''} '' @ fmt_u (unat (counters w Tls_protocol_tls12)) @ [LF]
     @ ''rawrelay_tls_handshakes_total{worker='' @ quoted (fmt_d (worker_id w)) @ '',protocol='' @ quoted ''TLSv1.3''
       @ ''} '' @ fmt_u (unat (counters w Tls_protocol_tls13)) @ [LF]
     @ [LF]
     @ ''# HELP rawrelay_tls_handshake_errors_total TLS handshake errors'' @ [LF]
     @ ''# TYPE rawrelay_tls_handshake_errors_total counter'' @ [LF]
     @ ''rawrelay_tls_handshake_errors_total{worker='' @ quoted (fmt_d (worker_id w)) @ ''} ''
       @ fmt_u (unat (counters w Tls_handshake_errors)) @ [LF]
     @ [LF]"

definition metrics_cert :: "int \<Rightarrow> WorkerProcess \<Rightarrow> string" where
  "metrics_cert cert_expiry w =
     ''# HELP rawrelay_tls_cert_expiry_timestamp_seconds Unix timestamp when certificate expires'' @ [LF]
     @ ''# TYPE rawrelay_tls_cert_expiry_timestamp_seconds gauge'' @ [LF]
     @ ''rawrelay_tls_cert_expiry_timestamp_seconds{worker='' @ quoted (fmt_d (worker_id w)) @ ''} ''
       @ fmt_d (cert_expiry) @ [LF]
     @ [LF]"

definition metrics_http2 :: "WorkerProcess \<Rightarrow> string" where
  "metrics_http2 w =
     ''# HELP rawrelay_http2_streams_total Total HTTP/2 streams opened'' @ [LF]
     @ ''# TYPE rawrelay_http2_streams_total counter'' @ [LF]
     @ ''rawrelay_http2_streams_total{worker='' @ quoted (fmt_d (worker_id w)) @ ''} ''
       @ fmt_u (unat (counters w H2_streams_total)) @ [LF]
     @ [LF]
     @ ''# HELP rawrelay_http2_streams_active Current active HTTP/2 streams'' @ [LF]
     @ ''# TYPE rawrelay_http2_streams_active gauge'' @ [LF]
     @ ''rawrelay_http2_streams_active{worker='' @ quoted (fmt_d (worker_id w)) @ ''} ''
       @ fmt_d (h2_streams_active w) @ [LF]
     @ [LF]
     @ ''# HELP rawrelay_http2_rst_stream_total HTTP/2 RST_STREAM frames sent'' @ [LF]
     @ ''# TYPE rawrelay_http2_rst_stream_total counter'' @ [LF]
     @ ''rawrelay_http2_rst_stream_total{worker='' @ quoted (fmt_d (worker_id w)) @ ''} ''
       @ fmt_u (unat (counters w H2_rst_stream_total)) @ [LF]
     @ [LF]
     @ ''# HELP rawrelay_http2_goaway_total HTTP/2 GOAWAY frames sent'' @ [LF]
     @ ''# TYPE rawrelay_http2_goaway_total counter'' @ [LF]
     @ ''rawrelay_http2_goaway_total{worker='' @ quoted (fmt_d (worker_id w)) @ ''} ''
       @ fmt_u (unat (counters w H2_goaway_sent)) @ [LF]
     @ [LF]"

definition metrics_errors :: "WorkerProcess \<Rightarrow> string" where
  "metrics_errors w =
     ''# HELP rawrelay_errors_total Errors by type'' @ [LF]
     @ ''# TYPE rawrelay_errors_total counter'' @ [LF]
     @ ''rawrelay_errors_total{worker='' @ quoted (fmt_d (worker_id w)) @ '',type='' @ quoted ''timeout'' @ ''} ''
       @ fmt_u (unat (counters w Errors_timeout)) @ [LF]
     @ ''rawrelay_errors_total{worker='' @ quoted (fmt_d (worker_id w)) @ '',type='' @ quoted ''parse_error'' @ ''} ''
       @ fmt_u (unat (counters w Errors_parse)) @ [LF]
     @ ''rawrelay_errors_total{worker='' @ quoted (fmt_d (worker_id w)) @ '',type='' @ quoted ''tls_error'' @ ''} ''
       @ fmt_u (unat (counters w Errors_tls)) @ [LF]
     @ [LF]"

definition metrics_slots :: "WorkerProcess \<Rightarrow> string" where
  "metrics_slots w =
     ''# HELP rawrelay_slots_used Slots currently in use by tier'' @ [LF]
     @ ''# TYPE rawrelay_slots_used gauge'' @ [LF]
     @ ''rawrelay_slots_used{worker='' @ quoted (fmt_d (worker_id w)) @ '',tier='' @ quoted ''normal'' @ ''} ''
       @ fmt_d (slot_manager_current (w_slots w) TIER_NORMAL) @ [LF]
     @ ''rawrelay_slots_used{worker='' @ quoted (fmt_d (worker_id w)) @ '',tier='' @ quoted ''large'' @ ''} ''
       @ fmt_d (slot_manager_current (w_slots w) TIER_LARGE) @ [LF]
     @ ''rawrelay_slots_used{worker='' @ quoted (fmt_d (worker_id w)) @ '',tier='' @ quoted ''huge'' @ ''} ''
       @ fmt_d (slot_manager_current (w_slots w) TIER_HUGE) @ [LF]
     @ [LF]
     @ ''# HELP rawrelay_slots_max Maximum slots by tier'' @ [LF]
     @ ''# TYPE rawrelay_slots_max gauge'' @ [LF]
     @ ''rawrelay_slots_max{worker='' @ quoted (fmt_d (worker_id w)) @ '',tier='' @ quoted ''normal'' @ ''} ''
       @ fmt_d (slot_manager_max (w_slots w) TIER_NORMAL) @ [LF]
     @ ''rawrelay_slots_max{worker='' @ quoted (fmt_d (worker_id w)) @ '',tier='' @ quoted ''large'' @ ''} ''
       @ fmt_d (slot_manager_max (w_slots w) TIER_LARGE) @ [LF]
     @ ''rawrelay_slots_max{worker='' @ quoted (fmt_d (worker_id w)) @ '',tier='' @ quoted ''huge'' @ ''} ''
       @ fmt_d (slot_manager_max (w_slots w) TIER_HUGE) @ [LF]
     @ [LF]
     @ ''# HELP rawrelay_rate_limiter_entries Current rate limiter table size'' @ [LF]
     @ ''# TYPE rawrelay_rate_limiter_entries gauge'' @ [LF]
     @ ''rawrelay_rate_limiter_entries{worker='' @ quoted (fmt_d (worker_id w)) @ ''} ''
       @ fmt_d (rate_limiter_get_entry_count (w_rate_limiter w)) @ [LF]"

definition metrics_extended :: "WorkerProcess \<Rightarrow> string" where
  "metrics_extended w =
     [LF]
     @ ''# HELP rawrelay_response_bytes_total Total response bytes sent'' @ [LF]
     @ ''# TYPE rawrelay_response_bytes_total counter'' @ [LF]
     @ ''rawrelay_response_bytes_total{worker='' @ quoted (fmt_d (worker_id w)) @ ''} ''
       @ fmt_u (unat (counters w Response_bytes_total)) @ [LF]
     @ [LF]
     @ ''# HELP rawrelay_slowloris_kills_total Connections killed by slowloris detection'' @ [LF]
     @ ''# TYPE rawrelay_slowloris_kills_total counter'' @ [LF]
     @ ''rawrelay_slowloris_kills_total{worker='' @ quoted (fmt_d (worker_id w)) @ ''} ''
       @ fmt_u (unat (counters w Slowloris_kills)) @ [LF]
     @ [LF]
     @ ''# HELP rawrelay_slot_promotion_failures_total Tier promotion failures due to no slots'' @ [LF]
     @ ''# TYPE rawrelay_slot_promotion_failures_total counter'' @ [LF]
     @ ''rawrelay_slot_promotion_failures_total{worker='' @ quoted (fmt_d (worker_id w)) @ ''} ''
       @ fmt_u (unat (counters w Slot_promotion_failures)) @ [LF]
     @ [LF]
     @ ''# HELP rawrelay_keepalive_reuses_total Requests served on reused keep-alive connections'' @ [LF]
     @ ''# TYPE rawrelay_keepalive_reuses_total counter'' @ [LF]
     @ ''rawrelay_keepalive_reuses_total{worker='' @ quoted (fmt_d (worker_id w)) @ ''} ''
       @ fmt_u (unat (counters w Keepalive_reuses)) @ [LF]"

definition metrics_endpoints :: "WorkerProcess \<Rightarrow> string" where
  "metrics_endpoints w =
     [LF]
     @ ''# HELP rawrelay_endpoint_requests_total Requests by endpoint'' @ [LF]
     @ ''# TYPE rawrelay_endpoint_requests_total counter'' @ [LF]
     @ ''rawrelay_endpoint_requests_total{worker='' @ quoted (fmt_d (worker_id w)) @ '',endpoint=''
       @ quoted ''/health'' @ ''} '' @ fmt_u (unat (counters w Endpoint_health)) @ [LF]
     @ ''rawrelay_endpoint_requests_total{worker='' @ quoted (fmt_d (worker_id w)) @ '',endpoint='' @ quoted ''/ready''
       @ ''} '' @ fmt_u (unat (counters w Endpoint_ready)) @ [LF]
     @ ''rawrelay_endpoint_requests_total{worker='' @ quoted (fmt_d (worker_id w)) @ '',endpoint='' @ quoted ''/alive''
       @ ''} '' @ fmt_u (unat (counters w Endpoint_alive)) @ [LF]
     @ ''rawrelay_endpoint_requests_total{worker='' @ quoted (fmt_d (worker_id w)) @ '',endpoint=''
       @ quoted ''/version'' @ ''} '' @ fmt_u (unat (counters w Endpoint_version)) @ [LF]
     @ ''rawrelay_endpoint_requests_total{worker='' @ quoted (fmt_d (worker_id w)) @ '',endpoint=''
       @ quoted ''/metrics'' @ ''} '' @ fmt_u (unat (counters w Endpoint_metrics)) @ [LF]
     @ ''rawrelay_endpoint_requests_total{worker='' @ quoted (fmt_d (worker_id w)) @ '',endpoint='' @ quoted ''/''
       @ ''} '' @ fmt_u (unat (counters w Endpoint_home)) @ [LF]
     @ ''rawrelay_endpoint_requests_total{worker='' @ quoted (fmt_d (worker_id w)) @ '',endpoint=''
       @ quoted ''/broadcast'' @ ''} '' @ fmt_u (unat (counters w Endpoint_broadcast)) @ [LF]
     @ ''rawrelay_endpoint_requests_total{worker='' @ quoted (fmt_d (worker_id w)) @ '',endpoint=''
       @ quoted ''/result'' @ ''} '' @ fmt_u (unat (counters w Endpoint_result)) @ [LF]
     @ ''rawrelay_endpoint_requests_total{worker='' @ quoted (fmt_d (worker_id w)) @ '',endpoint='' @ quoted ''/docs''
       @ ''} '' @ fmt_u (unat (counters w Endpoint_docs)) @ [LF]
     @ ''rawrelay_endpoint_requests_total{worker='' @ quoted (fmt_d (worker_id w)) @ '',endpoint=''
       @ quoted ''/status'' @ ''} '' @ fmt_u (unat (counters w Endpoint_status)) @ [LF]
     @ ''rawrelay_endpoint_requests_total{worker='' @ quoted (fmt_d (worker_id w)) @ '',endpoint='' @ quoted ''/logos''
       @ ''} '' @ fmt_u (unat (counters w Endpoint_logos)) @ [LF]
     @ ''rawrelay_endpoint_requests_total{worker='' @ quoted (fmt_d (worker_id w)) @ '',endpoint='' @ quoted ''/acme''
       @ ''} '' @ fmt_u (unat (counters w Endpoint_acme)) @ [LF]"

definition metrics_rpc :: "WorkerProcess \<Rightarrow> string" where
  "metrics_rpc w =
     [LF]
     @ ''# HELP rawrelay_rpc_broadcasts_total Total transaction broadcast attempts'' @ [LF]
     @ ''# TYPE rawrelay_rpc_broadcasts_total counter'' @ [LF]
     @ ''rawrelay_rpc_broadcasts_total{worker='' @ quoted (fmt_d (worker_id w)) @ ''} ''
       @ fmt_u (unat (total_broadcasts (w_rpc w))) @ [LF]
     @ [LF]
     @ ''# HELP rawrelay_rpc_broadcasts_success_total Successful transaction broadcasts'' @ [LF]
     @ ''# TYPE rawrelay_rpc_broadcasts_success_total counter'' @ [LF]
     @ ''rawrelay_rpc_broadcasts_success_total{worker='' @ quoted (fmt_d (worker_id w)) @ ''} ''
       @ fmt_u (unat (successful_broadcasts (w_rpc w))) @ [LF]
     @ [LF]
     @ ''# HELP rawrelay_rpc_broadcasts_failed_total Failed transaction broadcasts'' @ [LF]
     @ ''# TYPE rawrelay_rpc_broadcasts_failed_total counter'' @ [LF]
     @ ''rawrelay_rpc_broadcasts_failed_total{worker='' @ quoted (fmt_d (worker_id w)) @ ''} ''
       @ fmt_u (unat (failed_broadcasts (w_rpc w))) @ [LF]"

definition metrics_rpc_requests_head :: string where
  "metrics_rpc_requests_head =
     [LF]
     @ ''# HELP rawrelay_rpc_requests_total Total RPC requests to Bitcoin node'' @ [LF]
     @ ''# TYPE rawrelay_rpc_requests_total counter'' @ [LF]"

definition metrics_rpc_requests :: "string \<Rightarrow> RPCClient \<Rightarrow> WorkerProcess \<Rightarrow> string" where
  "metrics_rpc_requests name cl w =
     ''rawrelay_rpc_requests_total{worker='' @ quoted (fmt_d (worker_id w)) @ '',chain='' @ quoted name @ ''} ''
       @ fmt_u (unat (cl_request_count cl)) @ [LF]"

definition metrics_rpc_errors_head :: string where
  "metrics_rpc_errors_head =
     [LF]
     @ ''# HELP rawrelay_rpc_errors_total Total RPC errors by chain'' @ [LF]
     @ ''# TYPE rawrelay_rpc_errors_total counter'' @ [LF]"

definition metrics_rpc_errors :: "string \<Rightarrow> RPCClient \<Rightarrow> WorkerProcess \<Rightarrow> string" where
  "metrics_rpc_errors name cl w =
     ''rawrelay_rpc_errors_total{worker='' @ quoted (fmt_d (worker_id w)) @ '',chain='' @ quoted name @ ''} ''
       @ fmt_u (unat (cl_error_count cl)) @ [LF]"

definition metrics_rpc_up_head :: string where
  "metrics_rpc_up_head =
     [LF]
     @ ''# HELP rawrelay_rpc_node_up Bitcoin node availability (1=up, 0=down)'' @ [LF]
     @ ''# TYPE rawrelay_rpc_node_up gauge'' @ [LF]"

definition metrics_rpc_up :: "string \<Rightarrow> RPCClient \<Rightarrow> WorkerProcess \<Rightarrow> string" where
  "metrics_rpc_up name cl w =
     ''rawrelay_rpc_node_up{worker='' @ quoted (fmt_d (worker_id w)) @ '',chain='' @ quoted name @ ''} ''
       @ fmt_d (cl_available cl) @ [LF]"

text \<open>
  \<open>METRICS_ADVANCE\<close>: the text accepted so far and the bytes that remain. A section that does not
  fit, or an empty one, sets the remaining space to 0, which stops all later sections.
\<close>

definition metrics_advance :: "string \<Rightarrow> string \<times> nat \<Rightarrow> string \<times> nat" where
  "metrics_advance t st = (case st of (out, remaining) \<Rightarrow>
     if 0 < length t \<and> length t < remaining then (out @ t, remaining - length t) else (out, 0))"

definition rpc_chains :: "WorkerProcess \<Rightarrow> (string \<times> RPCClient) list" where
  "rpc_chains w = [(''mainnet'', mg_mainnet (w_rpc w)), (''testnet'', mg_testnet (w_rpc w)),
     (''signet'', mg_signet (w_rpc w)), (''regtest'', mg_regtest (w_rpc w))]"

text \<open>One of the three loops over the clients: a heading before the first configured client.\<close>

definition rpc_section :: "string \<Rightarrow> (string \<Rightarrow> RPCClient \<Rightarrow> WorkerProcess \<Rightarrow> string) \<Rightarrow> WorkerProcess \<Rightarrow> string list" where
  "rpc_section heading line w =
    (let cs = filter (\<lambda>(n, cl). cl_host cl \<noteq> []) (rpc_chains w) in
     if cs = [] then [] else heading # map (\<lambda>(n, cl). line n cl w) cs)"

definition metrics_sections :: "Env \<Rightarrow> WorkerProcess \<Rightarrow> string list" where
  "metrics_sections env w =
    [metrics_basic w, metrics_latency w, metrics_status w, metrics_methods w,
     metrics_process (elapsed_sec (e_rnd env) (e_now env) (w_start_time w)) w]
    @ (if get_open_fds env \<ge> 0 \<and> get_max_fds env \<ge> 0 then [metrics_fds (get_open_fds env) (get_max_fds env) w] else [])
    @ [metrics_tls w]
    @ (if tls_get_cert_expiry (w_tls w) > 0 then [metrics_cert (tls_get_cert_expiry (w_tls w)) w] else [])
    @ [metrics_http2 w, metrics_errors w, metrics_slots w, metrics_extended w, metrics_endpoints w, metrics_rpc w]
    @ rpc_section metrics_rpc_requests_head metrics_rpc_requests w
    @ rpc_section metrics_rpc_errors_head metrics_rpc_errors w
    @ rpc_section metrics_rpc_up_head metrics_rpc_up w"

definition generate_metrics_body :: "Env \<Rightarrow> WorkerProcess \<Rightarrow> nat \<Rightarrow> string \<times> nat" where
  "generate_metrics_body env w bufsize =
    (case fold metrics_advance (metrics_sections env w) ([], bufsize - 1) of
       (out, remaining) \<Rightarrow> (out, length out))"

subsection \<open>ACME challenges over HTTP/2\<close>

definition base64url :: "char \<Rightarrow> bool" where
  "base64url c = (let n = (of_char c :: nat) in
     (97 \<le> n \<and> n \<le> 122) \<or> (65 \<le> n \<and> n \<le> 90) \<or> (48 \<le> n \<and> n \<le> 57) \<or> c = CHR ''-'' \<or> c = CHR ''_'')"

text \<open>
  Opening, examining and reading the challenge file: the content, when the file opens, is
  regular, is at most 4096 bytes long and is read in full.
\<close>

definition read_challenge_file :: "Env \<Rightarrow> string \<Rightarrow> string option" where
  "read_challenge_file env filepath = (case e_open env filepath of
     None \<Rightarrow> None
   | Some (regular, st_size, bytes) \<Rightarrow>
      if \<not> regular then None
      else if 4096 < st_size then None
      else case bytes of None \<Rightarrow> None | Some content \<Rightarrow>
        if length content \<noteq> st_size then None else Some content)"

definition acme_challenge_h2 :: "Env \<Rightarrow> Config \<Rightarrow> string \<Rightarrow> string option" where
  "acme_challenge_h2 env cfg path =
    (let path_len = length path; prefix_len = 27 in
     if path_len < prefix_len + 2 \<or> hd path \<noteq> CHR ''/'' then None
     else let token = drop (1 + prefix_len) path; token_len = path_len - 1 - prefix_len in
       if strstr token ''..'' \<noteq> None \<or> memchr (CHR ''/'') token \<noteq> None \<or> memchr BSLASH token \<noteq> None then None
       else if \<not> list_all base64url token then None
       else let filepath = acme_challenge_dir cfg @ ''/'' @ token in
         if 512 \<le> length filepath then None
         else read_challenge_file env filepath)"

subsection \<open>Validation and counters\<close>

definition validate_hex_path :: "string \<Rightarrow> bool" where
  "validate_hex_path path =
    (if length path < 64 then True
     else let rest = (if 3 < length path \<and> has_prefix ''tx/'' path then drop 3 path else path) in
       is_all_hex rest)"

definition bump_if :: "bool \<Rightarrow> Counter \<Rightarrow> WorkerProcess \<Rightarrow> WorkerProcess" where
  "bump_if b c w = (if b then bump c w else w)"

definition update_latency_histogram :: "(rat \<Rightarrow> rat) \<Rightarrow> rat \<Rightarrow> WorkerProcess \<Rightarrow> WorkerProcess" where
  "update_latency_histogram rnd duration_sec w0 =
    (let w1 = bump_if (duration_sec \<le> rnd (1 / 1000)) Latency_bucket_1ms w0;
         w2 = bump_if (duration_sec \<le> rnd (5 / 1000)) Latency_bucket_5ms w1;
         w3 = bump_if (duration_sec \<le> rnd (1 / 100)) Latency_bucket_10ms w2;
         w4 = bump_if (duration_sec \<le> rnd (5 / 100)) Latency_bucket_50ms w3;
         w5 = bump_if (duration_sec \<le> rnd (1 / 10)) Latency_bucket_100ms w4;
         w6 = bump_if (duration_sec \<le> rnd (5 / 10)) Latency_bucket_500ms w5;
         w7 = bump_if (duration_sec \<le> 1) Latency_bucket_1s w6;
         w8 = bump_if (duration_sec \<le> 5) Latency_bucket_5s w7;
         w9 = bump Latency_bucket_inf w8 in
     w9\<lparr>latency_sum_seconds := rnd (latency_sum_seconds w9 + duration_sec)\<rparr>)"

definition update_status_counters :: "int \<Rightarrow> WorkerProcess \<Rightarrow> WorkerProcess" where
  "update_status_counters status w =
    (let w1 = (if 200 \<le> status \<and> status < 300 then bump Status_2xx w
               else if 400 \<le> status \<and> status < 500 then bump Status_4xx w
               else if 500 \<le> status \<and> status < 600 then bump Status_5xx w else w) in
     if status = 200 then bump Status_200 w1
     else if status = 400 then bump Status_400 w1
     else if status = 404 then bump Status_404 w1
     else if status = 408 then bump Status_408 w1
     else if status = 429 then bump Status_429 w1
     else if status = 503 then bump Status_503 w1
     else w1)"

definition update_method_counters :: "string option \<Rightarrow> WorkerProcess \<Rightarrow> WorkerProcess" where
  "update_method_counters meth w = (case meth of
     None \<Rightarrow> bump Method_other w
   | Some m \<Rightarrow>
      if m = [] then bump Method_other w
      else if m = ''GET'' then bump Method_get w
      else if m = ''POST'' then bump Method_post w
      else bump Method_other w)"

fun update_endpoint_counter :: "RouteType \<Rightarrow> WorkerProcess \<Rightarrow> WorkerProcess" where
  "update_endpoint_counter ROUTE_HEALTH w = bump Endpoint_health w"
| "update_endpoint_counter ROUTE_READY w = bump Endpoint_ready w"
| "update_endpoint_counter ROUTE_ALIVE w = bump Endpoint_alive w"
| "update_endpoint_counter ROUTE_VERSION w = bump Endpoint_version w"
| "update_endpoint_counter ROUTE_METRICS w = bump Endpoint_metrics w"
| "update_endpoint_counter ROUTE_HOME w = bump Endpoint_home w"
| "update_endpoint_counter ROUTE_BROADCAST w = bump Endpoint_broadcast w"
| "update_endpoint_counter ROUTE_RESULT w = bump Endpoint_result w"
| "update_endpoint_counter ROUTE_DOCS w = bump Endpoint_docs w"
| "update_endpoint_counter ROUTE_STATUS w = bump Endpoint_status w"
| "update_endpoint_counter ROUTE_LOGOS w = bump Endpoint_logos w"
| "update_endpoint_counter ROUTE_ACME_CHALLENGE w = bump Endpoint_acme w"
| "update_endpoint_counter ROUTE_ERROR w = w"

subsection \<open>What the counters leave alone\<close>

lemma bump_if_frame [simp]:
  "w_rate_limiter (bump_if b c w) = w_rate_limiter w" "w_ip_acl (bump_if b c w) = w_ip_acl w"
  "w_static_files (bump_if b c w) = w_static_files w"
  "w_slots (bump_if b c w) = w_slots w" "active_connections (bump_if b c w) = active_connections w"
  "draining (bump_if b c w) = draining w" "h2_streams_active (bump_if b c w) = h2_streams_active w"
  "loopexit (bump_if b c w) = loopexit w" "w_config (bump_if b c w) = w_config w"
  "listener_disabled (bump_if b c w) = listener_disabled w"
  "tls_listener_disabled (bump_if b c w) = tls_listener_disabled w"
  "w_listener (bump_if b c w) = w_listener w" "w_tls_listener (bump_if b c w) = w_tls_listener w"
  by (simp_all add: bump_if_def)

lemma counters_bump_if: "counters (bump_if b c w) d = (if b \<and> c = d then counters w d + 1 else counters w d)"
  by (simp add: bump_if_def counters_bump)

lemma update_latency_frame [simp]:
  "w_rate_limiter (update_latency_histogram r d w) = w_rate_limiter w" "w_ip_acl (update_latency_histogram r d w) = w_ip_acl w"
  "w_static_files (update_latency_histogram r d w) = w_static_files w"
  "w_slots (update_latency_histogram r d w) = w_slots w"
  "active_connections (update_latency_histogram r d w) = active_connections w"
  "draining (update_latency_histogram r d w) = draining w"
  "h2_streams_active (update_latency_histogram r d w) = h2_streams_active w"
  "loopexit (update_latency_histogram r d w) = loopexit w" "w_config (update_latency_histogram r d w) = w_config w"
  "listener_disabled (update_latency_histogram r d w) = listener_disabled w"
  "tls_listener_disabled (update_latency_histogram r d w) = tls_listener_disabled w"
  "w_listener (update_latency_histogram r d w) = w_listener w"
  "w_tls_listener (update_latency_histogram r d w) = w_tls_listener w"
  by (simp_all add: update_latency_histogram_def Let_def)

lemma update_status_frame [simp]:
  "w_rate_limiter (update_status_counters s w) = w_rate_limiter w" "w_ip_acl (update_status_counters s w) = w_ip_acl w"
  "w_static_files (update_status_counters s w) = w_static_files w"
  "w_slots (update_status_counters s w) = w_slots w"
  "active_connections (update_status_counters s w) = active_connections w"
  "draining (update_status_counters s w) = draining w"
  "h2_streams_active (update_status_counters s w) = h2_streams_active w"
  "loopexit (update_status_counters s w) = loopexit w" "w_config (update_status_counters s w) = w_config w"
  "listener_disabled (update_status_counters s w) = listener_disabled w"
  "tls_listener_disabled (update_status_counters s w) = tls_listener_disabled w"
  "w_listener (update_status_counters s w) = w_listener w"
  "w_tls_listener (update_status_counters s w) = w_tls_listener w"
  by (simp_all add: update_status_counters_def Let_def)

lemma update_method_frame [simp]:
  "w_rate_limiter (update_method_counters m w) = w_rate_limiter w" "w_ip_acl (update_method_counters m w) = w_ip_acl w"
  "w_static_files (update_method_counters m w) = w_static_files w"
  "w_slots (update_method_counters m w) = w_slots w"
  "active_connections (update_method_counters m w) = active_connections w"
  "draining (update_method_counters m w) = draining w"
  "h2_streams_active (update_method_counters m w) = h2_streams_active w"
  "loopexit (update_method_counters m w) = loopexit w" "w_config (update_method_counters m w) = w_config w"
  "listener_disabled (update_method_counters m w) = listener_disabled w"
  "tls_listener_disabled (update_method_counters m w) = tls_listener_disabled w"
  "w_listener (update_method_counters m w) = w_listener w"
  "w_tls_listener (update_method_counters m w) = w_tls_listener w"
  by (simp_all add: update_method_counters_def split: option.split)

lemma update_endpoint_frame [simp]:
  "w_rate_limiter (update_endpoint_counter r w) = w_rate_limiter w" "w_ip_acl (update_endpoint_counter r w) = w_ip_acl w"
  "w_slots (update_endpoint_counter r w) = w_slots w"
  "active_connections (update_endpoint_counter r w) = active_connections w"
  "draining (update_endpoint_counter r w) = draining w"
  "h2_streams_active (update_endpoint_counter r w) = h2_streams_active w"
  "loopexit (update_endpoint_counter r w) = loopexit w" "w_config (update_endpoint_counter r w) = w_config w"
  "listener_disabled (update_endpoint_counter r w) = listener_disabled w"
  "tls_listener_disabled (update_endpoint_counter r w) = tls_listener_disabled w"
  "w_listener (update_endpoint_counter r w) = w_listener w"
  "w_tls_listener (update_endpoint_counter r w) = w_tls_listener w"
  "w_static_files (update_endpoint_counter r w) = w_static_files w"
  by (cases r; simp add: bump_def)+

subsection \<open>Bodies\<close>

text \<open>The length reported for the health body is the length of the text stored.\<close>

lemma generate_health_length:
  assumes "generate_health_body env w n = (body, len)" "0 < n"
  shows "len = length body \<and> len < n"
  using assms by (auto simp: generate_health_body_def Let_def snprintf_buf_def min_def)

text \<open>Appending sections keeps the text and the remaining space complementary.\<close>

lemma metrics_advance_pair:
  "metrics_advance t (out, r) = (if t \<noteq> [] \<and> length t < r then (out @ t, r - length t) else (out, 0))"
  by (simp add: metrics_advance_def)

lemma metrics_fold:
  assumes "fold metrics_advance ts (out, r) = (out', r')"
  shows "\<exists>k \<le> length ts. out' = out @ concat (take k ts) \<and> length out' \<le> length out + r
     \<and> (length (concat ts) < r \<and> (\<forall>t \<in> set ts. t \<noteq> []) \<longrightarrow> k = length ts)"
  using assms
proof (induction ts arbitrary: out r)
  case Nil
  then show ?case by simp
next
  case (Cons t ts)
  show ?case
  proof (cases "0 < length t \<and> length t < r")
    case True
    then have f: "fold metrics_advance ts (out @ t, r - length t) = (out', r')"
      using Cons.prems by (simp add: metrics_advance_pair)
    obtain k where k: "k \<le> length ts" "out' = (out @ t) @ concat (take k ts)"
      "length out' \<le> length (out @ t) + (r - length t)"
      "length (concat ts) < r - length t \<and> (\<forall>t \<in> set ts. t \<noteq> []) \<longrightarrow> k = length ts"
      using Cons.IH [OF f] by blast
    have "out' = out @ concat (take (Suc k) (t # ts))" using k(2) by simp
    moreover have "length out' \<le> length out + r" using k(3) True by simp
    moreover have "length (concat (t # ts)) < r \<and> (\<forall>x \<in> set (t # ts). x \<noteq> []) \<longrightarrow> Suc k = length (t # ts)"
      using k(4) True by auto
    ultimately show ?thesis using k(1) by (intro exI [of _ "Suc k"]) simp
  next
    case False
    have "fold metrics_advance ts (o1, 0) = (o1, 0)" for o1
      by (induction ts) (simp_all add: metrics_advance_pair)
    then have "out' = out" using Cons.prems False by (auto simp: metrics_advance_pair split: if_splits)
    then show ?thesis using False by (intro exI [of _ 0]) auto
  qed
qed

text \<open>
  C17. The metrics page never overruns its buffer: the text has fewer bytes than the buffer, so the
  final terminator is stored inside it, the length reported is the text's, and the text consists
  of the first sections in full, so a full buffer never cuts a metric in the middle.
\<close>

theorem metrics_body_whole_sections:
  assumes "generate_metrics_body env w bufsize = (body, len)" and "0 < bufsize"
  shows "len = length body \<and> len < bufsize \<and> (\<exists>k. body = concat (take k (metrics_sections env w)))"
proof -
  obtain r where f: "fold metrics_advance (metrics_sections env w) ([], bufsize - 1) = (body, r)"
    and len: "len = length body"
    using assms(1) by (auto simp: generate_metrics_body_def split: prod.splits)
  show ?thesis using metrics_fold [OF f] len assms(2) by auto
qed

theorem metrics_body_whole_sections_witness:
  "\<forall>env w. let (body, len) = generate_metrics_body env w 16384 in
     len = length body \<and> len < 16384 \<and> (\<exists>k. body = concat (take k (metrics_sections env w)))"
  using metrics_body_whole_sections [of _ _ 16384] by (auto simp: Let_def split: prod.split)

subsection \<open>The latency histogram\<close>

definition histogram :: "WorkerProcess \<Rightarrow> u64 list" where
  "histogram w = map (counters w) [Latency_bucket_1ms, Latency_bucket_5ms, Latency_bucket_10ms,
     Latency_bucket_50ms, Latency_bucket_100ms, Latency_bucket_500ms, Latency_bucket_1s,
     Latency_bucket_5s, Latency_bucket_inf]"

lemma bump_le:
  fixes x y :: u64
  assumes "x \<le> y" "y < - 1" "b1 \<Longrightarrow> b2"
  shows "(if b1 then x + 1 else x) \<le> (if b2 then y + 1 else y)"
proof -
  have "unat y < 2 ^ 64 - 1" using assms(2) by (simp add: word_less_nat_alt unsigned_minus_1_eq_mask mask_eq_exp_minus_1)
  moreover have "unat x \<le> unat y" using assms(1) by (simp add: word_le_nat_alt)
  ultimately have "unat (y + 1) = unat y + 1" "unat (x + 1) = unat x + 1"
    by (simp_all add: unat_word_ariths)
  then show ?thesis using assms(3) \<open>unat x \<le> unat y\<close> by (auto simp: word_le_nat_alt)
qed

text \<open>
  C18. The latency histogram stays cumulative: with every recorded duration each bucket still
  counts at most what the next larger bucket counts, whatever the rounding of the duration and of
  the bucket limits, as long as the total count has not reached its maximum.
\<close>

theorem histogram_cumulative:
  assumes "sorted (histogram w)" and "counters w Latency_bucket_inf < - 1"
    and "mono rnd" and "rnd 1 = 1" and "rnd 5 = 5"
  shows "sorted (histogram (update_latency_histogram rnd d w))"
proof -
  have m: "x \<le> y \<Longrightarrow> rnd x \<le> rnd y" for x y using assms(3) by (auto simp: mono_def)
  have le: "rnd (1 / 1000) \<le> rnd (5 / 1000)" "rnd (5 / 1000) \<le> rnd (1 / 100)" "rnd (1 / 100) \<le> rnd (5 / 100)"
    "rnd (5 / 100) \<le> rnd (1 / 10)" "rnd (1 / 10) \<le> rnd (5 / 10)" "rnd (5 / 10) \<le> 1"
    using m [of "1 / 1000" "5 / 1000"] m [of "5 / 1000" "1 / 100"] m [of "1 / 100" "5 / 100"]
      m [of "5 / 100" "1 / 10"] m [of "1 / 10" "5 / 10"] m [of "5 / 10" 1] assms(4) by simp_all
  let ?c = "counters w"
  have s: "?c Latency_bucket_1ms \<le> ?c Latency_bucket_5ms" "?c Latency_bucket_5ms \<le> ?c Latency_bucket_10ms"
    "?c Latency_bucket_10ms \<le> ?c Latency_bucket_50ms" "?c Latency_bucket_50ms \<le> ?c Latency_bucket_100ms"
    "?c Latency_bucket_100ms \<le> ?c Latency_bucket_500ms" "?c Latency_bucket_500ms \<le> ?c Latency_bucket_1s"
    "?c Latency_bucket_1s \<le> ?c Latency_bucket_5s" "?c Latency_bucket_5s \<le> ?c Latency_bucket_inf"
    using assms(1) by (simp_all add: histogram_def)
  have lt: "?c Latency_bucket_5s < - 1" "?c Latency_bucket_1s < - 1" "?c Latency_bucket_500ms < - 1"
    "?c Latency_bucket_100ms < - 1" "?c Latency_bucket_50ms < - 1" "?c Latency_bucket_10ms < - 1"
    "?c Latency_bucket_5ms < - 1"
    using s assms(2) by (meson order_le_less_trans)+
  let ?h = "histogram (update_latency_histogram rnd d w)"
  have nth: "?h = [if d \<le> rnd (1 / 1000) then ?c Latency_bucket_1ms + 1 else ?c Latency_bucket_1ms,
      if d \<le> rnd (5 / 1000) then ?c Latency_bucket_5ms + 1 else ?c Latency_bucket_5ms,
      if d \<le> rnd (1 / 100) then ?c Latency_bucket_10ms + 1 else ?c Latency_bucket_10ms,
      if d \<le> rnd (5 / 100) then ?c Latency_bucket_50ms + 1 else ?c Latency_bucket_50ms,
      if d \<le> rnd (1 / 10) then ?c Latency_bucket_100ms + 1 else ?c Latency_bucket_100ms,
      if d \<le> rnd (5 / 10) then ?c Latency_bucket_500ms + 1 else ?c Latency_bucket_500ms,
      if d \<le> 1 then ?c Latency_bucket_1s + 1 else ?c Latency_bucket_1s,
      if d \<le> 5 then ?c Latency_bucket_5s + 1 else ?c Latency_bucket_5s,
      if True then ?c Latency_bucket_inf + 1 else ?c Latency_bucket_inf]"
    by (simp add: histogram_def update_latency_histogram_def Let_def counters_bump_if counters_bump)
  show ?thesis
    unfolding nth sorted2_simps(2)
    by (intro conjI bump_le s lt assms(2) TrueI) (use le in auto)
qed

theorem histogram_cumulative_witness:
  "\<forall>w0. sorted (histogram (update_latency_histogram id (3 / 100) (w0\<lparr>counters := \<lambda>_. 0\<rparr>)))"
  by (intro allI histogram_cumulative)
    (simp_all add: histogram_def mono_def word_less_nat_alt unsigned_minus_1_eq_mask mask_eq_exp_minus_1)

end
