(* ===== verification/Http2.thy ===== *)
theory Http2
  imports Endpoints
begin

text \<open>
  \<^verbatim>\<open>src/src/http2.c\<close>: the HTTP/2 session of a connection. nghttp2 is not part of the repository:
  what it does with received bytes is the sequence of callbacks it makes (\<open>H2Event\<close>), an input of
  the model, and what is handed to it (responses, stream resets, settings) is recorded in the
  session. \<open>nghttp2_session_send\<close> may end streams whose response is complete: the identifiers it
  closes are part of the event, and each runs \<open>h2_on_stream_close_callback\<close>.

  Each callback is a function of the worker and the connection. A stream pointer obtained from
  \<open>h2_stream_find\<close> is the first list element with that identifier; a write through it updates
  that element.
\<close>

definition H2_MAX_CONCURRENT_STREAMS :: nat where "H2_MAX_CONCURRENT_STREAMS = 100"
definition H2_INITIAL_WINDOW_SIZE :: nat where "H2_INITIAL_WINDOW_SIZE = 2 ^ 20"
definition H2_CONNECTION_WINDOW_SIZE :: nat where "H2_CONNECTION_WINDOW_SIZE = 16 * 1024 * 1024"

fun upd_first :: "('a \<Rightarrow> bool) \<Rightarrow> ('a \<Rightarrow> 'a) \<Rightarrow> 'a list \<Rightarrow> 'a list" where
  "upd_first P f [] = []"
| "upd_first P f (x # xs) = (if P x then f x # xs else x # upd_first P f xs)"

fun del_first :: "('a \<Rightarrow> bool) \<Rightarrow> 'a list \<Rightarrow> 'a list" where
  "del_first P [] = []"
| "del_first P (x # xs) = (if P x then xs else x # del_first P xs)"

definition h2_stream_find :: "H2Connection \<Rightarrow> int \<Rightarrow> H2Stream option" where
  "h2_stream_find h2 sid = find (\<lambda>s. stream_id s = sid) (h2_streams h2)"

definition h2_stream_upd :: "int \<Rightarrow> (H2Stream \<Rightarrow> H2Stream) \<Rightarrow> H2Connection \<Rightarrow> H2Connection" where
  "h2_stream_upd sid f h2 = h2\<lparr>h2_streams := upd_first (\<lambda>s. stream_id s = sid) f (h2_streams h2)\<rparr>"

text \<open>Linking a new stream into the list of its session.\<close>

definition h2_list_add :: "H2Stream \<Rightarrow> H2Connection \<Rightarrow> H2Connection" where
  [simp]: "h2_list_add stream h2 = h2\<lparr>h2_streams := stream # h2_streams h2, h2_stream_count := h2_stream_count h2 + 1\<rparr>"

definition h2_stream_new :: "Env \<Rightarrow> WorkerProcess \<Rightarrow> H2Connection \<Rightarrow> int \<Rightarrow> (WorkerProcess \<times> H2Connection) option" where
  "h2_stream_new env w h2 sid =
    (if \<not> e_malloc env 0 then None
     else let stream = \<lparr>stream_id = sid, hs_state = H2_STREAM_OPEN, hs_tier = TIER_NORMAL, slot_acquired = False,
            hs_method = None, hs_path = None, hs_path_len = 0, hs_authority = None, hs_scheme = None,
            hs_content_length = 0, hs_body_received = 0,
            hs_request_id = snprintf_buf 32 (fmt_d (worker_id w) @ ''-'' @ fmt_x (stamp_usec (e_now env)) @ ''-''
               @ fmt_x (unat (h2_request_counter w)) @ ''-s'' @ fmt_d sid),
            hs_start_time = e_now env, hs_response_status = 0, hs_response_bytes = 0, hs_body_source = None\<rparr>;
          h2' = h2_list_add stream h2;
          w' = bump H2_streams_total (w\<lparr>h2_request_counter := h2_request_counter w + 1,
                 h2_streams_active := h2_streams_active w + 1\<rparr>)
       in Some (w', h2'))"

definition h2_stream_free :: "WorkerProcess \<Rightarrow> H2Connection \<Rightarrow> H2Stream \<Rightarrow> WorkerProcess \<times> H2Connection" where
  "h2_stream_free w h2 stream =
    (let w1 = (if slot_acquired stream
               then w\<lparr>w_slots := slot_manager_release (w_slots w) (hs_tier stream)\<rparr> else w);
         h2' = h2\<lparr>h2_streams := del_first (\<lambda>s. stream_id s = stream_id stream) (h2_streams h2),
                 h2_stream_count := h2_stream_count h2 - 1\<rparr>;
         w2 = (if h2_streams_active w1 > 0 then w1\<lparr>h2_streams_active := h2_streams_active w1 - 1\<rparr> else w1)
     in (w2, h2'))"

definition h2_downgrade_tier_to_normal :: "WorkerProcess \<Rightarrow> H2Connection \<Rightarrow> int \<Rightarrow> WorkerProcess \<times> H2Connection" where
  "h2_downgrade_tier_to_normal w h2 sid = (case h2_stream_find h2 sid of
     None \<Rightarrow> (w, h2)
   | Some stream \<Rightarrow>
      if \<not> slot_acquired stream \<or> hs_tier stream = TIER_NORMAL then (w, h2)
      else let sm1 = slot_manager_release (w_slots w) (hs_tier stream) in
        (case slot_manager_acquire sm1 TIER_NORMAL of
           (True, sm2) \<Rightarrow> (w\<lparr>w_slots := sm2\<rparr>, h2_stream_upd sid (\<lambda>s. s\<lparr>hs_tier := TIER_NORMAL\<rparr>) h2)
         | (False, sm2) \<Rightarrow>
            (case slot_manager_acquire sm2 (hs_tier stream) of
               (True, sm3) \<Rightarrow> (w\<lparr>w_slots := sm3\<rparr>, h2)
             | (False, sm3) \<Rightarrow> (w\<lparr>w_slots := sm3\<rparr>, h2_stream_upd sid (\<lambda>s. s\<lparr>slot_acquired := False\<rparr>) h2))))"

text \<open>The stream-close callback. Writing the access log is output and is left out.\<close>

definition h2_on_stream_close_callback :: "Env \<Rightarrow> int \<Rightarrow> WorkerProcess \<times> H2Connection \<Rightarrow> WorkerProcess \<times> H2Connection" where
  "h2_on_stream_close_callback env sid st = (case st of (w, h2) \<Rightarrow>
     case h2_stream_find h2 sid of
       None \<Rightarrow> (w, h2)
     | Some stream \<Rightarrow>
        let w1 = (if hs_response_status stream > 0 then
              let duration_ms = elapsed_ms (e_rnd env) (e_now env) (hs_start_time stream);
                  duration_sec = e_rnd env (duration_ms / 1000) in
              bump_by Response_bytes_total (hs_response_bytes stream)
                (update_method_counters (hs_method stream)
                  (update_status_counters (hs_response_status stream)
                    (update_latency_histogram (e_rnd env) duration_sec w)))
            else w);
            closed = stream\<lparr>hs_state := H2_STREAM_CLOSED\<rparr>;
            h2' = h2_stream_upd sid (\<lambda>_. closed) h2
        in h2_stream_free w1 h2' closed)"

text \<open>
  \<open>h2_send_pending\<close>: the session sends what is queued, during which the streams \<open>closes\<close> end.
\<close>

definition h2_send_pending :: "Env \<Rightarrow> int list \<Rightarrow> WorkerProcess \<times> H2Connection \<Rightarrow> (WorkerProcess \<times> H2Connection) \<times> int" where
  "h2_send_pending env closes st =
    (fold (h2_on_stream_close_callback env) closes st, if e_h2_send_ok env then 0 else -1)"

definition cache_control_value :: "Config \<Rightarrow> int \<Rightarrow> string \<Rightarrow> string" where
  "cache_control_value cfg status_code content_type =
    (if status_code = 200 \<and> cache_max_age cfg > 0 \<and> content_type = ''text/html; charset=utf-8''
     then ''public, max-age='' @ fmt_d (cache_max_age cfg) else ''no-store'')"

definition h2_response_headers :: "Config \<Rightarrow> string \<Rightarrow> int \<Rightarrow> string \<Rightarrow> nat \<Rightarrow> (string \<times> string) list" where
  "h2_response_headers cfg rid status_code content_type body_len =
    [('':status'', fmt_d status_code), (''content-type'', content_type), (''content-length'', fmt_u body_len),
     (''x-request-id'', rid), (''cache-control'', cache_control_value cfg status_code content_type)]"

definition h2_send_response ::
    "Env \<Rightarrow> int list \<Rightarrow> int \<Rightarrow> int \<Rightarrow> string \<Rightarrow> string \<Rightarrow> WorkerProcess \<times> H2Connection
     \<Rightarrow> (WorkerProcess \<times> H2Connection) \<times> int" where
  "h2_send_response env closes sid status_code content_type body st = (case st of (w, h2) \<Rightarrow>
     let rid = (case h2_stream_find h2 sid of None \<Rightarrow> [] | Some s \<Rightarrow> hs_request_id s);
         hdrs = h2_response_headers (w_config w) rid status_code content_type (length body) in
     if \<not> e_malloc env 1 then (st, -1)
     else if body \<noteq> [] \<and> \<not> e_malloc env 2 then (st, -1)
     else if \<not> e_malloc env 3 then (st, -1)
     else let src = \<lparr>bs_data = body, bs_len = length body, bs_pos = 0\<rparr>;
              h2a = h2\<lparr>h2_submitted := \<lparr>h2r_stream = sid, h2r_headers = hdrs, h2r_body = body\<rparr> # h2_submitted h2\<rparr>;
              h2b = h2_stream_upd sid (\<lambda>s. s\<lparr>hs_body_source := Some src\<rparr>) h2a
          in h2_send_pending env closes (w, h2b))"

text \<open>
  The allocation sites of \<open>h2_send_response\<close> are 1 (the body source), 2 (the copy of a non-empty
  body) and 3 (\<open>nghttp2_submit_response\<close> accepting the response).
\<close>

text \<open>The data provider: up to \<open>n\<close> bytes from the position, and whether that was the end.\<close>

definition h2_body_read_callback :: "H2BodySource \<Rightarrow> nat \<Rightarrow> string \<times> H2BodySource \<times> bool" where
  "h2_body_read_callback bs n =
    (let remaining = bs_len bs - bs_pos bs; to_copy = (if remaining < n then remaining else n);
         bs' = bs\<lparr>bs_pos := bs_pos bs + to_copy\<rparr> in
     (take to_copy (drop (bs_pos bs) (bs_data bs)), bs', bs_len bs' \<le> bs_pos bs'))"

definition serve_acme_challenge_h2 ::
    "Env \<Rightarrow> int list \<Rightarrow> int \<Rightarrow> string \<Rightarrow> WorkerProcess \<times> H2Connection \<Rightarrow> (WorkerProcess \<times> H2Connection) \<times> int" where
  "serve_acme_challenge_h2 env closes sid path st =
    (case acme_challenge_h2 env (w_config (fst st)) path of
       Some content \<Rightarrow> (fst (h2_send_response env closes sid 200 ''text/plain'' content st), int (length content))
     | None \<Rightarrow> (fst (h2_send_response env closes sid 404 ''text/plain'' ''Not Found'' st), -1))"

fun static_file_for :: "StaticFiles \<Rightarrow> RouteType \<Rightarrow> StaticFile" where
  "static_file_for fs ROUTE_HOME = sf_index fs"
| "static_file_for fs ROUTE_BROADCAST = sf_broadcast fs"
| "static_file_for fs ROUTE_RESULT = sf_result fs"
| "static_file_for fs ROUTE_DOCS = sf_docs fs"
| "static_file_for fs ROUTE_STATUS = sf_status fs"
| "static_file_for fs ROUTE_LOGOS = sf_logos fs"
| "static_file_for fs _ = sf_error fs"

definition version_body :: string where
  "version_body = ''{'' @ quoted ''version'' @ '':'' @ quoted ''0.1.0'' @ ''}''"

text \<open>The path of a stream as the router sees it: \<open>path_len\<close> bytes at \<open>path\<close>.\<close>

definition stream_path :: "H2Stream \<Rightarrow> string" where
  "stream_path s = take (hs_path_len s) (case hs_path s of None \<Rightarrow> [] | Some p \<Rightarrow> p)"

text \<open>The response of each route, and the status and length the stream records for the log.\<close>

definition h2_respond ::
    "Env \<Rightarrow> int list \<Rightarrow> int \<Rightarrow> string \<Rightarrow> RouteType \<Rightarrow> WorkerProcess \<times> H2Connection
     \<Rightarrow> (WorkerProcess \<times> H2Connection) \<times> int \<times> nat" where
  "h2_respond env closes sid path route st = (case st of (w, h2) \<Rightarrow>
     case route of
       ROUTE_HEALTH \<Rightarrow> (case generate_health_body env w 1024 of (body, len) \<Rightarrow>
         (fst (h2_send_response env closes sid 200 ''application/json'' body st), 200, len))
     | ROUTE_READY \<Rightarrow> (let code = (if draining w then 503 else 200) in
         (fst (h2_send_response env closes sid code ''text/plain'' [] st), code, 0))
     | ROUTE_ALIVE \<Rightarrow> (fst (h2_send_response env closes sid 200 ''text/plain'' [] st), 200, 0)
     | ROUTE_VERSION \<Rightarrow>
         (fst (h2_send_response env closes sid 200 ''application/json'' version_body st), 200, length version_body)
     | ROUTE_METRICS \<Rightarrow> (case generate_metrics_body env w 16384 of (body, len) \<Rightarrow>
         (fst (h2_send_response env closes sid 200 ''text/plain; version=0.0.4; charset=utf-8'' body st), 200, len))
     | ROUTE_ACME_CHALLENGE \<Rightarrow> (case serve_acme_challenge_h2 env closes sid path st of (st', acme_len) \<Rightarrow>
         if acme_len > 0 then (st', 200, nat acme_len) else (st', 404, 9))
     | _ \<Rightarrow> (let file = static_file_for (w_static_files w) route; code = (if route = ROUTE_ERROR then 404 else 200) in
         (fst (h2_send_response env closes sid code (sf_content_type file) (take (sf_length file) (sf_content file)) st),
          code, sf_length file)))"

definition h2_process_stream_request ::
    "Env \<Rightarrow> int list \<Rightarrow> int \<Rightarrow> H2Stream \<Rightarrow> WorkerProcess \<times> H2Connection \<Rightarrow> WorkerProcess \<times> H2Connection" where
  "h2_process_stream_request env closes sid stream st = (case st of (w, h2) \<Rightarrow>
     let path = stream_path stream; route = route_request path;
         w1 = update_endpoint_counter route w in
     case h2_respond env closes sid path route (w1, h2) of ((w2, h2b), status_code, body_len) \<Rightarrow>
       h2_downgrade_tier_to_normal w2
         (h2_stream_upd sid (\<lambda>s. s\<lparr>hs_response_status := status_code, hs_response_bytes := body_len\<rparr>) h2b) sid)"

subsection \<open>Callbacks\<close>

datatype H2FrameType = NGHTTP2_HEADERS | NGHTTP2_DATA | NGHTTP2_OTHER

datatype H2Ret = NGHTTP2_OK | NGHTTP2_ERR_TEMPORAL_CALLBACK_FAILURE

definition h2_on_frame_recv_callback ::
    "Env \<Rightarrow> int list \<Rightarrow> H2FrameType \<Rightarrow> int \<Rightarrow> bool \<Rightarrow> WorkerProcess \<times> H2Connection \<Rightarrow> WorkerProcess \<times> H2Connection" where
  "h2_on_frame_recv_callback env closes ftype sid end_stream st = (case st of (w, h2) \<Rightarrow>
     if (ftype = NGHTTP2_HEADERS \<or> ftype = NGHTTP2_DATA) \<and> end_stream then
       (case h2_stream_find h2 sid of
          None \<Rightarrow> st
        | Some stream \<Rightarrow>
           let stream' = stream\<lparr>hs_state := H2_STREAM_HALF_CLOSED_REMOTE\<rparr>;
               h2' = h2_stream_upd sid (\<lambda>_. stream') h2 in
           h2_process_stream_request env closes sid stream' (w, h2'))
     else st)"

definition h2_on_begin_headers_callback ::
    "Env \<Rightarrow> H2FrameType \<Rightarrow> bool \<Rightarrow> int \<Rightarrow> WorkerProcess \<times> H2Connection \<Rightarrow> (WorkerProcess \<times> H2Connection) \<times> H2Ret" where
  "h2_on_begin_headers_callback env ftype cat_request sid st = (case st of (w, h2) \<Rightarrow>
     if ftype \<noteq> NGHTTP2_HEADERS \<or> \<not> cat_request then (st, NGHTTP2_OK)
     else case slot_manager_acquire (w_slots w) TIER_NORMAL of
       (False, sm) \<Rightarrow> ((bump H2_rst_stream_total (w\<lparr>w_slots := sm\<rparr>), h2), NGHTTP2_ERR_TEMPORAL_CALLBACK_FAILURE)
     | (True, sm) \<Rightarrow>
        (case h2_stream_new env (w\<lparr>w_slots := sm\<rparr>) h2 sid of
           None \<Rightarrow> ((bump H2_rst_stream_total (w\<lparr>w_slots := slot_manager_release sm TIER_NORMAL\<rparr>), h2),
                    NGHTTP2_ERR_TEMPORAL_CALLBACK_FAILURE)
         | Some (w', h2') \<Rightarrow>
            ((w', h2_stream_upd sid (\<lambda>s. s\<lparr>slot_acquired := True, hs_tier := TIER_NORMAL\<rparr>) h2'), NGHTTP2_OK)))"

text \<open>\<open>:path\<close>: stored, validated when long, and the stream promoted to the tier of its length.\<close>

definition h2_on_path_header ::
    "int \<Rightarrow> string \<Rightarrow> H2Stream \<Rightarrow> WorkerProcess \<times> H2Connection \<Rightarrow> (WorkerProcess \<times> H2Connection) \<times> H2Ret" where
  "h2_on_path_header sid v stream st = (case st of (w, h2) \<Rightarrow>
     let h2a = h2_stream_upd sid (\<lambda>s. s\<lparr>hs_path := Some (cstr v), hs_path_len := length v\<rparr>) h2 in
     if 1 < length v \<and> \<not> validate_hex_path (drop 1 v) then
       ((bump Errors_parse (bump H2_rst_stream_total w), h2a\<lparr>h2_rst_submitted := sid # h2_rst_submitted h2a\<rparr>),
        NGHTTP2_ERR_TEMPORAL_CALLBACK_FAILURE)
     else let required = size_to_tier (length v) (w_config w) in
       if required > hs_tier stream then
         (case slot_manager_promote (w_slots w) (hs_tier stream) required of
            (False, sm) \<Rightarrow>
              ((bump H2_rst_stream_total (bump Slot_promotion_failures (w\<lparr>w_slots := sm\<rparr>)),
                h2a\<lparr>h2_rst_submitted := sid # h2_rst_submitted h2a\<rparr>), NGHTTP2_ERR_TEMPORAL_CALLBACK_FAILURE)
          | (True, sm) \<Rightarrow>
              ((w\<lparr>w_slots := sm\<rparr>, h2_stream_upd sid (\<lambda>s. s\<lparr>hs_tier := required\<rparr>) h2a), NGHTTP2_OK))
       else ((w, h2a), NGHTTP2_OK))"

definition h2_on_header_callback ::
    "H2FrameType \<Rightarrow> int \<Rightarrow> string \<Rightarrow> string \<Rightarrow> WorkerProcess \<times> H2Connection \<Rightarrow> (WorkerProcess \<times> H2Connection) \<times> H2Ret" where
  "h2_on_header_callback ftype sid nm v st = (case st of (w, h2) \<Rightarrow>
     if ftype \<noteq> NGHTTP2_HEADERS then (st, NGHTTP2_OK)
     else case h2_stream_find h2 sid of
       None \<Rightarrow> (st, NGHTTP2_OK)
     | Some stream \<Rightarrow>
        if nm = '':method'' then ((w, h2_stream_upd sid (\<lambda>s. s\<lparr>hs_method := Some (cstr v)\<rparr>) h2), NGHTTP2_OK)
        else if nm = '':path'' then h2_on_path_header sid v stream st
        else if nm = '':authority'' then ((w, h2_stream_upd sid (\<lambda>s. s\<lparr>hs_authority := Some (cstr v)\<rparr>) h2), NGHTTP2_OK)
        else if nm = '':scheme'' then ((w, h2_stream_upd sid (\<lambda>s. s\<lparr>hs_scheme := Some (cstr v)\<rparr>) h2), NGHTTP2_OK)
        else if nm = ''content-length'' then
          ((w, h2_stream_upd sid (\<lambda>s. s\<lparr>hs_content_length := fst (strtoul (cstr v))\<rparr>) h2), NGHTTP2_OK)
        else (st, NGHTTP2_OK))"

definition h2_on_data_chunk_recv_callback :: "int \<Rightarrow> nat \<Rightarrow> WorkerProcess \<times> H2Connection \<Rightarrow> WorkerProcess \<times> H2Connection" where
  "h2_on_data_chunk_recv_callback sid len st = (case st of (w, h2) \<Rightarrow>
     (w, h2_stream_upd sid (\<lambda>s. s\<lparr>hs_body_received := hs_body_received s + len\<rparr>) h2))"

datatype H2Event =
    Frame_recv "int list" H2FrameType int bool
  | Begin_headers H2FrameType bool int
  | Header_recv H2FrameType int string string
  | Data_chunk int nat
  | Stream_close int

fun h2_event :: "Env \<Rightarrow> H2Event \<Rightarrow> WorkerProcess \<times> H2Connection \<Rightarrow> WorkerProcess \<times> H2Connection" where
  "h2_event env (Frame_recv closes ftype sid end_stream) st = h2_on_frame_recv_callback env closes ftype sid end_stream st"
| "h2_event env (Begin_headers ftype cat sid) st = fst (h2_on_begin_headers_callback env ftype cat sid st)"
| "h2_event env (Header_recv ftype sid nm v) st = fst (h2_on_header_callback ftype sid nm v st)"
| "h2_event env (Data_chunk sid len) st = h2_on_data_chunk_recv_callback sid len st"
| "h2_event env (Stream_close sid) st = h2_on_stream_close_callback env sid st"

subsection \<open>The session\<close>

text \<open>
  \<open>e_h2_init_ok\<close>: the allocations and the calls that create the session and queue the settings
  all succeed; otherwise the connection is left as it was.
\<close>

definition h2_connection_init :: "Env \<Rightarrow> WorkerProcess \<Rightarrow> Connection \<Rightarrow> Connection option" where
  "h2_connection_init env w conn =
    (if \<not> e_h2_init_ok env then None
     else let h2 = \<lparr>h2_streams = [], h2_stream_count = 0, h2_max_concurrent_streams = H2_MAX_CONCURRENT_STREAMS,
            h2_initial_window_size = H2_INITIAL_WINDOW_SIZE,
            h2_settings = [(''MAX_CONCURRENT_STREAMS'', H2_MAX_CONCURRENT_STREAMS),
              (''INITIAL_WINDOW_SIZE'', H2_INITIAL_WINDOW_SIZE),
              (''MAX_HEADER_LIST_SIZE'', (max_buffer_size (w_config w) + 4096) mod 2 ^ 32), (''ENABLE_PUSH'', 0)],
            h2_submitted = [], h2_rst_submitted = []\<rparr>
       in Some (conn\<lparr>c_h2 := Some h2, c_protocol := PROTO_HTTP_2\<rparr>))"

lemma length_del_first: "find P xs = Some x \<Longrightarrow> Suc (length (del_first P xs)) = length xs"
  by (induction xs) (auto split: if_splits)

text \<open>\<open>while (h2->streams) h2_stream_free(h2, h2->streams)\<close>.\<close>

function h2_connection_free :: "WorkerProcess \<Rightarrow> H2Connection \<Rightarrow> WorkerProcess" where
  "h2_connection_free w h2 = (case h2_streams h2 of
     [] \<Rightarrow> w
   | s # rest \<Rightarrow> (case h2_stream_free w h2 s of (w', h2') \<Rightarrow> h2_connection_free w' h2'))"
  by pat_completeness auto
termination
  by (relation "measure (\<lambda>(w, h2). length (h2_streams h2))") (auto simp: h2_stream_free_def Let_def)

declare h2_connection_free.simps [simp del]

text \<open>
  \<open>h2_process_input\<close>: the callbacks that nghttp2 makes for the received bytes, its verdict on
  them, and the send that follows.
\<close>

definition h2_process_input ::
    "Env \<Rightarrow> H2Event list \<Rightarrow> bool \<Rightarrow> int list \<Rightarrow> WorkerProcess \<times> H2Connection \<Rightarrow> (WorkerProcess \<times> H2Connection) \<times> int" where
  "h2_process_input env events recv_ok closes st =
    (let st' = fold (h2_event env) events st in
     if \<not> recv_ok then (st', -1) else h2_send_pending env closes st')"

subsection \<open>Slot accounting of streams\<close>

definition stream_holds :: "H2Stream \<Rightarrow> RequestTier \<Rightarrow> nat" where
  "stream_holds s t = (if slot_acquired s \<and> hs_tier s = t then 1 else 0)"

definition h2_holds :: "H2Stream list \<Rightarrow> RequestTier \<Rightarrow> nat" where
  "h2_holds ss t = (\<Sum>s\<leftarrow>ss. stream_holds s t)"

text \<open>
  \<open>h2_ok m rest n\<close>: the slot maxima are \<open>m\<close> and the slot counters are exact when every stream of the session holds the slot of
  its tier and the rest of the worker holds \<open>rest\<close>; the stream counts are exact when the rest of
  the worker has \<open>n\<close> streams.
\<close>

definition h2_ok :: "(RequestTier \<Rightarrow> int) \<Rightarrow> (RequestTier \<Rightarrow> nat) \<Rightarrow> nat \<Rightarrow> WorkerProcess \<times> H2Connection \<Rightarrow> bool" where
  "h2_ok m rest n st \<longleftrightarrow> (case st of (w, h2) \<Rightarrow>
     sm.accounts m (w_slots w) (\<lambda>t. rest t + h2_holds (h2_streams h2) t)
     \<and> (\<forall>s \<in> set (h2_streams h2). slot_acquired s)
     \<and> h2_stream_count h2 = int (length (h2_streams h2))
     \<and> h2_streams_active w = int (n + length (h2_streams h2)))"

text \<open>What the HTTP/2 code never changes in the worker.\<close>

definition w_same :: "WorkerProcess \<Rightarrow> WorkerProcess \<Rightarrow> bool" where
  "w_same w w' \<longleftrightarrow> active_connections w' = active_connections w \<and> draining w' = draining w \<and> loopexit w' = loopexit w
     \<and> listener_disabled w' = listener_disabled w \<and> tls_listener_disabled w' = tls_listener_disabled w
     \<and> w_listener w' = w_listener w \<and> w_tls_listener w' = w_tls_listener w \<and> w_config w' = w_config w
     \<and> w_rate_limiter w' = w_rate_limiter w \<and> w_ip_acl w' = w_ip_acl w \<and> w_static_files w' = w_static_files w"

lemma w_same_refl [simp]: "w_same w w"
  by (simp add: w_same_def)

lemma w_same_trans [trans]: "w_same a b \<Longrightarrow> w_same b c \<Longrightarrow> w_same a c"
  by (simp add: w_same_def)

lemma h2_holds_simps [simp]:
  "h2_holds [] t = 0" "h2_holds (s # ss) t = stream_holds s t + h2_holds ss t"
  by (simp_all add: h2_holds_def)

lemma set_del_first: "set (del_first P xs) \<subseteq> set xs"
  by (induction xs) auto

lemma set_upd_first: "x \<in> set (upd_first P f xs) \<Longrightarrow> x \<in> set xs \<or> (\<exists>y \<in> set xs. P y \<and> x = f y)"
  by (induction xs) (auto split: if_splits)

lemma length_upd_first [simp]: "length (upd_first P f xs) = length xs"
  by (induction xs) auto

lemma find_None_upd: "find P xs = None \<Longrightarrow> upd_first P f xs = xs"
  by (induction xs) (auto split: if_splits)

lemma find_upd_first: "(\<And>x. P x \<Longrightarrow> P (f x)) \<Longrightarrow> find P (upd_first P f xs) = map_option f (find P xs)"
  by (induction xs) auto

lemma del_upd_first: "(\<And>x. P x \<Longrightarrow> P (f x)) \<Longrightarrow> del_first P (upd_first P f xs) = del_first P xs"
  by (induction xs) auto

lemma find_in: "find P xs = Some x \<Longrightarrow> x \<in> set xs \<and> P x"
  by (induction xs) (auto split: if_splits)

lemma holds_find: "find P ss = Some s \<Longrightarrow> h2_holds ss t = stream_holds s t + h2_holds (del_first P ss) t"
  by (induction ss) (auto split: if_splits)

lemma holds_upd_find:
  "find P ss = Some s \<Longrightarrow> h2_holds (upd_first P f ss) t = stream_holds (f s) t + h2_holds (del_first P ss) t"
  by (induction ss) (auto split: if_splits)

lemma holds_upd_same:
  "(\<And>s. slot_acquired (f s) = slot_acquired s \<and> hs_tier (f s) = hs_tier s) \<Longrightarrow> h2_holds (upd_first P f ss) t = h2_holds ss t"
  by (induction ss) (auto simp: stream_holds_def)

text \<open>Updates that keep a stream's identifier, slot and tier keep the accounting.\<close>

lemma h2_ok_upd:
  assumes "h2_ok m rest n (w, h2)" "\<And>s. slot_acquired (f s) = slot_acquired s \<and> hs_tier (f s) = hs_tier s"
  shows "h2_ok m rest n (w, h2_stream_upd sid f h2)"
  using assms by (auto simp: h2_ok_def h2_stream_upd_def holds_upd_same dest!: set_upd_first)

lemma h2_ok_worker:
  assumes "h2_ok m rest n (w, h2)" "w_slots w' = w_slots w" "h2_streams_active w' = h2_streams_active w"
  shows "h2_ok m rest n (w', h2)"
  using assms by (simp add: h2_ok_def)

lemma h2_ok_session [simp]:
  "h2_ok m rest n (w, h2\<lparr>h2_submitted := x\<rparr>) = h2_ok m rest n (w, h2)"
  "h2_ok m rest n (w, h2\<lparr>h2_rst_submitted := y\<rparr>) = h2_ok m rest n (w, h2)"
  by (simp_all add: h2_ok_def)

lemma h2_stream_upd_replace:
  assumes "h2_stream_find h2 sid = Some s"
  shows "h2_stream_upd sid (\<lambda>_. f s) h2 = h2_stream_upd sid f h2"
proof -
  have "find P ss = Some s \<Longrightarrow> upd_first P (\<lambda>_. f s) ss = upd_first P f ss" for P ss
    by (induction ss) (auto split: if_splits)
  then show ?thesis using assms by (simp add: h2_stream_upd_def h2_stream_find_def)
qed

lemma h2_stream_free_ok:
  assumes ok: "h2_ok m rest n (w, h2)" and f: "h2_stream_find h2 sid = Some s"
  shows "h2_ok m rest n (h2_stream_free w h2 s) \<and> w_same w (fst (h2_stream_free w h2 s))
    \<and> length (h2_streams h2) = Suc (length (h2_streams (snd (h2_stream_free w h2 s))))"
proof -
  let ?P = "\<lambda>x. stream_id x = sid"
  have fd: "find ?P (h2_streams h2) = Some s" using f by (simp add: h2_stream_find_def)
  have s: "s \<in> set (h2_streams h2)" "stream_id s = sid" using find_in [OF fd] by auto
  then have sl: "slot_acquired s" using ok by (auto simp: h2_ok_def)
  have len: "Suc (length (del_first ?P (h2_streams h2))) = length (h2_streams h2)" by (rule length_del_first [OF fd])
  let ?h = "\<lambda>t. rest t + h2_holds (h2_streams h2) t"
  have acc: "sm.accounts m (w_slots w) ?h" using ok by (simp add: h2_ok_def)
  have pos: "0 < ?h (hs_tier s)" using holds_find [OF fd, of "hs_tier s"] sl by (simp add: stream_holds_def)
  have eq: "?h(hs_tier s := ?h (hs_tier s) - 1) = (\<lambda>t. rest t + h2_holds (del_first ?P (h2_streams h2)) t)"
    using sl by (auto simp: holds_find [OF fd] stream_holds_def)
  have "sm.accounts m (slot_manager_release (w_slots w) (hs_tier s)) (\<lambda>t. rest t + h2_holds (del_first ?P (h2_streams h2)) t)"
    using sm.accounts_release [OF acc pos] unfolding eq .
  moreover have "\<forall>x \<in> set (del_first ?P (h2_streams h2)). slot_acquired x"
    using ok set_del_first [of ?P "h2_streams h2"] by (auto simp: h2_ok_def)
  ultimately show ?thesis
    using ok sl len s(2) by (auto simp: h2_ok_def h2_stream_free_def Let_def w_same_def)
qed

lemma w_same_counters [simp]:
  "w_same w (bump c w)" "w_same w (bump_by c k w)" "w_same w (update_latency_histogram r d w)"
  "w_same w (update_status_counters st w)" "w_same w (update_method_counters m w)"
  "w_same w (update_endpoint_counter rt w)" "w_same w (w\<lparr>w_slots := sl\<rparr>)"
  by (simp_all add: w_same_def)

lemma h2_close_ok:
  assumes ok: "h2_ok m rest n (w, h2)"
  shows "h2_ok m rest n (h2_on_stream_close_callback env sid (w, h2))
    \<and> w_same w (fst (h2_on_stream_close_callback env sid (w, h2)))"
proof (cases "h2_stream_find h2 sid")
  case None
  then show ?thesis using ok by (simp add: h2_on_stream_close_callback_def)
next
  case (Some s)
  define w1 where "w1 = (if hs_response_status s > 0 then
      let duration_ms = elapsed_ms (e_rnd env) (e_now env) (hs_start_time s);
          duration_sec = e_rnd env (duration_ms / 1000) in
      bump_by Response_bytes_total (hs_response_bytes s)
        (update_method_counters (hs_method s)
          (update_status_counters (hs_response_status s)
            (update_latency_histogram (e_rnd env) duration_sec w)))
      else w)"
  let ?h2 = "h2_stream_upd sid (\<lambda>s. s\<lparr>hs_state := H2_STREAM_CLOSED\<rparr>) h2"
  have w1: "w_slots w1 = w_slots w" "h2_streams_active w1 = h2_streams_active w" "w_same w w1"
    by (simp_all add: w1_def Let_def w_same_def)
  have ok1: "h2_ok m rest n (w1, ?h2)" by (rule h2_ok_worker [OF h2_ok_upd [OF ok] w1(1,2)]) simp
  have "h2_stream_find ?h2 sid = Some (s\<lparr>hs_state := H2_STREAM_CLOSED\<rparr>)"
    using Some find_upd_first [of "\<lambda>x. stream_id x = sid" "\<lambda>s. s\<lparr>hs_state := H2_STREAM_CLOSED\<rparr>" "h2_streams h2"]
    by (simp add: h2_stream_find_def h2_stream_upd_def)
  note fr = h2_stream_free_ok [OF ok1 this]
  have "h2_on_stream_close_callback env sid (w, h2) = h2_stream_free w1 ?h2 (s\<lparr>hs_state := H2_STREAM_CLOSED\<rparr>)"
    using Some h2_stream_upd_replace [OF Some, of "\<lambda>s. s\<lparr>hs_state := H2_STREAM_CLOSED\<rparr>"]
    by (simp add: h2_on_stream_close_callback_def w1_def Let_def)
  then show ?thesis using fr w_same_trans [OF w1(3)] by simp
qed

text \<open>Preservation in the form the composition uses: from a state, along a step function.\<close>

definition h2_keeps :: "(RequestTier \<Rightarrow> int) \<Rightarrow> (RequestTier \<Rightarrow> nat) \<Rightarrow> nat \<Rightarrow> WorkerProcess \<times> H2Connection \<Rightarrow> WorkerProcess \<times> H2Connection \<Rightarrow> bool" where
  "h2_keeps m rest n st st' \<longleftrightarrow> (h2_ok m rest n st \<longrightarrow> h2_ok m rest n st') \<and> w_same (fst st) (fst st')"

lemma h2_keeps_refl [simp]: "h2_keeps m rest n st st"
  by (simp add: h2_keeps_def)

lemma h2_keeps_trans [trans]: "h2_keeps m rest n a b \<Longrightarrow> h2_keeps m rest n b c \<Longrightarrow> h2_keeps m rest n a c"
  by (auto simp: h2_keeps_def intro: w_same_trans)

lemma h2_ok_imp_keeps:
  "(\<And>w h2. st = (w, h2) \<Longrightarrow> h2_ok m rest n (w, h2) \<Longrightarrow> h2_ok m rest n st') \<Longrightarrow> w_same (fst st) (fst st') \<Longrightarrow> h2_keeps m rest n st st'"
  by (cases st) (auto simp: h2_keeps_def)

lemma w_same_stream_free: "w_same w (fst (h2_stream_free w h2 s))"
  by (simp add: h2_stream_free_def Let_def w_same_def)

lemma w_same_close: "w_same (fst st) (fst (h2_on_stream_close_callback env sid st))"
proof -
  have c: "w_same w (bump_by Response_bytes_total k (update_method_counters m (update_status_counters a (update_latency_histogram r d w))))"
    for w k m a r d by (simp add: w_same_def)
  show ?thesis
    using w_same_trans [OF c w_same_stream_free] w_same_stream_free
    by (cases st) (auto simp: h2_on_stream_close_callback_def Let_def split: option.split)
qed

lemma close_keeps: "h2_keeps m rest n st (h2_on_stream_close_callback env sid st)"
  using h2_close_ok w_same_close by (cases st) (auto simp: h2_keeps_def)

lemma closes_keep: "h2_keeps m rest n st (fold (h2_on_stream_close_callback env) cs st)"
proof (induction cs arbitrary: st)
  case (Cons c cs)
  have "h2_keeps m rest n st (h2_on_stream_close_callback env c st)" by (rule close_keeps)
  also have "h2_keeps m rest n \<dots> (fold (h2_on_stream_close_callback env) cs \<dots>)" by (rule Cons.IH)
  finally show ?case by simp
qed simp

lemma send_pending_keeps: "h2_keeps m rest n st (fst (h2_send_pending env cs st))"
  by (simp add: h2_send_pending_def closes_keep)

lemma upd_keeps:
  assumes "\<And>s. slot_acquired (f s) = slot_acquired s \<and> hs_tier (f s) = hs_tier s"
  shows "h2_keeps m rest n (w, h2) (w, h2_stream_upd sid f h2)"
  using h2_ok_upd [OF _ assms] by (simp add: h2_keeps_def)

lemma send_response_keeps: "h2_keeps m rest n st (fst (h2_send_response env cs sid code ct body st))"
proof (cases st)
  case (Pair w h2)
  let ?rid = "case h2_stream_find h2 sid of None \<Rightarrow> [] | Some s \<Rightarrow> hs_request_id s"
  let ?h2a = "h2\<lparr>h2_submitted := \<lparr>h2r_stream = sid, h2r_headers = h2_response_headers (w_config w) ?rid code ct (length body),
      h2r_body = body\<rparr> # h2_submitted h2\<rparr>"
  let ?f = "\<lambda>s. s\<lparr>hs_body_source := Some \<lparr>bs_data = body, bs_len = length body, bs_pos = 0\<rparr>\<rparr>"
  have "h2_keeps m rest n (w, h2) (w, ?h2a)" by (simp add: h2_keeps_def)
  also have "h2_keeps m rest n (w, ?h2a) (w, h2_stream_upd sid ?f ?h2a)" by (rule upd_keeps) simp
  also have "h2_keeps m rest n (w, h2_stream_upd sid ?f ?h2a) (fst (h2_send_pending env cs (w, h2_stream_upd sid ?f ?h2a)))"
    by (rule send_pending_keeps)
  finally show ?thesis by (auto simp: h2_send_response_def Pair Let_def)
qed

lemma respond_keeps:
  assumes "h2_respond env cs sid path route st = (st', code, len)"
  shows "h2_keeps m rest n st st'"
proof -
  obtain w h2 where st: "st = (w, h2)" by force
  have "\<exists>code ct body. st' = fst (h2_send_response env cs sid code ct body st)"
  proof (cases "route = ROUTE_ACME_CHALLENGE")
    case True
    then show ?thesis using assms
      by (auto simp: h2_respond_def st serve_acme_challenge_h2_def split: option.splits if_splits)
  next
    case False
    then show ?thesis using assms
      by (cases route) (auto simp: h2_respond_def st Let_def split: prod.splits)
  qed
  then show ?thesis using send_response_keeps by blast
qed

text \<open>
  The downgrade after a request: the stream ends up with a slot of one tier or the other, never
  with none, because a slot just released can be taken again.
\<close>

lemma downgrade_keeps: "h2_keeps m rest n (w, h2) (h2_downgrade_tier_to_normal w h2 sid)"
proof (rule h2_ok_imp_keeps)
  show "w_same (fst (w, h2)) (fst (h2_downgrade_tier_to_normal w h2 sid))"
    by (simp add: h2_downgrade_tier_to_normal_def Let_def split: option.split prod.split bool.split)
  fix w' h2'
  assume "(w, h2) = (w', h2')" and "h2_ok m rest n (w', h2')"
  then have ok: "h2_ok m rest n (w, h2)" by simp
  show "h2_ok m rest n (h2_downgrade_tier_to_normal w h2 sid)"
  proof (cases "h2_stream_find h2 sid")
    case None
    then show ?thesis using ok by (simp add: h2_downgrade_tier_to_normal_def)
  next
    case (Some s)
    let ?P = "\<lambda>x. stream_id x = sid"
    have fd: "find ?P (h2_streams h2) = Some s" using Some by (simp add: h2_stream_find_def)
    have sl: "slot_acquired s" using find_in [OF fd] ok by (auto simp: h2_ok_def)
    let ?h = "\<lambda>t. rest t + h2_holds (h2_streams h2) t"
    have acc: "sm.accounts m (w_slots w) ?h" using ok by (simp add: h2_ok_def)
    have pos: "0 < ?h (hs_tier s)" using holds_find [OF fd, of "hs_tier s"] sl by (simp add: stream_holds_def)
    show ?thesis
    proof (cases "hs_tier s = TIER_NORMAL")
      case True
      then show ?thesis using ok Some by (simp add: h2_downgrade_tier_to_normal_def)
    next
      case False
      let ?sm1 = "slot_manager_release (w_slots w) (hs_tier s)"
      obtain b sm2 where a: "slot_manager_acquire ?sm1 TIER_NORMAL = (b, sm2)" by force
      show ?thesis
      proof (cases b)
        case True
        let ?f = "\<lambda>s. s\<lparr>hs_tier := TIER_NORMAL\<rparr>"
        have eq: "(?h(hs_tier s := ?h (hs_tier s) - 1))(TIER_NORMAL := (?h(hs_tier s := ?h (hs_tier s) - 1)) TIER_NORMAL + 1)
            = (\<lambda>t. rest t + h2_holds (upd_first ?P ?f (h2_streams h2)) t)"
          using sl False by (auto simp: fun_eq_iff holds_find [OF fd] holds_upd_find [OF fd] stream_holds_def)
        have "sm.accounts m sm2 (\<lambda>t. rest t + h2_holds (upd_first ?P ?f (h2_streams h2)) t)"
          using sm.accounts_move [OF acc pos, of TIER_NORMAL sm2] a True unfolding eq by simp
        then have "h2_ok m rest n (w\<lparr>w_slots := sm2\<rparr>, h2_stream_upd sid ?f h2)"
          using ok by (auto simp: h2_ok_def h2_stream_upd_def dest!: set_upd_first)
        then show ?thesis using Some sl False a True by (simp add: h2_downgrade_tier_to_normal_def Let_def)
      next
        case False
        then have sm2: "sm2 = ?sm1" using a sm.acquire_fail_same [of ?sm1 TIER_NORMAL sm2] by simp
        obtain sm3 where r: "slot_manager_acquire ?sm1 (hs_tier s) = (True, sm3)"
          using sm.reacquire_after_release [OF acc pos] by blast
        have eq: "(?h(hs_tier s := ?h (hs_tier s) - 1))(hs_tier s := (?h(hs_tier s := ?h (hs_tier s) - 1)) (hs_tier s) + 1) = ?h"
          using pos by (auto simp: fun_eq_iff)
        have "sm.accounts m sm3 ?h" using sm.accounts_move [OF acc pos r] unfolding eq .
        then have "h2_ok m rest n (w\<lparr>w_slots := sm3\<rparr>, h2)" using ok by (simp add: h2_ok_def)
        then show ?thesis using Some sl a False sm2 r \<open>hs_tier s \<noteq> TIER_NORMAL\<close>
          by (simp add: h2_downgrade_tier_to_normal_def Let_def)
      qed
    qed
  qed
qed

lemma process_stream_keeps: "h2_keeps m rest n st (h2_process_stream_request env cs sid s st)"
proof -
  obtain w h2 where st: "st = (w, h2)" by force
  let ?path = "stream_path s" and ?route = "route_request (stream_path s)"
  obtain w2 h2b code len where r: "h2_respond env cs sid ?path ?route (update_endpoint_counter ?route w, h2) = ((w2, h2b), code, len)"
    by (metis prod.exhaust)
  let ?f = "\<lambda>s. s\<lparr>hs_response_status := code, hs_response_bytes := len\<rparr>"
  have "h2_keeps m rest n st (update_endpoint_counter ?route w, h2)"
    by (simp add: h2_keeps_def st h2_ok_def)
  also have "h2_keeps m rest n \<dots> (w2, h2b)" by (rule respond_keeps [OF r])
  also have "h2_keeps m rest n (w2, h2b) (w2, h2_stream_upd sid ?f h2b)" by (rule upd_keeps) simp
  also have "h2_keeps m rest n \<dots> (h2_downgrade_tier_to_normal w2 (h2_stream_upd sid ?f h2b) sid)"
    by (rule downgrade_keeps)
  finally show ?thesis by (simp add: h2_process_stream_request_def st r Let_def)
qed

lemma frame_recv_keeps: "h2_keeps m rest n st (h2_on_frame_recv_callback env cs ft sid es st)"
proof -
  obtain w h2 where st: "st = (w, h2)" by force
  show ?thesis
  proof (cases "((ft = NGHTTP2_HEADERS \<or> ft = NGHTTP2_DATA) \<and> es) \<and> h2_stream_find h2 sid \<noteq> None")
    case True
    then obtain s where s: "h2_stream_find h2 sid = Some s" by auto
    let ?f = "\<lambda>s. s\<lparr>hs_state := H2_STREAM_HALF_CLOSED_REMOTE\<rparr>"
    have "h2_keeps m rest n (w, h2) (w, h2_stream_upd sid ?f h2)" by (rule upd_keeps) simp
    also have "h2_keeps m rest n \<dots> (h2_process_stream_request env cs sid (?f s) (w, h2_stream_upd sid ?f h2))"
      by (rule process_stream_keeps)
    finally show ?thesis
      using True s h2_stream_upd_replace [OF s, of ?f] by (simp add: h2_on_frame_recv_callback_def st Let_def)
  next
    case False
    then show ?thesis by (auto simp: h2_on_frame_recv_callback_def st split: option.split)
  qed
qed

lemma begin_headers_keeps: "h2_keeps m rest n st (fst (h2_on_begin_headers_callback env ft cat sid st))"
proof (rule h2_ok_imp_keeps)
  show "w_same (fst st) (fst (fst (h2_on_begin_headers_callback env ft cat sid st)))"
    by (cases st) (auto simp: h2_on_begin_headers_callback_def h2_stream_new_def Let_def w_same_def
        split: prod.split bool.split if_splits option.splits)
  fix w h2
  assume st: "st = (w, h2)" and ok: "h2_ok m rest n (w, h2)"
  let ?h = "\<lambda>t. rest t + h2_holds (h2_streams h2) t"
  have acc: "sm.accounts m (w_slots w) ?h" using ok by (simp add: h2_ok_def)
  obtain b smx where a: "slot_manager_acquire (w_slots w) TIER_NORMAL = (b, smx)" by force
  show "h2_ok m rest n (fst (h2_on_begin_headers_callback env ft cat sid st))"
  proof (cases "ft \<noteq> NGHTTP2_HEADERS \<or> \<not> cat")
    case True
    then show ?thesis using ok st by (auto simp: h2_on_begin_headers_callback_def)
  next
    case frame: False
    show ?thesis
    proof (cases b)
      case False
      then have "smx = w_slots w" using a sm.acquire_fail_same [of "w_slots w" TIER_NORMAL smx] by simp
      then show ?thesis using ok st frame a False by (simp add: h2_on_begin_headers_callback_def h2_ok_def)
    next
      case True
      then have a1: "slot_manager_acquire (w_slots w) TIER_NORMAL = (True, smx)" using a by simp
      have acc1: "sm.accounts m smx (?h(TIER_NORMAL := ?h TIER_NORMAL + 1))" by (rule sm.accounts_acquire [OF acc a1])
      show ?thesis
      proof (cases "e_malloc env 0")
        case False
        have "sm.accounts m (slot_manager_release smx TIER_NORMAL) ?h"
          using sm.accounts_release [OF acc1, of TIER_NORMAL] by (simp add: fun_upd_idem)
        then show ?thesis using ok st frame a1 False
          by (simp add: h2_on_begin_headers_callback_def h2_stream_new_def h2_ok_def)
      next
        case True
        have eq: "?h(TIER_NORMAL := ?h TIER_NORMAL + 1)
            = (\<lambda>t. rest t + ((if t = TIER_NORMAL then 1 else 0) + h2_holds (h2_streams h2) t))" by auto
        show ?thesis using ok st frame a1 True acc1 unfolding eq
          by (auto simp: h2_on_begin_headers_callback_def h2_stream_new_def h2_ok_def h2_stream_upd_def
              Let_def stream_holds_def eq_commute [of TIER_NORMAL] cong: if_cong)
      qed
    qed
  qed
qed

lemma path_header_keeps:
  assumes "h2_stream_find h2 sid = Some s"
  shows "h2_keeps m rest n (w, h2) (fst (h2_on_path_header sid v s (w, h2)))"
proof (rule h2_ok_imp_keeps)
  show "w_same (fst (w, h2)) (fst (fst (h2_on_path_header sid v s (w, h2))))"
    by (auto simp: h2_on_path_header_def Let_def w_same_def split: prod.split bool.split)
  fix w' h2'
  assume "(w, h2) = (w', h2')" "h2_ok m rest n (w', h2')"
  then have ok: "h2_ok m rest n (w, h2)" by simp
  let ?P = "\<lambda>x. stream_id x = sid"
  let ?f = "\<lambda>s. s\<lparr>hs_path := Some (cstr v), hs_path_len := length v\<rparr>"
  let ?req = "size_to_tier (length v) (w_config w)"
  let ?g = "\<lambda>s. s\<lparr>hs_tier := ?req\<rparr>"
  let ?h2a = "h2_stream_upd sid ?f h2"
  have ok1: "h2_ok m rest n (w, ?h2a)" by (rule h2_ok_upd [OF ok]) simp
  have fd: "find ?P (h2_streams h2) = Some s" using assms by (simp add: h2_stream_find_def)
  have fd1: "find ?P (h2_streams ?h2a) = Some (?f s)"
    using find_upd_first [of ?P ?f "h2_streams h2"] fd by (simp add: h2_stream_upd_def)
  have sl: "slot_acquired s" using find_in [OF fd] ok by (auto simp: h2_ok_def)
  let ?h = "\<lambda>t. rest t + h2_holds (h2_streams ?h2a) t"
  have acc: "sm.accounts m (w_slots w) ?h" using ok1 by (simp add: h2_ok_def)
  have pos: "0 < ?h (hs_tier s)" using holds_find [OF fd1, of "hs_tier s"] sl by (simp add: stream_holds_def)
  show "h2_ok m rest n (fst (h2_on_path_header sid v s (w, h2)))"
  proof (cases "(1 < length v \<and> \<not> validate_hex_path (drop 1 v)) \<or> \<not> hs_tier s < ?req")
    case True
    then show ?thesis using ok1 by (auto simp: h2_on_path_header_def Let_def h2_ok_def)
  next
    case False
    then have lt: "hs_tier s < ?req" and val: "\<not> (1 < length v \<and> \<not> validate_hex_path (drop 1 v))" by auto
    obtain b smx where p: "slot_manager_promote (w_slots w) (hs_tier s) ?req = (b, smx)" by force
    show ?thesis
    proof (cases b)
      case False
      then have "smx = w_slots w" using p promote_fail_same [of "w_slots w" "hs_tier s" ?req smx] by simp
      then show ?thesis using ok1 lt val p False by (auto simp: h2_on_path_header_def Let_def h2_ok_def)
    next
      case True
      have eq: "(?h(hs_tier s := ?h (hs_tier s) - 1))(?req := (?h(hs_tier s := ?h (hs_tier s) - 1)) ?req + 1)
          = (\<lambda>t. rest t + h2_holds (upd_first ?P ?g (h2_streams ?h2a)) t)"
        using sl lt by (auto simp: fun_eq_iff holds_find [OF fd1] holds_upd_find [OF fd1] stream_holds_def)
      have "sm.accounts m smx (\<lambda>t. rest t + h2_holds (upd_first ?P ?g (h2_streams ?h2a)) t)"
        using promote_accounts [OF acc pos, of ?req smx] lt p True unfolding eq by simp
      then have "h2_ok m rest n (w\<lparr>w_slots := smx\<rparr>, h2_stream_upd sid ?g ?h2a)"
        using ok1 by (auto simp: h2_ok_def h2_stream_upd_def [of sid ?g] dest!: set_upd_first)
      then show ?thesis using lt val p True by (auto simp: h2_on_path_header_def Let_def)
    qed
  qed
qed

lemma header_keeps: "h2_keeps m rest n st (fst (h2_on_header_callback ft sid nm v st))"
proof -
  obtain w h2 where st: "st = (w, h2)" by force
  have u: "h2_keeps m rest n (w, h2) (w, h2_stream_upd sid f h2)"
    if "\<And>s. slot_acquired (f s) = slot_acquired s \<and> hs_tier (f s) = hs_tier s" for f
    using that by (rule upd_keeps)
  show ?thesis
    unfolding h2_on_header_callback_def st
    using path_header_keeps u by (auto split: option.split)
qed

lemma event_keeps: "h2_keeps m rest n st (h2_event env ev st)"
proof (cases ev)
  case (Data_chunk sid len)
  then show ?thesis
    using upd_keeps [of "\<lambda>s. s\<lparr>hs_body_received := hs_body_received s + len\<rparr>"]
    by (cases st) (simp add: h2_on_data_chunk_recv_callback_def)
qed (simp_all add: frame_recv_keeps begin_headers_keeps header_keeps close_keeps)

lemma events_keep: "h2_keeps m rest n st (fold (h2_event env) evs st)"
proof (induction evs arbitrary: st)
  case (Cons ev evs)
  have "h2_keeps m rest n st (h2_event env ev st)" by (rule event_keeps)
  also have "h2_keeps m rest n \<dots> (fold (h2_event env) evs \<dots>)" by (rule Cons.IH)
  finally show ?case by simp
qed simp

lemma process_input_keeps: "h2_keeps m rest n st (fst (h2_process_input env evs ok cs st))"
proof -
  have "h2_keeps m rest n st (fold (h2_event env) evs st)" by (rule events_keep)
  also have "h2_keeps m rest n \<dots> (fst (h2_send_pending env cs \<dots>))" by (rule send_pending_keeps)
  finally show ?thesis using events_keep by (simp add: h2_process_input_def Let_def)
qed

text \<open>Freeing a session gives every stream's slot back.\<close>

lemma connection_free_ok:
  assumes "h2_ok m rest n (w, h2)"
  shows "sm.accounts m (w_slots (h2_connection_free w h2)) rest \<and> h2_streams_active (h2_connection_free w h2) = int n
    \<and> w_same w (h2_connection_free w h2)"
  using assms
proof (induction w h2 rule: h2_connection_free.induct)
  case (1 w h2)
  show ?case
  proof (cases "h2_streams h2")
    case Nil
    then show ?thesis using "1.prems" by (subst (1 2 3) h2_connection_free.simps) (simp add: h2_ok_def)
  next
    case (Cons s ss)
    obtain w' h2' where f: "h2_stream_free w h2 s = (w', h2')" by force
    have "h2_stream_find h2 (stream_id s) = Some s" using Cons by (simp add: h2_stream_find_def)
    note fr = h2_stream_free_ok [OF "1.prems" this]
    have "h2_connection_free w h2 = h2_connection_free w' h2'"
      using Cons f by (subst h2_connection_free.simps) simp
    then show ?thesis
      using "1.IH" [OF Cons f [symmetric]] fr f w_same_trans [of w w'] by auto
  qed
qed

end
