(* ===== verification/Connection.thy ===== *)
theory Connection
  imports Http2
begin

text \<open>
  \<^verbatim>\<open>src/src/connection.c\<close>: a client connection over HTTP/1.1 and the hand-over to HTTP/2, with
  \<open>worker_check_drain\<close> of \<^verbatim>\<open>src/src/worker.c\<close>, which it calls.

  A callback is a function of the worker and the connection; its result is the worker and the
  connection, or \<open>None\<close> when the connection was freed. The socket options and the event masks have
  no effect on the state and are left out, as is the log. The allocation sites asked of \<open>e_malloc\<close>
  are 4 and 5 (\<open>evbuffer_pullup\<close> of all input), 6 (\<open>evbuffer_pullup\<close> of the headers) and 7 (the
  path). \<open>evbuffer_add\<close> and \<open>evbuffer_add_printf\<close> are taken to succeed.
\<close>

definition THROUGHPUT_CHECK_INTERVAL_SEC :: rat where "THROUGHPUT_CHECK_INTERVAL_SEC = 5"
definition MIN_BYTES_PER_CHECK :: nat where "MIN_BYTES_PER_CHECK = 100"
definition MAX_REQUEST_TIME_SEC :: rat where "MAX_REQUEST_TIME_SEC = 120"

definition validate_path_early :: "Connection \<Rightarrow> string \<Rightarrow> Connection \<times> bool" where
  "validate_path_early conn data =
    (if validation_failed conn then (conn, False)
     else case memchr SP data of
       None \<Rightarrow> (conn, True)
     | Some i \<Rightarrow>
        let after_method = drop (Suc i) data in
        if after_method = [] then (conn, True)
        else let path_start = (if hd after_method = CHR ''/'' then tl after_method else after_method) in
        if path_start = [] then (conn, True)
        else let path = takeWhile (\<lambda>c. \<not> (c = SP \<or> c = CR \<or> c = LF)) path_start in
        if length path < 64 then (conn, True)
        else let rest = (if 3 < length path \<and> has_prefix ''tx/'' path then drop 3 path else path) in
        if list_all is_hex_char rest then (conn\<lparr>path_validated := True\<rparr>, True)
        else (conn\<lparr>validation_failed := True\<rparr>, False))"

definition try_promote_tier :: "WorkerProcess \<Rightarrow> Connection \<Rightarrow> nat \<Rightarrow> (WorkerProcess \<times> Connection) \<times> bool" where
  "try_promote_tier w conn new_size =
    (let required_tier = size_to_tier new_size (w_config w) in
     if current_tier conn \<ge> required_tier then ((w, conn), True)
     else case slot_manager_promote (w_slots w) (current_tier conn) required_tier of
       (False, sm) \<Rightarrow> ((w\<lparr>w_slots := sm\<rparr>, conn), False)
     | (True, sm) \<Rightarrow> ((w\<lparr>w_slots := sm\<rparr>, conn\<lparr>current_tier := required_tier\<rparr>), True))"

definition downgrade_tier_to_normal :: "WorkerProcess \<times> Connection \<Rightarrow> WorkerProcess \<times> Connection" where
  "downgrade_tier_to_normal st = (case st of (w, conn) \<Rightarrow>
     if \<not> slot_held conn \<or> current_tier conn = TIER_NORMAL then (w, conn)
     else let sm1 = slot_manager_release (w_slots w) (current_tier conn) in
       (case slot_manager_acquire sm1 TIER_NORMAL of
          (True, sm2) \<Rightarrow> (w\<lparr>w_slots := sm2\<rparr>, conn\<lparr>current_tier := TIER_NORMAL\<rparr>)
        | (False, sm2) \<Rightarrow>
           (case slot_manager_acquire sm2 (current_tier conn) of
              (True, sm3) \<Rightarrow> (w\<lparr>w_slots := sm3\<rparr>, conn)
            | (False, sm3) \<Rightarrow> (w\<lparr>w_slots := sm3\<rparr>, conn\<lparr>slot_held := False\<rparr>))))"

subsection \<open>Creating and freeing\<close>

text \<open>The peer address that \<open>accept\<close> returns; ports in host byte order.\<close>

datatype sockaddr = AF_INET addr nat | AF_INET6 addr nat | AF_OTHER

fun sockaddr_ip :: "sockaddr \<Rightarrow> string" where
  "sockaddr_ip (AF_INET a p) = inet_ntop4 a"
| "sockaddr_ip (AF_INET6 a p) = inet_ntop6 a"
| "sockaddr_ip AF_OTHER = ''unknown''"

fun sockaddr_port :: "sockaddr \<Rightarrow> nat" where
  "sockaddr_port (AF_INET a p) = p"
| "sockaddr_port (AF_INET6 a p) = p"
| "sockaddr_port AF_OTHER = 0"

definition request_id_text :: "WorkerProcess \<Rightarrow> timespec \<Rightarrow> u32 \<Rightarrow> string" where
  "request_id_text w start counter =
    snprintf_buf 32 (fmt_d (worker_id w) @ ''-'' @ fmt_x (stamp_usec start) @ ''-'' @ fmt_x (unat counter))"

definition connection_init_common :: "Env \<Rightarrow> WorkerProcess \<Rightarrow> sockaddr \<Rightarrow> WorkerProcess \<times> Connection" where
  "connection_init_common env w sa =
    (w\<lparr>request_counter := request_counter w + 1\<rparr>,
     \<lparr>c_state = CONN_STATE_READING_HEADERS, c_protocol = PROTO_HTTP_1_1, current_tier = TIER_NORMAL,
      client_ip = sockaddr_ip sa, client_port = sockaddr_port sa,
      headers_scanned = 0, headers_end = 0, content_length = 0, body_received = 0,
      c_method = [], c_path = None, c_path_len = 0, path_validated = False, validation_failed = False,
      keep_alive = True, slot_held = True, requests_on_connection = 0,
      c_ssl = False, tls_handshake_done = False, c_h2 = None,
      c_start_time = e_now env, last_progress_time = e_now env, bytes_at_last_check = 0,
      request_id = request_id_text w (e_now env) (request_counter w),
      response_status = 0, response_bytes = 0, inbuf = [], outbuf = []\<rparr>)"

text \<open>Sites 8 (the connection) and 9 (its bufferevent).\<close>

definition connection_new :: "Env \<Rightarrow> WorkerProcess \<Rightarrow> sockaddr \<Rightarrow> (WorkerProcess \<times> Connection) option" where
  "connection_new env w sa =
    (if \<not> e_malloc env 8 then None
     else if \<not> e_malloc env 9 then None
     else Some (connection_init_common env w sa))"

definition connection_new_with_bev :: "Env \<Rightarrow> WorkerProcess \<Rightarrow> sockaddr \<Rightarrow> (WorkerProcess \<times> Connection) option" where
  "connection_new_with_bev env w sa =
    (if \<not> e_malloc env 8 then None else Some (connection_init_common env w sa))"

definition worker_check_drain :: "WorkerProcess \<Rightarrow> WorkerProcess" where
  "worker_check_drain w =
    (if \<not> draining w then w
     else let w1 = (if \<not> listener_disabled w \<and> w_listener w then w\<lparr>listener_disabled := True\<rparr> else w);
              w2 = (if \<not> tls_listener_disabled w1 \<and> w_tls_listener w1 then w1\<lparr>tls_listener_disabled := True\<rparr> else w1)
          in if active_connections w2 = 0 then w2\<lparr>loopexit := True\<rparr> else w2)"

definition connection_free :: "WorkerProcess \<Rightarrow> Connection \<Rightarrow> WorkerProcess" where
  "connection_free w conn =
    (let w1 = (case c_h2 conn of None \<Rightarrow> w | Some h2 \<Rightarrow> h2_connection_free w h2);
         w2 = (if slot_held conn then w1\<lparr>w_slots := slot_manager_release (w_slots w1) (current_tier conn)\<rparr> else w1);
         w3 = bump Requests_processed (w2\<lparr>active_connections := active_connections w2 - 1\<rparr>)
     in worker_check_drain w3)"

subsection \<open>Request headers\<close>

text \<open>
  The loops that look for a header name compare it at every position of the header block that
  leaves at least one byte after it.
\<close>

definition find_header :: "string \<Rightarrow> string \<Rightarrow> nat option" where
  "find_header name headers =
    map_option (\<lambda>i. i + length name) (find_suffix (\<lambda>t. length name < length t \<and> strncaseeq t name) headers)"

definition skip_blanks :: "string \<Rightarrow> string" where
  "skip_blanks s = dropWhile (\<lambda>c. c = SP \<or> c = TAB) s"

text \<open>
  \<open>strtoul\<close> is not told where the header block ends: \<open>beyond\<close> is the memory after it.
\<close>

definition parse_content_length :: "string \<Rightarrow> string \<Rightarrow> nat" where
  "parse_content_length headers beyond = (case find_header ''Content-Length:'' headers of
     None \<Rightarrow> 0
   | Some i \<Rightarrow>
      let found = skip_blanks (drop i headers) in
      if found = [] then 0
      else if hd found = CHR ''-'' \<or> hd found = CHR ''+'' then 0
      else (case strtoul (found @ beyond) of (val, consumed, erange) \<Rightarrow>
        if erange \<or> consumed = 0 then 0 else val))"

definition parse_keep_alive :: "string \<Rightarrow> bool \<Rightarrow> bool" where
  "parse_keep_alive headers current = (case find_header ''Connection:'' headers of
     None \<Rightarrow> current
   | Some i \<Rightarrow>
      let found = skip_blanks (drop i headers) in
      if 5 \<le> length found \<and> strncaseeq found ''close'' then False
      else if 10 \<le> length found \<and> strncaseeq found ''keep-alive'' then True
      else current)"

definition parse_request_headers :: "Env \<Rightarrow> Connection \<Rightarrow> string \<Rightarrow> string \<Rightarrow> Connection \<times> bool" where
  "parse_request_headers env conn headers beyond = (case memmem CRLF headers of
     None \<Rightarrow> (conn, False)
   | Some line_end \<Rightarrow>
      let line = take line_end headers in
      (case memchr SP line of
         None \<Rightarrow> (conn, False)
       | Some method_len \<Rightarrow>
          if method_len \<ge> 16 then (conn, False)
          else let conn1 = conn\<lparr>c_method := cstr (take method_len line)\<rparr>;
                   after_method = drop (Suc method_len) line;
                   path_len = (case memchr SP after_method of None \<Rightarrow> length after_method | Some n \<Rightarrow> n) in
            if \<not> e_malloc env 7 then (conn1, False)
            else (conn1\<lparr>c_path := Some (take path_len after_method), c_path_len := path_len,
                     content_length := parse_content_length headers beyond,
                     keep_alive := parse_keep_alive headers (keep_alive conn1)\<rparr>, True)))"

subsection \<open>Responses\<close>

text \<open>A status line, header lines in order, the empty line and the body.\<close>

definition header_lines :: "(string \<times> string) list \<Rightarrow> string" where
  "header_lines hs = concat (map (\<lambda>(n, v). n @ '': '' @ v @ CRLF) hs)"

definition response_text :: "int \<Rightarrow> string \<Rightarrow> (string \<times> string) list \<Rightarrow> string \<Rightarrow> string" where
  "response_text code reason hs body =
    ''HTTP/1.1 '' @ fmt_d code @ '' '' @ reason @ CRLF @ header_lines hs @ CRLF @ body"

definition conn_option :: "Connection \<Rightarrow> string" where
  "conn_option conn = (if keep_alive conn then ''keep-alive'' else ''close'')"

text \<open>What every responder does at its end: queue the text, record it for the log, set the state.\<close>

definition finish_response :: "string \<Rightarrow> int \<Rightarrow> nat \<Rightarrow> bool \<Rightarrow> Connection \<Rightarrow> Connection" where
  "finish_response text code bytes stay conn =
    conn\<lparr>outbuf := outbuf conn @ text, response_status := code, response_bytes := bytes,
         c_state := (if stay then CONN_STATE_WRITING_RESPONSE else CONN_STATE_CLOSING)\<rparr>"

definition cache_control_line :: "Config \<Rightarrow> string \<times> string" where
  "cache_control_line cfg =
    (''Cache-Control'', if cache_max_age cfg > 0 then ''public, max-age='' @ fmt_d (cache_max_age cfg) else ''no-store'')"

definition serve_static_file :: "Config \<Rightarrow> StaticFile \<Rightarrow> int \<Rightarrow> string \<Rightarrow> Connection \<Rightarrow> Connection" where
  "serve_static_file cfg file status_code status_text conn =
    finish_response
      (response_text status_code status_text
        [(''Content-Type'', sf_content_type file), (''Content-Length'', fmt_u (sf_length file)),
         cache_control_line cfg, (''Connection'', conn_option conn), (''X-Request-ID'', request_id conn)]
        (take (sf_length file) (sf_content file)))
      status_code (sf_length file) (keep_alive conn) conn"

definition probe_headers :: "string \<Rightarrow> nat \<Rightarrow> string \<Rightarrow> Connection \<Rightarrow> (string \<times> string) list" where
  "probe_headers content_type len option conn =
    [(''Content-Type'', content_type), (''Content-Length'', fmt_u len), (''Cache-Control'', ''no-store''),
     (''X-Request-ID'', request_id conn), (''Connection'', option)]"

definition serve_health :: "Env \<Rightarrow> WorkerProcess \<Rightarrow> Connection \<Rightarrow> Connection" where
  "serve_health env w conn = (case generate_health_body env w 1024 of (body, body_len) \<Rightarrow>
     finish_response (response_text 200 ''OK'' (probe_headers ''application/json'' body_len (conn_option conn) conn) body)
       200 body_len (keep_alive conn) conn)"

definition serve_ready :: "WorkerProcess \<Rightarrow> Connection \<Rightarrow> Connection" where
  "serve_ready w conn =
    (let status = (if draining w then 503 else 200);
         status_text = (if draining w then ''Service Unavailable'' else ''OK'') in
     finish_response (response_text status status_text (probe_headers ''text/plain'' 0 (conn_option conn) conn) [])
       status 0 (keep_alive conn) conn)"

definition serve_version :: "Connection \<Rightarrow> Connection" where
  "serve_version conn =
    finish_response
      (response_text 200 ''OK'' (probe_headers ''application/json'' (length version_body) (conn_option conn) conn) version_body)
      200 (length version_body) (keep_alive conn) conn"

definition serve_alive :: "Connection \<Rightarrow> Connection" where
  "serve_alive conn =
    finish_response (response_text 200 ''OK'' (probe_headers ''text/plain'' 0 (conn_option conn) conn) [])
      200 0 (keep_alive conn) conn"

definition serve_metrics :: "Env \<Rightarrow> WorkerProcess \<Rightarrow> Connection \<Rightarrow> Connection" where
  "serve_metrics env w conn = (case generate_metrics_body env w 16384 of (body, body_len) \<Rightarrow>
     finish_response
       (response_text 200 ''OK'' (probe_headers ''text/plain; version=0.0.4; charset=utf-8'' body_len ''close'' conn) body)
       200 body_len False conn)"

text \<open>The challenge file of a path: its content, or \<open>None\<close> where the code goes to \<open>not_found\<close>.\<close>

definition acme_challenge_h1 :: "Env \<Rightarrow> Config \<Rightarrow> string \<Rightarrow> string option" where
  "acme_challenge_h1 env cfg path =
    (let prefix_len = 27; path_len = length path in
     if path_len < prefix_len + 2 \<or> hd path \<noteq> CHR ''/'' then None
     else let token = drop (1 + prefix_len) path in
       if strstr token ''..'' \<noteq> None \<or> strchr token (CHR ''/'') \<noteq> None \<or> strchr token BSLASH \<noteq> None then None
       else if \<not> list_all base64url token then None
       else let filepath = acme_challenge_dir cfg @ ''/'' @ token in
         if 512 \<le> length filepath then None
         else read_challenge_file env filepath)"

definition conn_path :: "Connection \<Rightarrow> string" where
  "conn_path conn = take (c_path_len conn) (case c_path conn of None \<Rightarrow> [] | Some p \<Rightarrow> p)"

definition serve_acme_challenge :: "Env \<Rightarrow> Config \<Rightarrow> Connection \<Rightarrow> Connection" where
  "serve_acme_challenge env cfg conn = (case acme_challenge_h1 env cfg (conn_path conn) of
     Some content \<Rightarrow>
       finish_response (response_text 200 ''OK'' (probe_headers ''text/plain'' (length content) (conn_option conn) conn) content)
         200 (length content) (keep_alive conn) conn
   | None \<Rightarrow>
       finish_response (response_text 404 ''Not Found'' (probe_headers ''text/plain'' 9 ''close'' conn) ''Not Found'')
         404 9 False conn)"

definition process_request :: "Env \<Rightarrow> WorkerProcess \<times> Connection \<Rightarrow> WorkerProcess \<times> Connection" where
  "process_request env st = (case st of (w0, conn0) \<Rightarrow>
     let conn = conn0\<lparr>c_state := CONN_STATE_PROCESSING\<rparr>;
         route = route_request (conn_path conn);
         w = update_endpoint_counter route w0 in
     (w, case route of
        ROUTE_HEALTH \<Rightarrow> serve_health env w conn
      | ROUTE_READY \<Rightarrow> serve_ready w conn
      | ROUTE_VERSION \<Rightarrow> serve_version conn
      | ROUTE_ALIVE \<Rightarrow> serve_alive conn
      | ROUTE_METRICS \<Rightarrow> serve_metrics env w conn
      | ROUTE_ACME_CHALLENGE \<Rightarrow> serve_acme_challenge env (w_config w) conn
      | ROUTE_ERROR \<Rightarrow> serve_static_file (w_config w) (static_file_for (w_static_files w) ROUTE_ERROR) 404 ''Not Found'' conn
      | _ \<Rightarrow> serve_static_file (w_config w) (static_file_for (w_static_files w) route) 200 ''OK'' conn))"

definition connection_send_response :: "int \<Rightarrow> string \<Rightarrow> string option \<Rightarrow> Connection \<Rightarrow> Connection" where
  "connection_send_response status_code status_text body conn =
    (let b = (case body of None \<Rightarrow> [] | Some s \<Rightarrow> cstr s) in
     finish_response
       (response_text status_code status_text
         [(''Content-Type'', ''text/plain''), (''Content-Length'', fmt_u (length b)), (''Connection'', conn_option conn),
          (''X-Request-ID'', request_id conn)] b)
       status_code (length b) (keep_alive conn) conn)"

definition connection_send_error :: "int \<Rightarrow> string \<Rightarrow> Connection \<Rightarrow> Connection" where
  "connection_send_error status_code status_text conn =
    connection_send_response status_code status_text
      (Some (snprintf_buf 256 (''Error '' @ fmt_d status_code @ '': '' @ status_text @ [LF])))
      (conn\<lparr>keep_alive := False\<rparr>)"

subsection \<open>The read callback\<close>

text \<open>
  What one run of the callback gets from outside besides the environment: the memory behind the
  header block, and for HTTP/2 the callbacks nghttp2 makes for the input, whether it accepts the
  input, the streams that end during the final send, and the bytes that it hands to the send
  callback meanwhile. (A failure to add them to the output makes the session fail to send.)
\<close>

record ReadInput =
  ri_beyond :: string
  ri_events :: "H2Event list"
  ri_recv_ok :: bool
  ri_closes :: "int list"
  ri_sent :: string

type_synonym conn_result = "WorkerProcess \<times> Connection option"

definition conn_close :: "WorkerProcess \<Rightarrow> Connection \<Rightarrow> conn_result" where
  "conn_close w conn = (connection_free w conn, None)"

definition conn_stay :: "WorkerProcess \<times> Connection \<Rightarrow> conn_result" where
  "conn_stay st = (case st of (w, conn) \<Rightarrow> (w, Some conn))"

text \<open>The next part of a callback runs unless the connection was freed.\<close>

definition conn_then :: "conn_result \<Rightarrow> (WorkerProcess \<Rightarrow> Connection \<Rightarrow> conn_result) \<Rightarrow> conn_result" where
  "conn_then r f = (case r of (w, None) \<Rightarrow> (w, None) | (w, Some conn) \<Rightarrow> f w conn)"

definition TLS1_2_VERSION :: nat where "TLS1_2_VERSION = 771"
definition TLS1_3_VERSION :: nat where "TLS1_3_VERSION = 772"

text \<open>The first run after the TLS handshake. A new session has no stream, so its first send ends none.\<close>

definition read_tls_handshake :: "Env \<Rightarrow> WorkerProcess \<Rightarrow> Connection \<Rightarrow> conn_result" where
  "read_tls_handshake env w conn =
    (if c_ssl conn \<and> \<not> tls_handshake_done conn \<and> e_ssl_init_finished env then
       let conn1 = conn\<lparr>tls_handshake_done := True\<rparr>;
           w1 = bump Tls_handshakes_total w;
           w2 = (if e_ssl_version env = TLS1_3_VERSION then bump Tls_protocol_tls13 w1
                 else if e_ssl_version env = TLS1_2_VERSION then bump Tls_protocol_tls12 w1 else w1) in
       if e_alpn_h2 env then
         (case h2_connection_init env w2 conn1 of
            None \<Rightarrow> conn_close w2 conn1
          | Some conn2 \<Rightarrow>
             (case c_h2 conn2 of
                None \<Rightarrow> (w2, Some conn2)
              | Some h2 \<Rightarrow>
                 (case h2_send_pending env [] (w2, h2) of ((w3, h2'), rv) \<Rightarrow>
                   if rv < 0 then conn_close w3 (conn2\<lparr>c_h2 := Some h2'\<rparr>)
                   else (w3, Some (conn2\<lparr>c_h2 := Some h2'\<rparr>)))))
       else (w2, Some conn1)
     else (w, Some conn))"

definition read_slowloris :: "Env \<Rightarrow> nat \<Rightarrow> WorkerProcess \<Rightarrow> Connection \<Rightarrow> conn_result" where
  "read_slowloris env available w conn =
    (if elapsed_sec (e_rnd env) (e_now env) (c_start_time conn) > MAX_REQUEST_TIME_SEC
     then conn_close (bump Slowloris_kills w) conn
     else if elapsed_sec (e_rnd env) (e_now env) (last_progress_time conn) \<ge> THROUGHPUT_CHECK_INTERVAL_SEC then
       (if available < bytes_at_last_check conn \<or> available - bytes_at_last_check conn < MIN_BYTES_PER_CHECK
        then conn_close (bump Slowloris_kills w) conn
        else (w, Some (conn\<lparr>last_progress_time := e_now env, bytes_at_last_check := available\<rparr>)))
     else (w, Some conn))"

definition h2_send_callback :: "string \<Rightarrow> Connection \<Rightarrow> Connection" where
  "h2_send_callback data conn = conn\<lparr>outbuf := outbuf conn @ data\<rparr>"

definition read_http2 :: "Env \<Rightarrow> ReadInput \<Rightarrow> H2Connection \<Rightarrow> WorkerProcess \<Rightarrow> Connection \<Rightarrow> conn_result" where
  "read_http2 env ri h2 w conn =
    (if 0 < length (inbuf conn) \<and> e_malloc env 4 then
       (case h2_process_input env (ri_events ri) (ri_recv_ok ri) (ri_closes ri) (w, h2) of ((w', h2'), rv) \<Rightarrow>
         let conn1 = (h2_send_callback (ri_sent ri) conn)\<lparr>c_h2 := Some h2'\<rparr> in
         if rv < 0 then conn_close w' conn1 else (w', Some (conn1\<lparr>inbuf := []\<rparr>)))
     else (w, Some conn))"

text \<open>The end of a request: its slot goes back to the normal tier and it is answered.\<close>

definition request_complete :: "Env \<Rightarrow> WorkerProcess \<Rightarrow> Connection \<Rightarrow> conn_result" where
  "request_complete env w conn = conn_stay (process_request env (downgrade_tier_to_normal (w, conn)))"

definition read_header_block :: "Env \<Rightarrow> string \<Rightarrow> nat \<Rightarrow> WorkerProcess \<Rightarrow> Connection \<Rightarrow> conn_result" where
  "read_header_block env beyond found w conn =
    (let headers_len = found + 4; conn1 = conn\<lparr>headers_end := headers_len\<rparr> in
     if \<not> e_malloc env 6 then (w, Some (connection_send_error 500 ''Internal Server Error'' conn1))
     else let headers = take headers_len (inbuf conn) in
       case validate_path_early conn1 headers of
         (conn2, False) \<Rightarrow>
           (bump Errors_parse w, Some (connection_send_error 400 ''Bad Request - Invalid Characters'' conn2))
       | (conn2, True) \<Rightarrow>
         (case parse_request_headers env conn2 headers beyond of
            (conn3, False) \<Rightarrow> (bump Errors_parse w, Some (connection_send_error 400 ''Bad Request'' conn3))
          | (conn3, True) \<Rightarrow>
             if content_length conn3 > max_buffer_size (w_config w)
             then (w, Some (connection_send_error 413 ''Payload Too Large'' conn3))
             else let remaining = length (inbuf conn3) - headers_len;
                      conn4 = conn3\<lparr>inbuf := [], body_received := remaining\<rparr> in
               if content_length conn4 > 0 \<and> body_received conn4 < content_length conn4
               then (w, Some (conn4\<lparr>c_state := CONN_STATE_READING_BODY\<rparr>))
               else request_complete env w conn4))"

definition read_headers :: "Env \<Rightarrow> string \<Rightarrow> WorkerProcess \<Rightarrow> Connection \<Rightarrow> conn_result" where
  "read_headers env beyond w conn =
    (let available = length (inbuf conn) in
     if available > max_buffer_size (w_config w)
     then (w, Some (connection_send_error 413 ''Request Entity Too Large'' conn))
     else case try_promote_tier w conn available of
       ((w1, conn1), False) \<Rightarrow>
         (bump Slot_promotion_failures w1, Some (connection_send_error 503 ''Service Unavailable'' conn1))
     | ((w1, conn1), True) \<Rightarrow>
        (case memmem (CRLF @ CRLF) (drop (headers_scanned conn1) (inbuf conn1)) of
           None \<Rightarrow>
             let conn2 = conn1\<lparr>headers_scanned := (if available > 3 then available - 3 else 0)\<rparr> in
             if available > 0 \<and> e_malloc env 5 then
               (case validate_path_early conn2 (inbuf conn2) of
                  (conn3, False) \<Rightarrow>
                    (bump Errors_parse w1, Some (connection_send_error 400 ''Bad Request - Invalid Characters'' conn3))
                | (conn3, True) \<Rightarrow> (w1, Some conn3))
             else (w1, Some conn2)
         | Some n \<Rightarrow> read_header_block env beyond (headers_scanned conn1 + n) w1 conn1))"

definition read_body :: "Env \<Rightarrow> WorkerProcess \<Rightarrow> Connection \<Rightarrow> conn_result" where
  "read_body env w conn =
    (let available = length (inbuf conn); remaining = content_length conn - body_received conn;
         to_drain = (if available < remaining then available else remaining);
         conn1 = conn\<lparr>inbuf := drop to_drain (inbuf conn), body_received := body_received conn + to_drain\<rparr> in
     if body_received conn1 \<ge> content_length conn1 then request_complete env w conn1
     else (w, Some conn1))"

definition read_http1 :: "Env \<Rightarrow> string \<Rightarrow> WorkerProcess \<Rightarrow> Connection \<Rightarrow> conn_result" where
  "read_http1 env beyond w conn = (case c_state conn of
     CONN_STATE_READING_HEADERS \<Rightarrow> read_headers env beyond w conn
   | CONN_STATE_READING_BODY \<Rightarrow> read_body env w conn
   | _ \<Rightarrow> (w, Some conn))"

definition conn_read_cb :: "Env \<Rightarrow> ReadInput \<Rightarrow> WorkerProcess \<Rightarrow> Connection \<Rightarrow> conn_result" where
  "conn_read_cb env ri w conn =
    (let available = length (inbuf conn) in
     conn_then (read_tls_handshake env w conn) (\<lambda>w conn.
     conn_then (read_slowloris env available w conn) (\<lambda>w conn.
       case (c_protocol conn, c_h2 conn) of
         (PROTO_HTTP_2, Some h2) \<Rightarrow> read_http2 env ri h2 w conn
       | _ \<Rightarrow> read_http1 env (ri_beyond ri) w conn)))"

subsection \<open>The write and event callbacks\<close>

definition connection_reset_for_keepalive :: "Env \<Rightarrow> WorkerProcess \<Rightarrow> Connection \<Rightarrow> WorkerProcess \<times> Connection" where
  "connection_reset_for_keepalive env w conn =
    (let conn1 = conn\<lparr>c_path := None, c_path_len := 0, headers_scanned := 0, headers_end := 0, content_length := 0,
           body_received := 0, c_method := [], path_validated := False, validation_failed := False\<rparr>;
         ready = (\<lambda>w conn. (w\<lparr>keepalive_counter := keepalive_counter w + 1\<rparr>,
           conn\<lparr>response_status := 0, response_bytes := 0, c_start_time := e_now env, last_progress_time := e_now env,
             bytes_at_last_check := 0, request_id := request_id_text w (e_now env) (keepalive_counter w),
             c_state := CONN_STATE_READING_HEADERS, requests_on_connection := requests_on_connection conn + 1\<rparr>)) in
     if slot_held conn1 \<and> current_tier conn1 \<noteq> TIER_NORMAL then
       (case slot_manager_acquire (slot_manager_release (w_slots w) (current_tier conn1)) TIER_NORMAL of
          (False, sm) \<Rightarrow>
            (w\<lparr>w_slots := sm\<rparr>, conn1\<lparr>current_tier := TIER_NORMAL, keep_alive := False, slot_held := False\<rparr>)
        | (True, sm) \<Rightarrow> ready (w\<lparr>w_slots := sm\<rparr>) (conn1\<lparr>current_tier := TIER_NORMAL\<rparr>))
     else ready w conn1)"

definition log_request_complete :: "Env \<Rightarrow> Connection \<Rightarrow> WorkerProcess \<Rightarrow> WorkerProcess" where
  "log_request_complete env conn w =
    (if response_status conn = 0 then w
     else let duration_ms = elapsed_ms (e_rnd env) (e_now env) (c_start_time conn);
              duration_sec = e_rnd env (duration_ms / 1000);
              w1 = bump_by Response_bytes_total (response_bytes conn)
                (update_method_counters (Some (c_method conn))
                  (update_status_counters (response_status conn)
                    (update_latency_histogram (e_rnd env) duration_sec w)))
          in if requests_on_connection conn > 0 then bump Keepalive_reuses w1 else w1)"

definition conn_write_cb :: "Env \<Rightarrow> WorkerProcess \<Rightarrow> Connection \<Rightarrow> conn_result" where
  "conn_write_cb env w conn =
    (if length (outbuf conn) > 0 then (w, Some conn)
     else let w1 = log_request_complete env conn w in
       if c_state conn = CONN_STATE_CLOSING then conn_close w1 conn
       else if c_state conn = CONN_STATE_WRITING_RESPONSE \<and> keep_alive conn then
         (case connection_reset_for_keepalive env w1 conn of (w2, conn2) \<Rightarrow>
           if \<not> slot_held conn2 then conn_close w2 conn2 else (w2, Some conn2))
       else (w1, Some conn))"

text \<open>The event bits the callback looks at, and whether OpenSSL's error queue was not empty.\<close>

record BevEvents =
  bev_connected :: bool
  bev_timeout :: bool
  bev_error :: bool
  bev_ssl_error_queued :: bool

definition conn_event_cb :: "BevEvents \<Rightarrow> WorkerProcess \<Rightarrow> Connection \<Rightarrow> conn_result" where
  "conn_event_cb ev w conn =
    (if bev_connected ev then (w, Some conn)
     else let w1 = (if bev_timeout ev then bump Errors_timeout w
                    else if bev_error ev \<and> c_ssl conn \<and> bev_ssl_error_queued ev
                    then bump Errors_tls (bump Tls_handshake_errors w) else w)
          in conn_close w1 conn)"

subsection \<open>Slot accounting of connections\<close>

text \<open>The slots a connection holds: its own and those of its streams.\<close>

definition conn_holds :: "Connection \<Rightarrow> RequestTier \<Rightarrow> nat" where
  "conn_holds c t = (if slot_held c \<and> current_tier c = t then 1 else 0)
     + (case c_h2 c of None \<Rightarrow> 0 | Some h2 \<Rightarrow> h2_holds (h2_streams h2) t)"

definition conn_streams :: "Connection \<Rightarrow> nat" where
  "conn_streams c = (case c_h2 c of None \<Rightarrow> 0 | Some h2 \<Rightarrow> length (h2_streams h2))"

definition streams_ok :: "Connection \<Rightarrow> bool" where
  "streams_ok c \<longleftrightarrow> (case c_h2 c of None \<Rightarrow> True
     | Some h2 \<Rightarrow> (\<forall>s \<in> set (h2_streams h2). slot_acquired s) \<and> h2_stream_count h2 = int (length (h2_streams h2)))"

definition conn_ok :: "Connection \<Rightarrow> bool" where
  "conn_ok c \<longleftrightarrow> slot_held c \<and> (c_h2 c \<noteq> None \<longrightarrow> tls_handshake_done c) \<and> streams_ok c"

text \<open>A draining worker has stopped its listeners, and has asked the loop to exit once it is idle.\<close>

definition drain_ok :: "WorkerProcess \<Rightarrow> bool" where
  "drain_ok w \<longleftrightarrow> draining w \<longrightarrow> (w_listener w \<longrightarrow> listener_disabled w) \<and> (w_tls_listener w \<longrightarrow> tls_listener_disabled w)
     \<and> (active_connections w = 0 \<longrightarrow> loopexit w)"

text \<open>
  The worker's counters are exact for holders \<open>rest\<close>, \<open>n\<close> streams and \<open>k\<close> connections, and what
  that says of a callback's result when the rest of the worker has \<open>rest\<close>, \<open>n\<close> and \<open>k\<close>.
\<close>

definition worker_counts :: "(RequestTier \<Rightarrow> int) \<Rightarrow> (RequestTier \<Rightarrow> nat) \<Rightarrow> nat \<Rightarrow> nat \<Rightarrow> WorkerProcess \<Rightarrow> bool" where
  "worker_counts m rest n k w \<longleftrightarrow> sm.accounts m (w_slots w) rest \<and> h2_streams_active w = int n
     \<and> active_connections w = int k \<and> drain_ok w"

definition conn_inv :: "(RequestTier \<Rightarrow> int) \<Rightarrow> (RequestTier \<Rightarrow> nat) \<Rightarrow> nat \<Rightarrow> nat \<Rightarrow> WorkerProcess \<Rightarrow> Connection \<Rightarrow> bool" where
  "conn_inv m rest n k w c \<longleftrightarrow> worker_counts m (\<lambda>t. rest t + conn_holds c t) (n + conn_streams c) (Suc k) w \<and> conn_ok c"

definition result_inv :: "(RequestTier \<Rightarrow> int) \<Rightarrow> (RequestTier \<Rightarrow> nat) \<Rightarrow> nat \<Rightarrow> nat \<Rightarrow> conn_result \<Rightarrow> bool" where
  "result_inv m rest n k r \<longleftrightarrow> (case r of (w, None) \<Rightarrow> worker_counts m rest n k w | (w, Some c) \<Rightarrow> conn_inv m rest n k w c)"

text \<open>What no connection callback changes in the worker.\<close>

definition w_kept :: "WorkerProcess \<Rightarrow> WorkerProcess \<Rightarrow> bool" where
  "w_kept w w' \<longleftrightarrow> draining w' = draining w \<and> w_listener w' = w_listener w \<and> w_tls_listener w' = w_tls_listener w
     \<and> w_config w' = w_config w \<and> w_rate_limiter w' = w_rate_limiter w \<and> w_ip_acl w' = w_ip_acl w
     \<and> w_static_files w' = w_static_files w"

definition conn_keeps :: "(RequestTier \<Rightarrow> int) \<Rightarrow> (RequestTier \<Rightarrow> nat) \<Rightarrow> nat \<Rightarrow> nat \<Rightarrow> WorkerProcess \<Rightarrow> Connection \<Rightarrow> conn_result \<Rightarrow> bool" where
  "conn_keeps m rest n k w c r \<longleftrightarrow> (conn_inv m rest n k w c \<longrightarrow> result_inv m rest n k r) \<and> w_kept w (fst r)"

text \<open>Changes that leave the accounting alone.\<close>

definition conn_same :: "Connection \<Rightarrow> Connection \<Rightarrow> bool" where
  "conn_same c c' \<longleftrightarrow> slot_held c' = slot_held c \<and> current_tier c' = current_tier c \<and> c_h2 c' = c_h2 c
     \<and> (tls_handshake_done c \<longrightarrow> tls_handshake_done c')"

definition w_calm :: "WorkerProcess \<Rightarrow> WorkerProcess \<Rightarrow> bool" where
  "w_calm w w' \<longleftrightarrow> w_same w w' \<and> w_slots w' = w_slots w \<and> h2_streams_active w' = h2_streams_active w"

lemma result_inv_simps [simp]:
  "result_inv m rest n k (w, None) = worker_counts m rest n k w"
  "result_inv m rest n k (w, Some c) = conn_inv m rest n k w c"
  by (simp_all add: result_inv_def)

lemma w_kept_refl [simp]: "w_kept w w"
  by (simp add: w_kept_def)

lemma w_kept_trans: "w_kept a b \<Longrightarrow> w_kept b c \<Longrightarrow> w_kept a c"
  by (simp add: w_kept_def)

lemma w_same_kept: "w_same w w' \<Longrightarrow> w_kept w w'"
  by (simp add: w_kept_def w_same_def)

lemma w_calm_kept: "w_calm w w' \<Longrightarrow> w_kept w w'"
  by (simp add: w_calm_def w_same_kept)

lemma w_calm_refl [simp]: "w_calm w w"
  by (simp add: w_calm_def)

lemma w_calm_trans: "w_calm a b \<Longrightarrow> w_calm b c \<Longrightarrow> w_calm a c"
  by (auto simp: w_calm_def intro: w_same_trans)

lemma w_calm_bump [simp]:
  "w_calm w (bump c w)" "w_calm w (bump_by c j w)" "w_calm w (update_endpoint_counter r w)"
  "w_calm w (w\<lparr>request_counter := x\<rparr>)" "w_calm w (w\<lparr>keepalive_counter := x\<rparr>)"
  by (simp_all add: w_calm_def w_same_def)

lemma conn_same_refl [simp]: "conn_same c c"
  by (simp add: conn_same_def)

lemma conn_same_trans: "conn_same a b \<Longrightarrow> conn_same b c \<Longrightarrow> conn_same a c"
  by (simp add: conn_same_def)

lemma conn_inv_calm:
  assumes "conn_inv m rest n k w c" "w_calm w w'" "conn_same c c'"
  shows "conn_inv m rest n k w' c'"
proof -
  have "conn_holds c' = conn_holds c" "conn_streams c' = conn_streams c" "conn_ok c \<Longrightarrow> conn_ok c'"
    using assms(3) by (auto simp: conn_holds_def conn_streams_def conn_ok_def streams_ok_def conn_same_def fun_eq_iff)
  then show ?thesis
    using assms(1,2) by (simp add: conn_inv_def worker_counts_def drain_ok_def w_calm_def w_same_def)
qed

lemma keeps_calm: "w_calm w w' \<Longrightarrow> conn_same c c' \<Longrightarrow> conn_keeps m rest n k w c (w', Some c')"
  by (simp add: conn_keeps_def conn_inv_calm w_calm_kept)

lemma keeps_after_calm:
  assumes "w_calm w w'" "conn_same c c'" "conn_keeps m rest n k w' c' r"
  shows "conn_keeps m rest n k w c r"
  using assms conn_inv_calm w_kept_trans [OF w_calm_kept [OF assms(1)]] by (auto simp: conn_keeps_def)

lemma keeps_step:
  assumes "conn_keeps m rest n k w c (w', Some c')" "conn_keeps m rest n k w' c' r"
  shows "conn_keeps m rest n k w c r"
  using assms w_kept_trans by (auto simp: conn_keeps_def)

lemma conn_then_keeps:
  assumes "conn_keeps m rest n k w c r" "\<And>w' c'. r = (w', Some c') \<Longrightarrow> conn_keeps m rest n k w' c' (f w' c')"
  shows "conn_keeps m rest n k w c (conn_then r f)"
proof (cases r)
  case (Pair w' co)
  show ?thesis
  proof (cases co)
    case None
    then show ?thesis using assms(1) Pair by (simp add: conn_then_def)
  next
    case (Some c')
    then show ?thesis using keeps_step [OF assms(1)[unfolded Pair Some] assms(2)] Pair by (simp add: conn_then_def)
  qed
qed

text \<open>The connection's own slot, apart from its streams.\<close>

definition own_slot :: "Connection \<Rightarrow> RequestTier \<Rightarrow> nat" where
  "own_slot c t = (if slot_held c \<and> current_tier c = t then 1 else 0)"

lemma conn_inv_h2:
  assumes "c_h2 c = Some h2"
  shows "conn_inv m rest n k w c \<longleftrightarrow> h2_ok m (\<lambda>t. rest t + own_slot c t) n (w, h2) \<and> slot_held c
     \<and> tls_handshake_done c \<and> active_connections w = int (Suc k) \<and> drain_ok w"
  using assms by (auto simp: conn_inv_def h2_ok_def worker_counts_def conn_holds_def conn_streams_def conn_ok_def streams_ok_def
      own_slot_def add.assoc)

lemma conn_inv_no_h2:
  assumes "c_h2 c = None"
  shows "conn_inv m rest n k w c \<longleftrightarrow> worker_counts m (\<lambda>t. rest t + own_slot c t) n (Suc k) w \<and> slot_held c"
  using assms by (auto simp: conn_inv_def conn_holds_def conn_streams_def conn_ok_def streams_ok_def own_slot_def)

lemma keeps_h2:
  assumes "c_h2 c = Some h2" "\<And>rest' n'. h2_keeps m rest' n' (w, h2) (w', h2')"
    and "slot_held c' = slot_held c" "current_tier c' = current_tier c" "c_h2 c' = Some h2'"
      "tls_handshake_done c' = tls_handshake_done c"
  shows "conn_keeps m rest n k w c (w', Some c')"
proof -
  have own: "own_slot c' = own_slot c" using assms(3,4) by (simp add: own_slot_def fun_eq_iff)
  have kp: "h2_ok m (\<lambda>t. rest t + own_slot c t) n (w, h2) \<longrightarrow> h2_ok m (\<lambda>t. rest t + own_slot c t) n (w', h2')"
    and same: "w_same w w'"
    using assms(2) [of "\<lambda>t. rest t + own_slot c t" n] by (simp_all add: h2_keeps_def)
  show ?thesis
    using kp same assms(3,6) by (auto simp: conn_keeps_def conn_inv_h2 [OF assms(1)] conn_inv_h2 [OF assms(5)] own
        drain_ok_def w_same_def w_kept_def)
qed

lemma check_drain_frame [simp]:
  "w_slots (worker_check_drain w) = w_slots w" "h2_streams_active (worker_check_drain w) = h2_streams_active w"
  "active_connections (worker_check_drain w) = active_connections w" "draining (worker_check_drain w) = draining w"
  by (simp_all add: worker_check_drain_def Let_def)

lemma check_drain_kept: "w_kept w (worker_check_drain w)"
  by (simp add: worker_check_drain_def Let_def w_kept_def)

lemma check_drain_ok: "drain_ok (worker_check_drain w)"
  by (simp add: worker_check_drain_def Let_def drain_ok_def)

lemma accounts_drop_own:
  assumes "sm.accounts m s (\<lambda>t. rest t + own_slot c t)" "slot_held c"
  shows "sm.accounts m (slot_manager_release s (current_tier c)) rest"
proof -
  let ?h = "\<lambda>t. rest t + own_slot c t"
  have "?h(current_tier c := ?h (current_tier c) - 1) = rest"
    using assms(2) by (auto simp: own_slot_def fun_eq_iff)
  then show ?thesis using sm.accounts_release [OF assms(1), of "current_tier c"] assms(2) by (simp add: own_slot_def)
qed

text \<open>Freeing a connection gives back its slot and those of its streams.\<close>

lemma connection_free_counts:
  assumes inv: "worker_counts m (\<lambda>t. rest t + conn_holds c t) (n + conn_streams c) (Suc k) w" and "streams_ok c"
  shows "worker_counts m rest n k (connection_free w c)"
proof -
  define w1 where "w1 = (case c_h2 c of None \<Rightarrow> w | Some h2 \<Rightarrow> h2_connection_free w h2)"
  have w1: "sm.accounts m (w_slots w1) (\<lambda>t. rest t + own_slot c t) \<and> h2_streams_active w1 = int n
     \<and> active_connections w1 = int (Suc k)"
  proof (cases "c_h2 c")
    case None
    then show ?thesis using inv by (simp add: w1_def worker_counts_def conn_holds_def conn_streams_def own_slot_def)
  next
    case (Some h2)
    then have "h2_ok m (\<lambda>t. rest t + own_slot c t) n (w, h2)" "active_connections w = int (Suc k)"
      using assms by (auto simp: h2_ok_def worker_counts_def conn_holds_def conn_streams_def streams_ok_def
          own_slot_def add.assoc)
    then show ?thesis using connection_free_ok [of m "\<lambda>t. rest t + own_slot c t" n w h2] Some
      by (simp add: w1_def w_same_def)
  qed
  define s where "s = (if slot_held c then slot_manager_release (w_slots w1) (current_tier c) else w_slots w1)"
  have s: "sm.accounts m s rest"
    using w1 accounts_drop_own [of m "w_slots w1" rest c] by (auto simp: s_def own_slot_def)
  have "connection_free w c = worker_check_drain (bump Requests_processed
      (w1\<lparr>w_slots := s, active_connections := active_connections w1 - 1\<rparr>))"
    by (simp add: connection_free_def w1_def s_def Let_def)
  then show ?thesis using w1 s by (simp add: worker_counts_def check_drain_ok)
qed

lemma h2_connection_free_same: "w_same w (h2_connection_free w h2)"
proof (induction w h2 rule: h2_connection_free.induct)
  case (1 w h2)
  show ?case
  proof (cases "h2_streams h2")
    case Nil
    then show ?thesis by (subst h2_connection_free.simps) simp
  next
    case (Cons s ss)
    obtain w' h2' where f: "h2_stream_free w h2 s = (w', h2')" by force
    then have "w_same w w'" using w_same_stream_free [of w h2 s] by simp
    then show ?thesis using w_same_trans "1.IH" [OF Cons f [symmetric]] Cons f
      by (subst h2_connection_free.simps) simp
  qed
qed

lemma connection_free_kept: "w_kept w (connection_free w c)"
proof -
  define w1 where "w1 = (case c_h2 c of None \<Rightarrow> w | Some h2 \<Rightarrow> h2_connection_free w h2)"
  define w3 where "w3 = bump Requests_processed ((if slot_held c
     then w1\<lparr>w_slots := slot_manager_release (w_slots w1) (current_tier c)\<rparr> else w1)
       \<lparr>active_connections := active_connections w1 - 1\<rparr>)"
  have "w_kept w w1" using h2_connection_free_same w_same_kept by (auto simp: w1_def split: option.split)
  moreover have "w_kept w1 w3" by (simp add: w3_def w_kept_def)
  moreover have "connection_free w c = worker_check_drain w3" by (simp add: connection_free_def w1_def w3_def Let_def)
  ultimately show ?thesis using w_kept_trans check_drain_kept by metis
qed

lemma close_conn_keeps: "conn_keeps m rest n k w c (conn_close w c)"
  by (simp add: conn_keeps_def conn_close_def connection_free_counts connection_free_kept conn_inv_def conn_ok_def)

lemma close_calm_keeps: "w_calm w w' \<Longrightarrow> conn_same c c' \<Longrightarrow> conn_keeps m rest n k w c (conn_close w' c')"
  by (rule keeps_after_calm [OF _ _ close_conn_keeps])

text \<open>Moving the connection's own slot to another tier.\<close>

definition base_holds :: "(RequestTier \<Rightarrow> nat) \<Rightarrow> Connection \<Rightarrow> RequestTier \<Rightarrow> nat" where
  "base_holds rest c t = rest t + (case c_h2 c of None \<Rightarrow> 0 | Some h2 \<Rightarrow> h2_holds (h2_streams h2) t)"

lemma conn_inv_own:
  "conn_inv m rest n k w c \<longleftrightarrow> sm.accounts m (w_slots w) (\<lambda>t. base_holds rest c t + own_slot c t)
     \<and> h2_streams_active w = int (n + conn_streams c) \<and> active_connections w = int (Suc k) \<and> drain_ok w \<and> conn_ok c"
proof -
  have "(\<lambda>t. rest t + conn_holds c t) = (\<lambda>t. base_holds rest c t + own_slot c t)"
    by (simp add: conn_holds_def base_holds_def own_slot_def fun_eq_iff)
  then show ?thesis by (auto simp: conn_inv_def worker_counts_def)
qed

lemma base_holds_tier [simp]: "base_holds rest (c\<lparr>current_tier := t\<rparr>) = base_holds rest c"
  by (simp add: base_holds_def fun_eq_iff)

lemma own_slot_move:
  assumes "slot_held c" "h = (\<lambda>t. base t + own_slot c t)"
  shows "(h(current_tier c := h (current_tier c) - 1))(b := (h(current_tier c := h (current_tier c) - 1)) b + 1)
     = (\<lambda>t. base t + own_slot (c\<lparr>current_tier := b\<rparr>) t)"
  using assms(1) unfolding assms(2) by (auto simp: own_slot_def fun_eq_iff)

lemma conn_inv_retier:
  assumes "conn_inv m rest n k w c" "sm.accounts m s (\<lambda>t. base_holds rest c t + own_slot (c\<lparr>current_tier := b\<rparr>) t)"
  shows "conn_inv m rest n k (w\<lparr>w_slots := s\<rparr>) (c\<lparr>current_tier := b\<rparr>)"
  using assms by (simp add: conn_inv_own drain_ok_def conn_ok_def streams_ok_def conn_streams_def)

lemma w_slots_kept [simp]: "w_kept w (w\<lparr>w_slots := s\<rparr>)"
  by (simp add: w_kept_def)

lemma own_pos: "conn_inv m rest n k w c \<Longrightarrow> 0 < base_holds rest c (current_tier c) + own_slot c (current_tier c)"
  by (simp add: conn_inv_def conn_ok_def streams_ok_def own_slot_def)

lemma promote_keeps:
  assumes "try_promote_tier w c len = ((w', c'), ok)"
  shows "conn_keeps m rest n k w c (w', Some c')"
proof (cases "size_to_tier len (w_config w) \<le> current_tier c")
  case True
  then show ?thesis using assms by (simp add: try_promote_tier_def keeps_calm)
next
  case False
  let ?req = "size_to_tier len (w_config w)"
  obtain b s where p: "slot_manager_promote (w_slots w) (current_tier c) ?req = (b, s)" by force
  show ?thesis
  proof (cases b)
    case True
    then have r: "w' = w\<lparr>w_slots := s\<rparr>" "c' = c\<lparr>current_tier := ?req\<rparr>"
      using assms False p by (simp_all add: try_promote_tier_def Let_def)
    have "conn_inv m rest n k w' c'" if inv: "conn_inv m rest n k w c"
    proof -
      have "slot_held c" using inv by (simp add: conn_inv_def conn_ok_def streams_ok_def)
      note eq = own_slot_move [OF this refl, of "base_holds rest c" ?req]
      have "sm.accounts m (w_slots w) (\<lambda>t. base_holds rest c t + own_slot c t)" using inv by (simp add: conn_inv_own)
      from promote_accounts [OF this own_pos [OF inv], of ?req s] p True False
      have "sm.accounts m s (\<lambda>t. base_holds rest c t + own_slot (c\<lparr>current_tier := ?req\<rparr>) t)"
        unfolding eq by simp
      then show ?thesis unfolding r by (rule conn_inv_retier [OF inv])
    qed
    then show ?thesis using r by (simp add: conn_keeps_def)
  next
    case fail: False
    then have "s = w_slots w" using p promote_fail_same [of "w_slots w" "current_tier c" ?req s] by simp
    then have "w' = w" "c' = c" using assms False p fail by (auto simp: try_promote_tier_def Let_def)
    then show ?thesis by (simp add: keeps_calm)
  qed
qed

text \<open>
  Releasing a tier and taking a normal slot, with the released tier as the fallback: one of the two
  acquisitions succeeds.
\<close>

lemma downgrade_conn_keeps:
  assumes "downgrade_tier_to_normal (w, c) = (w', c')"
  shows "conn_keeps m rest n k w c (w', Some c')"
proof -
  have "w_kept w w'"
    using assms by (auto simp: downgrade_tier_to_normal_def Let_def split: if_splits prod.splits bool.splits)
  moreover have "conn_inv m rest n k w' c'" if inv: "conn_inv m rest n k w c"
  proof (cases "current_tier c = TIER_NORMAL")
    case True
    then show ?thesis using assms inv by (simp add: downgrade_tier_to_normal_def)
  next
    case False
    have held: "slot_held c" using inv by (simp add: conn_inv_def conn_ok_def streams_ok_def)
    have acc: "sm.accounts m (w_slots w) (\<lambda>t. base_holds rest c t + own_slot c t)" using inv by (simp add: conn_inv_own)
    let ?s1 = "slot_manager_release (w_slots w) (current_tier c)"
    obtain b s2 where a: "slot_manager_acquire ?s1 TIER_NORMAL = (b, s2)" by force
    show ?thesis
    proof (cases b)
      case True
      have "sm.accounts m s2 (\<lambda>t. base_holds rest c t + own_slot (c\<lparr>current_tier := TIER_NORMAL\<rparr>) t)"
        using sm.accounts_move [OF acc own_pos [OF inv], of TIER_NORMAL s2] a True
        unfolding own_slot_move [OF held refl] by simp
      then show ?thesis using conn_inv_retier [OF inv] assms held False a True
        by (auto simp: downgrade_tier_to_normal_def Let_def)
    next
      case fail: False
      then have s2: "s2 = ?s1" using a sm.acquire_fail_same [of ?s1 TIER_NORMAL s2] by simp
      obtain s3 where r: "slot_manager_acquire ?s1 (current_tier c) = (True, s3)"
        using sm.reacquire_after_release [OF acc own_pos [OF inv]] by blast
      have "sm.accounts m s3 (\<lambda>t. base_holds rest c t + own_slot (c\<lparr>current_tier := current_tier c\<rparr>) t)"
        using sm.accounts_move [OF acc own_pos [OF inv] r] unfolding own_slot_move [OF held refl] .
      from conn_inv_retier [OF inv this] show ?thesis using assms held False a fail s2 r
        by (auto simp: downgrade_tier_to_normal_def Let_def)
    qed
  qed
  ultimately show ?thesis by (simp add: conn_keeps_def)
qed

text \<open>The parsers and responders touch no slot.\<close>

lemma conn_same_parts [simp]:
  "conn_same c (c\<lparr>headers_end := x1\<rparr>)" "conn_same c (c\<lparr>headers_scanned := x1\<rparr>)"
  "conn_same c (c\<lparr>inbuf := x2\<rparr>)" "conn_same c (c\<lparr>c_state := x3\<rparr>)" "conn_same c (c\<lparr>tls_handshake_done := True\<rparr>)"
  "conn_same c (c\<lparr>inbuf := x2, body_received := x1\<rparr>)" "conn_same c (c\<lparr>keep_alive := x4\<rparr>)"
  "conn_same c (c\<lparr>last_progress_time := x5, bytes_at_last_check := x1\<rparr>)"
  "conn_same c (c\<lparr>outbuf := x2\<rparr>)"
  by (simp_all add: conn_same_def)

lemma finish_response_same [simp]: "conn_same c (finish_response txt code b st c)"
  by (simp add: finish_response_def conn_same_def)

lemma send_error_same [simp]: "conn_same c (connection_send_error code txt c)"
proof -
  have "conn_same (c\<lparr>keep_alive := False\<rparr>) (connection_send_error code txt c)"
    by (simp add: connection_send_error_def connection_send_response_def Let_def)
  then show ?thesis by (rule conn_same_trans [rotated]) simp
qed

lemma validate_path_early_same: "validate_path_early c data = (c', ok) \<Longrightarrow> conn_same c c'"
  by (auto simp: validate_path_early_def Let_def conn_same_def split: if_splits option.splits)

lemma parse_request_headers_same: "parse_request_headers env c hs b = (c', ok) \<Longrightarrow> conn_same c c'"
  by (auto simp: parse_request_headers_def Let_def conn_same_def split: if_splits option.splits)

lemma serve_same [simp]:
  "conn_same c (serve_health env w c)" "conn_same c (serve_ready w c)" "conn_same c (serve_version c)"
  "conn_same c (serve_alive c)" "conn_same c (serve_metrics env w c)" "conn_same c (serve_acme_challenge env cfg c)"
  "conn_same c (serve_static_file cfg f code txt c)"
  by (auto simp: serve_health_def serve_ready_def serve_version_def serve_alive_def serve_metrics_def
      serve_acme_challenge_def serve_static_file_def Let_def split: prod.split option.split)

lemma process_request_calm:
  assumes "process_request env (w, c) = (w', c')"
  shows "w_calm w w' \<and> conn_same c c'"
proof -
  let ?c = "c\<lparr>c_state := CONN_STATE_PROCESSING\<rparr>"
  have "w' = update_endpoint_counter (route_request (conn_path ?c)) w" "conn_same ?c c'"
    using assms by (auto simp: process_request_def Let_def split: RouteType.split)
  then show ?thesis using conn_same_trans [of c ?c c'] by simp
qed

lemma request_complete_keeps: "conn_keeps m rest n k w c (request_complete env w c)"
proof -
  obtain w1 c1 where d: "downgrade_tier_to_normal (w, c) = (w1, c1)" by force
  obtain w2 c2 where p: "process_request env (w1, c1) = (w2, c2)" by force
  have "conn_keeps m rest n k w c (w2, Some c2)"
    using keeps_step [OF downgrade_conn_keeps [OF d] keeps_calm] process_request_calm [OF p] by blast
  then show ?thesis using d p by (simp add: request_complete_def conn_stay_def)
qed

lemma body_keeps: "conn_keeps m rest n k w c (read_body env w c)"
  unfolding read_body_def Let_def
  by (auto intro: keeps_calm keeps_after_calm [OF w_calm_refl _ request_complete_keeps])

lemma header_block_keeps: "conn_keeps m rest n k w c (read_header_block env b f w c)"
proof -
  let ?c1 = "c\<lparr>headers_end := f + 4\<rparr>"
  obtain c2 ok2 where v: "validate_path_early ?c1 (take (f + 4) (inbuf c)) = (c2, ok2)" by force
  obtain c3 ok3 where p: "parse_request_headers env c2 (take (f + 4) (inbuf c)) b = (c3, ok3)" by force
  have s1: "conn_same c ?c1" by simp
  have s2: "conn_same c c2" by (rule conn_same_trans [OF s1 validate_path_early_same [OF v]])
  have s3: "conn_same c c3" by (rule conn_same_trans [OF s2 parse_request_headers_same [OF p]])
  have s4: "conn_same c (c3\<lparr>inbuf := [], body_received := x\<rparr>)" for x by (rule conn_same_trans [OF s3]) simp
  have s5: "conn_same c (c3\<lparr>inbuf := [], body_received := x, c_state := y\<rparr>)" for x y
    by (rule conn_same_trans [OF s4 [of x]]) simp
  show ?thesis
    using keeps_calm conn_same_trans [OF s1] conn_same_trans [OF s2] conn_same_trans [OF s3] s5
      keeps_after_calm [OF w_calm_refl s4 request_complete_keeps]
    by (auto simp: read_header_block_def Let_def v p split: bool.split)
qed

lemma headers_keeps: "conn_keeps m rest n k w c (read_headers env b w c)"
proof (cases "length (inbuf c) > max_buffer_size (w_config w)")
  case True
  then show ?thesis by (simp add: read_headers_def keeps_calm)
next
  case False
  obtain w1 c1 ok where p: "try_promote_tier w c (length (inbuf c)) = ((w1, c1), ok)" by (metis prod.exhaust)
  note st = keeps_step [OF promote_keeps [OF p]]
  let ?c2 = "c1\<lparr>headers_scanned := (if length (inbuf c) > 3 then length (inbuf c) - 3 else 0)\<rparr>"
  obtain c3 ok3 where v: "validate_path_early ?c2 (inbuf c1) = (c3, ok3)" by force
  have s2: "conn_same c1 ?c2" by simp
  have s3: "conn_same c1 c3" by (rule conn_same_trans [OF s2 validate_path_early_same [OF v]])
  have "conn_keeps m rest n k w1 c1 (read_headers env b w c)"
    using False v keeps_calm conn_same_trans [OF s3] s2 s3 header_block_keeps
    by (auto simp: read_headers_def Let_def p split: bool.split option.split)
  then show ?thesis by (rule st)
qed

lemma slowloris_keeps: "conn_keeps m rest n k w c (read_slowloris env av w c)"
  by (simp add: read_slowloris_def keeps_calm close_calm_keeps)

lemma process_input_pair:
  "h2_process_input env evs ok cs (w, h2) = ((w', h2'), rv) \<Longrightarrow> h2_keeps m rest n (w, h2) (w', h2')"
  using process_input_keeps [of m rest n "(w, h2)" env evs ok cs] by simp

lemma http2_keeps:
  assumes "c_h2 c = Some h2"
  shows "conn_keeps m rest n k w c (read_http2 env ri h2 w c)"
proof (cases "0 < length (inbuf c) \<and> e_malloc env 4")
  case True
  obtain w' h2' rv where p: "h2_process_input env (ri_events ri) (ri_recv_ok ri) (ri_closes ri) (w, h2) = ((w', h2'), rv)"
    by (metis prod.exhaust)
  let ?c = "(h2_send_callback (ri_sent ri) c)\<lparr>c_h2 := Some h2'\<rparr>"
  have k1: "conn_keeps m rest n k w c (w', Some ?c)"
    by (rule keeps_h2 [OF assms process_input_pair [OF p]]) (simp_all add: h2_send_callback_def)
  have k2: "conn_keeps m rest n k w c (w', Some (?c\<lparr>inbuf := []\<rparr>))"
    by (rule keeps_h2 [OF assms process_input_pair [OF p]]) (simp_all add: h2_send_callback_def)
  show ?thesis using True p k2 keeps_step [OF k1 close_conn_keeps] by (auto simp: read_http2_def Let_def)
next
  case False
  then show ?thesis by (auto simp: read_http2_def intro: keeps_calm)
qed

text \<open>A new session has no streams, so opening it changes no count.\<close>

lemma init_keeps:
  assumes "h2_connection_init env w c = Some c'" "tls_handshake_done c" "c_h2 c = None"
  shows "conn_keeps m rest n k w c (w, Some c')" "c_h2 c' \<noteq> None"
proof -
  obtain h2 where c': "c' = c\<lparr>c_h2 := Some h2, c_protocol := PROTO_HTTP_2\<rparr>" "h2_streams h2 = []" "h2_stream_count h2 = 0"
    using assms(1) by (auto simp: h2_connection_init_def Let_def split: if_splits)
  then show "conn_keeps m rest n k w c (w, Some c')"
    using assms(2,3) by (auto simp: conn_keeps_def conn_inv_def conn_holds_def conn_streams_def conn_ok_def streams_ok_def fun_eq_iff)
  show "c_h2 c' \<noteq> None" using c' by simp
qed

lemma handshake_open_keeps:
  assumes "tls_handshake_done c" "c_h2 c = None"
  shows "conn_keeps m rest n k w c (case h2_connection_init env w c of
            None \<Rightarrow> conn_close w c
          | Some conn2 \<Rightarrow>
             (case c_h2 conn2 of
                None \<Rightarrow> (w, Some conn2)
              | Some h2 \<Rightarrow>
                 (case h2_send_pending env [] (w, h2) of ((w3, h2'), rv) \<Rightarrow>
                   if rv < 0 then conn_close w3 (conn2\<lparr>c_h2 := Some h2'\<rparr>)
                   else (w3, Some (conn2\<lparr>c_h2 := Some h2'\<rparr>)))))"
proof (cases "h2_connection_init env w c")
  case None
  then show ?thesis by (simp add: close_conn_keeps)
next
  case (Some c2)
  note k = init_keeps [OF Some assms]
  obtain h2 where h2: "c_h2 c2 = Some h2" using k(2) by auto
  have "h2_send_pending env [] (w, h2) = ((w, h2), if e_h2_send_ok env then 0 else -1)"
    by (simp add: h2_send_pending_def)
  moreover have idem: "c2\<lparr>c_h2 := Some h2\<rparr> = c2" using h2 by simp
  ultimately show ?thesis
    using Some h2 k(1) keeps_step [OF k(1) close_conn_keeps] by (simp add: idem)
qed

lemma tls_handshake_keeps: "conn_keeps m rest n k w c (read_tls_handshake env w c)"
proof (cases "c_ssl c \<and> \<not> tls_handshake_done c \<and> e_ssl_init_finished env")
  case True
  let ?c1 = "c\<lparr>tls_handshake_done := True\<rparr>"
  let ?w1 = "bump Tls_handshakes_total w"
  let ?w2 = "if e_ssl_version env = TLS1_3_VERSION then bump Tls_protocol_tls13 ?w1
     else if e_ssl_version env = TLS1_2_VERSION then bump Tls_protocol_tls12 ?w1 else ?w1"
  have calm: "w_calm w ?w2" using w_calm_trans [of w ?w1] by auto
  show ?thesis
  proof (cases "c_h2 c = None")
    case h2: True
    have "conn_keeps m rest n k ?w2 ?c1 (read_tls_handshake env w c)"
      using True handshake_open_keeps [of ?c1] h2
      by (auto simp: read_tls_handshake_def Let_def keeps_calm)
    then show ?thesis by (rule keeps_after_calm [OF calm, rotated]) simp
  next
    case False
    then have "\<not> conn_inv m rest n k w c" using True by (simp add: conn_inv_def conn_ok_def streams_ok_def)
    moreover have "w_kept w (fst (read_tls_handshake env w c))"
      using True calm w_kept_trans [OF w_calm_kept [OF calm] connection_free_kept] w_calm_kept
      by (auto simp: read_tls_handshake_def Let_def conn_close_def h2_send_pending_def split: option.split)
    ultimately show ?thesis by (simp add: conn_keeps_def)
  qed
next
  case False
  then show ?thesis by (auto simp: read_tls_handshake_def intro: keeps_calm)
qed

lemma http1_keeps: "conn_keeps m rest n k w c (read_http1 env b w c)"
  by (simp add: read_http1_def headers_keeps body_keeps keeps_calm split: ConnState.split)

lemma read_cb_keeps: "conn_keeps m rest n k w c (conn_read_cb env ri w c)"
  unfolding conn_read_cb_def Let_def
  by (intro conn_then_keeps tls_handshake_keeps slowloris_keeps)
    (auto intro: http1_keeps http2_keeps split: ProtocolType.split option.split)

text \<open>
  After a keep-alive response: the next request gets a normal slot, or the connection ends and
  leaves the slot it gave back unused.
\<close>

lemma reset_keeps:
  assumes r: "connection_reset_for_keepalive env w c = (w', c')"
  shows "conn_keeps m rest n k w c (if slot_held c' then (w', Some c') else conn_close w' c')"
proof -
  have kept: "w_kept w w'" using r
    by (auto simp: connection_reset_for_keepalive_def Let_def w_kept_def split: if_splits prod.splits bool.splits)
  have "result_inv m rest n k (if slot_held c' then (w', Some c') else conn_close w' c')"
    if inv: "conn_inv m rest n k w c"
  proof (cases "current_tier c = TIER_NORMAL")
    case True
    then have "w_calm w w' \<and> conn_same c c'" using r inv
      by (auto simp: connection_reset_for_keepalive_def Let_def w_calm_def w_same_def conn_same_def conn_inv_def conn_ok_def)
    moreover have "slot_held c'" using calculation inv by (simp add: conn_same_def conn_inv_def conn_ok_def)
    ultimately show ?thesis using conn_inv_calm [OF inv] by simp
  next
    case False
    have held: "slot_held c" using inv by (simp add: conn_inv_def conn_ok_def)
    have acc: "sm.accounts m (w_slots w) (\<lambda>t. base_holds rest c t + own_slot c t)" using inv by (simp add: conn_inv_own)
    let ?s1 = "slot_manager_release (w_slots w) (current_tier c)"
    obtain b s2 where a: "slot_manager_acquire ?s1 TIER_NORMAL = (b, s2)" by force
    show ?thesis
    proof (cases b)
      case True
      have "sm.accounts m s2 (\<lambda>t. base_holds rest c t + own_slot (c\<lparr>current_tier := TIER_NORMAL\<rparr>) t)"
        using sm.accounts_move [OF acc own_pos [OF inv], of TIER_NORMAL s2] a True
        unfolding own_slot_move [OF held refl] by simp
      from conn_inv_retier [OF inv this]
      have "conn_inv m rest n k (w\<lparr>w_slots := s2\<rparr>) (c\<lparr>current_tier := TIER_NORMAL\<rparr>)" .
      moreover have "w_calm (w\<lparr>w_slots := s2\<rparr>) w' \<and> conn_same (c\<lparr>current_tier := TIER_NORMAL\<rparr>) c'"
        using r held False a True
        by (auto simp: connection_reset_for_keepalive_def Let_def w_calm_def w_same_def conn_same_def)
      moreover have "slot_held c'" using calculation(2) held by (simp add: conn_same_def)
      ultimately show ?thesis using conn_inv_calm by simp
    next
      case fail: False
      then have s2: "s2 = ?s1" using a sm.acquire_fail_same [of ?s1 TIER_NORMAL s2] by simp
      have c': "w' = w\<lparr>w_slots := s2\<rparr>" "\<not> slot_held c'" "c_h2 c' = c_h2 c"
        using r held False a fail by (auto simp: connection_reset_for_keepalive_def Let_def)
      have "sm.accounts m s2 (base_holds rest c)" unfolding s2 by (rule accounts_drop_own [OF acc held])
      moreover have "base_holds rest c = (\<lambda>t. rest t + conn_holds c' t)"
        using c'(2,3) by (simp add: base_holds_def conn_holds_def fun_eq_iff)
      ultimately have "worker_counts m (\<lambda>t. rest t + conn_holds c' t) (n + conn_streams c') (Suc k) w'"
        using inv c' by (simp add: worker_counts_def conn_inv_own conn_streams_def drain_ok_def)
      moreover have "streams_ok c'" using inv c'(3) by (simp add: conn_inv_def conn_ok_def streams_ok_def)
      ultimately show ?thesis using c'(2) connection_free_counts by (simp add: conn_close_def)
    qed
  qed
  then show ?thesis using kept w_kept_trans [OF kept connection_free_kept] by (simp add: conn_keeps_def conn_close_def)
qed

lemma log_complete_calm: "w_calm w (log_request_complete env c w)"
  by (simp add: log_request_complete_def Let_def w_calm_def w_same_def)

lemma write_cb_keeps: "conn_keeps m rest n k w c (conn_write_cb env w c)"
proof -
  obtain w2 c2 where r: "connection_reset_for_keepalive env (log_request_complete env c w) c = (w2, c2)" by force
  have "conn_keeps m rest n k (log_request_complete env c w) c (conn_write_cb env w c)" if "outbuf c = []"
    using that reset_keeps [OF r] close_conn_keeps keeps_calm
    by (auto simp: conn_write_cb_def Let_def r split: if_splits)
  then show ?thesis using keeps_after_calm [OF log_complete_calm conn_same_refl] keeps_calm
    by (cases "outbuf c = []") (auto simp: conn_write_cb_def)
qed

lemma event_cb_keeps: "conn_keeps m rest n k w c (conn_event_cb ev w c)"
proof -
  have "w_calm w (bump Errors_tls (bump Tls_handshake_errors w))" by (rule w_calm_trans [OF w_calm_bump(1) w_calm_bump(1)])
  then show ?thesis by (auto simp: conn_event_cb_def Let_def intro: keeps_calm close_calm_keeps close_conn_keeps)
qed

end
