(* ===== verification/ConnectionFacts.thy ===== *)
theory ConnectionFacts
  imports Connection
begin

text \<open>
  What the HTTP/1.1 code of \<^verbatim>\<open>src/src/connection.c\<close> does with a request: the early validation of
  the path against the one of HTTP/2, the ACME lookup, the header scan over arriving chunks, the
  Content-Length header, the framing of the responses and the throughput check.
\<close>

subsection \<open>Path validation\<close>

definition path_char :: "char \<Rightarrow> bool" where
  "path_char c \<longleftrightarrow> \<not> (c = SP \<or> c = CR \<or> c = LF)"

lemma takeWhile_path:
  "list_all path_char path \<Longrightarrow> takeWhile (\<lambda>c. \<not> (c = SP \<or> c = CR \<or> c = LF)) (path @ SP # rest) = path"
  by (induction path) (auto simp: path_char_def)

lemma list_all_hex: "list_all is_hex_char s = is_all_hex s"
  by (simp add: is_all_hex_iff list_all_iff)

lemma validate_early_path:
  assumes "SP \<notin> set meth" "list_all path_char path" "\<not> validation_failed c"
  shows "validate_path_early c (meth @ SP # CHR ''/'' # path @ SP # rest) =
    (if length path < 64 then (c, True)
     else if validate_hex_path path then (c\<lparr>path_validated := True\<rparr>, True)
     else (c\<lparr>validation_failed := True\<rparr>, False))"
proof -
  have "memchr SP (meth @ SP # CHR ''/'' # path @ SP # rest) = Some (length meth)"
    by (rule memchr_append_notin [OF assms(1)])
  then show ?thesis
    using assms(3) unfolding validate_path_early_def Let_def
    by (simp add: takeWhile_path [OF assms(2), simplified] validate_hex_path_def list_all_hex)
qed

text \<open>
  C21. HTTP/1.1 and HTTP/2 accept the same paths: the early validation of a request line decides
  exactly as the validation of the \<open>:path\<close> pseudo-header, whatever the method and whatever follows
  the path.
\<close>

theorem path_validation_agrees:
  assumes "SP \<notin> set meth" and "list_all path_char path" and "\<not> validation_failed c"
  shows "snd (validate_path_early c (meth @ SP # CHR ''/'' # path @ SP # rest)) = validate_hex_path path"
  using validate_early_path [OF assms] by (auto simp: validate_hex_path_def)

theorem path_validation_agrees_witness:
  "\<forall>c. snd (validate_path_early (c\<lparr>validation_failed := False\<rparr>)
      (''GET'' @ SP # CHR ''/'' # replicate 200 (CHR ''a'') @ SP # ''HTTP/1.1'')) = validate_hex_path (replicate 200 (CHR ''a''))"
  by (intro allI path_validation_agrees) (simp_all add: path_char_def list_all_iff)

subsection \<open>ACME challenges\<close>

lemma base64url_plain: "base64url c \<Longrightarrow> c \<noteq> CHR ''/'' \<and> c \<noteq> BSLASH \<and> c \<noteq> CHR ''.'' \<and> c \<noteq> NUL \<and> path_char c"
  by (auto simp: base64url_def Let_def path_char_def)

lemma base64url_token:
  assumes "list_all base64url t"
  shows "cstr t = t" "CHR ''/'' \<notin> set t" "BSLASH \<notin> set t" "CHR ''.'' \<notin> set t"
  using assms base64url_plain by (auto simp: list_all_iff intro!: cstr_id)

lemma acme_lookup_same: "acme_challenge_h1 env cfg path = acme_challenge_h2 env cfg path"
proof (cases "list_all base64url (drop 28 path)")
  case True
  then show ?thesis using base64url_token [OF True]
    by (simp add: acme_challenge_h1_def acme_challenge_h2_def Let_def strchr_def)
next
  case False
  then show ?thesis by (simp add: acme_challenge_h1_def acme_challenge_h2_def Let_def)
qed

lemma acme_opens:
  assumes "acme_challenge_h1 env cfg path = Some content"
  shows "\<exists>token. token = drop 28 path \<and> token \<noteq> [] \<and> list_all base64url token
     \<and> length (acme_challenge_dir cfg @ ''/'' @ token) < 512
     \<and> e_open env (acme_challenge_dir cfg @ ''/'' @ token) = Some (True, length content, Some content)
     \<and> length content \<le> 4096"
  using assms
  by (auto simp: acme_challenge_h1_def read_challenge_file_def Let_def split: if_splits option.splits prod.splits)



text \<open>
  C36. A challenge whose token has 37 characters or more is never answered, although the router
  knows its path: the path is long enough for the hexadecimal check of long paths, which its first
  dot fails, so HTTP/1.1 answers 400 and HTTP/2 refuses the stream. (RFC 8555 tokens, with at least
  128 bits in base64url, have 22 or more characters; the common certificate authority issues 43.)
\<close>

theorem acme_long_token_rejected:
  assumes "list_all base64url token" and "37 \<le> length token" and "SP \<notin> set meth" and "\<not> validation_failed c"
    and "e_malloc env 6" and "take (found + 4) (inbuf c) = meth @ SP # CHR ''/'' # (acme_prefix @ token) @ SP # rest"
  shows "route_request (CHR ''/'' # acme_prefix @ token) = ROUTE_ACME_CHALLENGE
    \<and> map_option response_status (snd (read_header_block env beyond found w c)) = Some 400
    \<and> snd (h2_on_path_header sid (CHR ''/'' # acme_prefix @ token) s st) = NGHTTP2_ERR_TEMPORAL_CALLBACK_FAILURE"
proof -
  have len: "64 \<le> length (acme_prefix @ token)" using assms(2) by (simp add: acme_prefix_def)
  have bad: "\<not> validate_hex_path (acme_prefix @ token)"
    using len by (simp add: validate_hex_path_def Let_def) (simp add: acme_prefix_def is_all_hex_iff)
  have pc: "list_all path_char (acme_prefix @ token)"
    using assms(1) base64url_plain by (auto simp: list_all_iff acme_prefix_def path_char_def)
  have "validate_path_early (c\<lparr>headers_end := found + 4\<rparr>) (take (found + 4) (inbuf c))
      = (c\<lparr>headers_end := found + 4, validation_failed := True\<rparr>, False)"
    unfolding assms(6)
    using validate_early_path [OF assms(3) pc, of "c\<lparr>headers_end := found + 4\<rparr>" rest] assms(4) len bad by simp
  moreover have "route_request (CHR ''/'' # acme_prefix @ token) = ROUTE_ACME_CHALLENGE"
    using assms(2) by (cases token) (simp_all add: route_request_Cons acme_prefix_def)
  moreover have "snd (h2_on_path_header sid (CHR ''/'' # acme_prefix @ token) s st) = NGHTTP2_ERR_TEMPORAL_CALLBACK_FAILURE"
    using bad by (auto simp: h2_on_path_header_def Let_def acme_prefix_def split: prod.split)
  ultimately show ?thesis
    using assms(5) by (simp add: read_header_block_def Let_def connection_send_error_def connection_send_response_def
        finish_response_def)
qed

theorem acme_long_token_rejected_witness:
  "\<forall>env c w sid s st. route_request (CHR ''/'' # acme_prefix @ replicate 43 (CHR ''A'')) = ROUTE_ACME_CHALLENGE
    \<and> map_option response_status (snd (read_header_block (env\<lparr>e_malloc := \<lambda>_. True\<rparr>) [] 85 w
        (c\<lparr>validation_failed := False,
           inbuf := ''GET'' @ SP # CHR ''/'' # (acme_prefix @ replicate 43 (CHR ''A'')) @ SP # ''HTTP/1.1'' @ CRLF @ CRLF\<rparr>))) = Some 400
    \<and> snd (h2_on_path_header sid (CHR ''/'' # acme_prefix @ replicate 43 (CHR ''A'')) s st) = NGHTTP2_ERR_TEMPORAL_CALLBACK_FAILURE"
  by (intro allI acme_long_token_rejected [where meth = "''GET''" and rest = "''HTTP/1.1'' @ CRLF @ CRLF"])
    (simp_all add: base64url_def list_all_iff acme_prefix_def)

subsection \<open>Scanning for the end of the headers\<close>

text \<open>Nothing before the resume position starts an end-of-headers mark.\<close>

definition scan_ok :: "Connection \<Rightarrow> bool" where
  "scan_ok c \<longleftrightarrow> headers_scanned c \<le> length (inbuf c)
     \<and> (\<forall>i < headers_scanned c. \<not> has_prefix (CRLF @ CRLF) (drop i (inbuf c)))"

lemma has_prefix_drop_append:
  assumes "i + length p \<le> length s" "has_prefix p (drop i (s @ t))"
  shows "has_prefix p (drop i s)"
  using assms by (simp add: has_prefix_def)

lemma scan_resume:
  assumes "scan_ok c"
  shows "map_option (\<lambda>n. headers_scanned c + n) (memmem (CRLF @ CRLF) (drop (headers_scanned c) (inbuf c)))
    = memmem (CRLF @ CRLF) (inbuf c)"
proof -
  have le: "headers_scanned c \<le> length (inbuf c)" and none: "\<And>i. i < headers_scanned c \<Longrightarrow> \<not> has_prefix (CRLF @ CRLF) (drop i (inbuf c))"
    using assms by (auto simp: scan_ok_def)
  show ?thesis unfolding memmem_def
    using find_suffix_resume [of "headers_scanned c" "inbuf c" "has_prefix (CRLF @ CRLF)", OF le none]
    by (simp add: add.commute)
qed

lemma scan_ok_advance:
  assumes "memmem (CRLF @ CRLF) s = None" "inbuf c = s @ t" "headers_scanned c = (if length s > 3 then length s - 3 else 0)"
  shows "scan_ok c"
proof -
  have "\<not> has_prefix (CRLF @ CRLF) (drop i (s @ t))" if "i < headers_scanned c" for i
  proof
    assume "has_prefix (CRLF @ CRLF) (drop i (s @ t))"
    moreover have "i + length (CRLF @ CRLF) \<le> length s" using that assms(3) by (simp split: if_splits)
    ultimately have "has_prefix (CRLF @ CRLF) (drop i s)" by (rule has_prefix_drop_append [rotated])
    moreover have "i \<le> length s" using that assms(3) by (simp split: if_splits)
    ultimately show False using assms(1) by (simp add: memmem_def find_suffix_None_iff)
  qed
  moreover have "headers_scanned c \<le> length (inbuf c)" using assms(2,3) by auto
  ultimately show ?thesis using assms(2) by (simp add: scan_ok_def)
qed

lemma finish_response_state [simp]: "c_state (finish_response x code b st c) \<noteq> CONN_STATE_READING_HEADERS"
  by (simp add: finish_response_def)

lemma send_error_state [simp]: "c_state (connection_send_error code txt c) = CONN_STATE_CLOSING"
  by (simp add: connection_send_error_def connection_send_response_def finish_response_def Let_def)

lemma process_request_state:
  assumes "process_request env st = (w', c')"
  shows "c_state c' \<noteq> CONN_STATE_READING_HEADERS"
proof -
  obtain w c where "st = (w, c)" by force
  then show ?thesis using assms
    by (auto simp: process_request_def Let_def serve_health_def serve_ready_def serve_version_def serve_alive_def
        serve_metrics_def serve_acme_challenge_def serve_static_file_def split: RouteType.splits prod.splits option.splits)
qed

lemma request_complete_state:
  assumes "request_complete env w c = (w', Some c')"
  shows "c_state c' \<noteq> CONN_STATE_READING_HEADERS"
  using assms process_request_state by (auto simp: request_complete_def conn_stay_def split: prod.splits)

lemma header_block_state:
  assumes "read_header_block env b f w c = (w', Some c')"
  shows "c_state c' \<noteq> CONN_STATE_READING_HEADERS"
  using assms
  by (auto simp: read_header_block_def Let_def dest!: request_complete_state split: if_splits prod.splits bool.splits)

lemma read_headers_scan:
  assumes ok: "scan_ok c" and r: "read_headers env b w c = (w', Some c')" and s: "c_state c' = CONN_STATE_READING_HEADERS"
  shows "memmem (CRLF @ CRLF) (inbuf c) = None \<and> inbuf c' = inbuf c
    \<and> headers_scanned c' = (if length (inbuf c) > 3 then length (inbuf c) - 3 else 0)"
proof -
  obtain w1 c1 ok1 where p: "try_promote_tier w c (length (inbuf c)) = ((w1, c1), ok1)" by (metis prod.exhaust)
  have c1: "inbuf c1 = inbuf c" "headers_scanned c1 = headers_scanned c"
    using p by (auto simp: try_promote_tier_def Let_def split: if_splits prod.splits bool.splits)
  have keep: "inbuf x = inbuf y \<and> headers_scanned x = headers_scanned y"
    if "validate_path_early y d = (x, v)" for x y d v
    using that by (auto simp: validate_path_early_def Let_def split: if_splits option.splits)
  have none: "memmem (CRLF @ CRLF) (drop (headers_scanned c) (inbuf c)) = None"
    using r s p c1 header_block_state
    by (auto simp: read_headers_def Let_def split: if_splits prod.splits bool.splits option.splits)
  then have "memmem (CRLF @ CRLF) (inbuf c) = None" using scan_resume [OF ok] by simp
  moreover have "inbuf c' = inbuf c \<and> headers_scanned c' = (if length (inbuf c) > 3 then length (inbuf c) - 3 else 0)"
    using r s p c1 none
    by (auto simp: read_headers_def Let_def dest!: keep split: if_splits prod.splits bool.splits)
  ultimately show ?thesis by simp
qed

text \<open>
  Resuming the search for the end of the headers where the last read stopped loses nothing: the
  position found from there is the first end-of-headers mark of all data received so far, and when
  a read leaves the connection waiting for more headers, that stays true for the data that arrives
  next, so a mark split over reads is found.
\<close>

lemma header_scan_incremental:
  assumes "scan_ok c"
  shows "map_option (\<lambda>n. headers_scanned c + n) (memmem (CRLF @ CRLF) (drop (headers_scanned c) (inbuf c)))
      = memmem (CRLF @ CRLF) (inbuf c)
    \<and> (\<forall>env b w w' c' more. read_headers env b w c = (w', Some c') \<and> c_state c' = CONN_STATE_READING_HEADERS
        \<longrightarrow> scan_ok (c'\<lparr>inbuf := inbuf c' @ more\<rparr>))"
proof (intro conjI allI impI)
  show "map_option (\<lambda>n. headers_scanned c + n) (memmem (CRLF @ CRLF) (drop (headers_scanned c) (inbuf c)))
      = memmem (CRLF @ CRLF) (inbuf c)" by (rule scan_resume [OF assms])
  fix env b w w' c' more
  assume r: "read_headers env b w c = (w', Some c') \<and> c_state c' = CONN_STATE_READING_HEADERS"
  then have "memmem (CRLF @ CRLF) (inbuf c) = None \<and> inbuf c' = inbuf c
    \<and> headers_scanned c' = (if length (inbuf c) > 3 then length (inbuf c) - 3 else 0)"
    using read_headers_scan [OF assms] by blast
  then show "scan_ok (c'\<lparr>inbuf := inbuf c' @ more\<rparr>)"
    by (intro scan_ok_advance [of "inbuf c" _ more]) auto
qed

lemma header_scan_incremental_witness:
  "\<forall>c :: Connection. let c1 = c\<lparr>headers_scanned := 2, inbuf := ''GET'' @ CRLF @ CRLF\<rparr> in
     map_option (\<lambda>n. headers_scanned c1 + n) (memmem (CRLF @ CRLF) (drop (headers_scanned c1) (inbuf c1)))
      = memmem (CRLF @ CRLF) (inbuf c1)"
proof
  fix c :: Connection
  have "scan_ok (c\<lparr>headers_scanned := 2, inbuf := ''GET'' @ CRLF @ CRLF\<rparr>)"
    by (simp add: scan_ok_def numeral_2_eq_2 less_Suc_eq)
  from header_scan_incremental [OF this]
  show "let c1 = c\<lparr>headers_scanned := 2, inbuf := ''GET'' @ CRLF @ CRLF\<rparr> in
     map_option (\<lambda>n. headers_scanned c1 + n) (memmem (CRLF @ CRLF) (drop (headers_scanned c1) (inbuf c1)))
      = memmem (CRLF @ CRLF) (inbuf c1)" unfolding Let_def by (rule conjunct1)
qed

subsection \<open>Content-Length\<close>

lemma find_header_append:
  assumes "\<forall>i < length pre. \<not> strncaseeq (drop i (pre @ name @ s)) name" "s \<noteq> []"
  shows "find_header name (pre @ name @ s) = Some (length pre + length name)"
proof -
  have "find_suffix (\<lambda>t. length name < length t \<and> strncaseeq t name) (pre @ name @ s) = Some (length pre)"
    using assms by (intro find_suffix_SomeI) (auto simp: strncaseeq_def)
  then show ?thesis by (simp add: find_header_def)
qed

lemma parse_content_length_at:
  assumes "\<forall>i < length pre. \<not> strncaseeq (drop i (pre @ ''Content-Length:'' @ s)) ''Content-Length:''" "s \<noteq> []"
  shows "parse_content_length (pre @ ''Content-Length:'' @ s) beyond =
    (let found = skip_blanks s in
      if found = [] then 0
      else if hd found = CHR ''-'' \<or> hd found = CHR ''+'' then 0
      else (case strtoul (found @ beyond) of (val, consumed, erange) \<Rightarrow>
        if erange \<or> consumed = 0 then 0 else val))"
  using find_header_append [OF assms] by (simp add: parse_content_length_def)

lemma fmt_u_head:
  "hd (fmt_u n @ t) \<noteq> CHR ''-'' \<and> hd (fmt_u n @ t) \<noteq> CHR ''+'' \<and> \<not> (hd (fmt_u n @ t) = SP \<or> hd (fmt_u n @ t) = TAB)"
proof -
  have "isdigit (hd (fmt_u n))" using fmt_u_digits fmt_u_not_Nil hd_in_set by metis
  then show ?thesis by (auto simp: isdigit_def)
qed

lemma skip_blanks_digits: "skip_blanks (fmt_u n @ t) = fmt_u n @ t"
  using fmt_u_head [of n t] fmt_u_not_Nil [of n]
  by (cases "fmt_u n @ t") (auto simp: skip_blanks_def)

text \<open>
  A Content-Length that the client prints is the one the server reads: for every number up to
  the largest \<open>size_t\<close>, written in decimal after the first occurrence of the header name, in any
  letter case, the parsed length is that number, whatever follows the header block in memory.
\<close>

lemma content_length_roundtrip:
  assumes "\<forall>i < length pre. \<not> strncaseeq (drop i (pre @ ''Content-Length:'' @ [SP] @ fmt_u n @ CRLF @ rest)) ''Content-Length:''"
    and "n \<le> ULONG_MAX"
  shows "parse_content_length (pre @ ''Content-Length:'' @ [SP] @ fmt_u n @ CRLF @ rest) beyond = n"
proof -
  have sk: "skip_blanks ([SP] @ fmt_u n @ CRLF @ rest) = fmt_u n @ CRLF @ rest"
    using skip_blanks_digits [of n "CRLF @ rest"] by (simp add: skip_blanks_def)
  have st: "strtoul ((fmt_u n @ CRLF @ rest) @ beyond) = (n, length (fmt_u n), False)"
    using strtoul_fmt_u [OF assms(2), of "CRLF @ rest @ beyond"] by (simp add: isdigit_def)
  have hd: "hd (fmt_u n @ CRLF @ rest) \<noteq> CHR ''-'' \<and> hd (fmt_u n @ CRLF @ rest) \<noteq> CHR ''+''"
    using fmt_u_head [of n "CRLF @ rest"] by simp
  have "[SP] @ fmt_u n @ CRLF @ rest \<noteq> []" by simp
  note at = parse_content_length_at [OF assms(1) this]
  show ?thesis unfolding at sk Let_def using hd st by simp
qed

lemma content_length_roundtrip_witness:
  "parse_content_length (''POST /'' @ ''Content-Length:'' @ [SP] @ fmt_u 1048576 @ CRLF @ CRLF) [] = 1048576"
  by (rule content_length_roundtrip) (simp_all add: strncaseeq_def tolower_def less_Suc_eq)

text \<open>
  The header search is not anchored at the start of a line, so another header that ends in the
  same name sets the length of the body that the server then waits for.
\<close>

lemma content_length_unanchored:
  assumes "n \<le> ULONG_MAX"
  shows "parse_content_length (''GET /'' @ CRLF @ ''X-Content-Length:'' @ [SP] @ fmt_u n @ CRLF @ CRLF) beyond = n"
proof -
  let ?pre = "''GET /'' @ CRLF @ ''X-''"
  have "\<forall>i < length ?pre. \<not> strncaseeq (drop i (?pre @ ''Content-Length:'' @ [SP] @ fmt_u n @ CRLF @ CRLF)) ''Content-Length:''"
    by (simp add: strncaseeq_def tolower_def less_Suc_eq)
  from parse_content_length_at [OF this, of beyond]
  show ?thesis
    using fmt_u_head [of n "CRLF @ CRLF"] skip_blanks_digits [of n "CRLF @ CRLF"]
      strtoul_fmt_u [OF assms, of "CRLF @ CRLF @ beyond"]
    by (simp add: skip_blanks_def isdigit_def Let_def)
qed

lemma content_length_unanchored_witness:
  "\<forall>beyond. parse_content_length (''GET /'' @ CRLF @ ''X-Content-Length:'' @ [SP] @ fmt_u 77 @ CRLF @ CRLF) beyond = 77"
  by (intro allI content_length_unanchored) simp

text \<open>
  C40. With an empty Content-Length as the last header the conversion runs past the header block:
  \<open>strtoul\<close> skips the line ends as white space and takes its digits from the memory that follows,
  despite the bounds check before the call.
\<close>

theorem content_length_reads_beyond:
  assumes "n \<le> ULONG_MAX" and "t = [] \<or> \<not> isdigit (hd t)"
  shows "parse_content_length (''GET /'' @ CRLF @ ''Content-Length:'' @ CRLF @ CRLF) (fmt_u n @ t) = n"
proof -
  let ?pre = "''GET /'' @ CRLF"
  have pre: "\<forall>i < length ?pre. \<not> strncaseeq (drop i (?pre @ ''Content-Length:'' @ CRLF @ CRLF)) ''Content-Length:''"
    by (simp add: strncaseeq_def tolower_def less_Suc_eq)
  have scan: "num_scan (CRLF @ CRLF @ fmt_u n @ t) = (False, n, 4 + length (fmt_u n))"
  proof -
    have d: "dropWhile isspace (fmt_u n @ t) = fmt_u n @ t"
    proof -
      have "\<not> isspace (hd (fmt_u n))" using fmt_u_digits fmt_u_not_Nil hd_in_set isdigit_not_space by metis
      then show ?thesis by (cases "fmt_u n") auto
    qed
    have g: "num_sign (fmt_u n @ t) = (False, fmt_u n @ t)"
      using fmt_u_head [of n t] by (cases "fmt_u n") (auto simp: num_sign_def)
    have tw: "takeWhile isdigit (fmt_u n @ t) = fmt_u n"
      by (rule takeWhile_digits) (use assms(2) fmt_u_digits in auto)
    have "dropWhile isspace (CRLF @ CRLF @ fmt_u n @ t) = fmt_u n @ t" using d by (simp add: isspace_def)
    then show ?thesis unfolding num_scan_def by (simp add: g tw digits_val_fmt_u)
  qed
  have "strtoul (CRLF @ CRLF @ fmt_u n @ t) = (n, 4 + length (fmt_u n), False)"
    using assms(1) by (simp add: strtoul_def scan [simplified])
  then show ?thesis using parse_content_length_at [OF pre, of "fmt_u n @ t"] by (simp add: skip_blanks_def)
qed

theorem content_length_reads_beyond_witness:
  "parse_content_length (''GET /'' @ CRLF @ ''Content-Length:'' @ CRLF @ CRLF) (fmt_u 99999 @ '' trailing'') = 99999"
  by (rule content_length_reads_beyond) (simp_all add: isdigit_def)

subsection \<open>Response framing\<close>

definition file_ok :: "StaticFile \<Rightarrow> bool" where
  "file_ok f \<longleftrightarrow> sf_length f = length (sf_content f)"

definition files_ok :: "StaticFiles \<Rightarrow> bool" where
  "files_ok fs \<longleftrightarrow> file_ok (sf_index fs) \<and> file_ok (sf_broadcast fs) \<and> file_ok (sf_result fs) \<and> file_ok (sf_error fs)
     \<and> file_ok (sf_docs fs) \<and> file_ok (sf_status fs) \<and> file_ok (sf_logos fs)"

text \<open>
  One complete response was appended: a single Content-Length with the length of its body, and a
  Connection header that says whether the connection closes after it.
\<close>

definition framed :: "Connection \<Rightarrow> Connection \<Rightarrow> bool" where
  "framed c c' \<longleftrightarrow> (\<exists>code reason hs body. outbuf c' = outbuf c @ response_text code reason hs body
     \<and> map snd (filter (\<lambda>(n, v). n = ''Content-Length'') hs) = [fmt_u (length body)]
     \<and> map snd (filter (\<lambda>(n, v). n = ''Connection'') hs) = [if c_state c' = CONN_STATE_CLOSING then ''close'' else ''keep-alive'']
     \<and> c_state c' \<in> {CONN_STATE_CLOSING, CONN_STATE_WRITING_RESPONSE}
     \<and> response_status c' = code \<and> response_bytes c' = length body)"

lemma framed_finish:
  assumes "map snd (filter (\<lambda>(n, v). n = ''Content-Length'') hs) = [fmt_u (length body)]"
    and "map snd (filter (\<lambda>(n, v). n = ''Connection'') hs) = [if stay then ''keep-alive'' else ''close'']"
    and "len = length body"
  shows "framed c (finish_response (response_text code reason hs body) code len stay c)"
  unfolding framed_def using assms
  by (intro exI [of _ code] exI [of _ reason] exI [of _ hs] exI [of _ body]) (simp add: finish_response_def)

lemma probe_headers_framed [simp]:
  "map snd (filter (\<lambda>(n, v). n = ''Content-Length'') (probe_headers ct len opt c)) = [fmt_u len]"
  "map snd (filter (\<lambda>(n, v). n = ''Connection'') (probe_headers ct len opt c)) = [opt]"
  by (simp_all add: probe_headers_def)

lemma generate_metrics_length: "generate_metrics_body env w b = (body, len) \<Longrightarrow> len = length body"
  by (auto simp: generate_metrics_body_def split: prod.splits)

lemma serve_framed:
  "framed c (serve_health env w c)" "framed c (serve_ready w c)" "framed c (serve_version c)"
  "framed c (serve_alive c)" "framed c (serve_metrics env w c)" "framed c (serve_acme_challenge env cfg c)"
  "file_ok f \<Longrightarrow> framed c (serve_static_file cfg f code txt c)"
proof -
  obtain hb hl where h: "generate_health_body env w 1024 = (hb, hl)" by force
  have hl: "hl = length hb" using generate_health_length [OF h] by simp
  show "framed c (serve_health env w c)" unfolding serve_health_def h prod.case
    by (rule framed_finish) (simp_all add: hl conn_option_def)
  show "framed c (serve_ready w c)" unfolding serve_ready_def Let_def
    by (rule framed_finish) (simp_all add: conn_option_def)
  show "framed c (serve_version c)" unfolding serve_version_def
    by (rule framed_finish) (simp_all add: conn_option_def)
  show "framed c (serve_alive c)" unfolding serve_alive_def
    by (rule framed_finish) (simp_all add: conn_option_def)
  obtain mb ml where m: "generate_metrics_body env w 16384 = (mb, ml)" by force
  show "framed c (serve_metrics env w c)" unfolding serve_metrics_def m prod.case
    by (rule framed_finish) (simp_all add: generate_metrics_length [OF m])
  show "framed c (serve_acme_challenge env cfg c)"
  proof (cases "acme_challenge_h1 env cfg (conn_path c)")
    case None
    show ?thesis unfolding serve_acme_challenge_def None option.case
      by (rule framed_finish) (simp_all add: numeral_eq_Suc)
  next
    case (Some x)
    show ?thesis unfolding serve_acme_challenge_def Some option.case
      by (rule framed_finish) (simp_all add: conn_option_def)
  qed
  assume "file_ok f"
  then show "framed c (serve_static_file cfg f code txt c)" unfolding serve_static_file_def
    by (intro framed_finish) (simp_all add: file_ok_def cache_control_line_def conn_option_def)
qed

lemma framed_state: "framed (c\<lparr>c_state := s\<rparr>) c' = framed c c'"
  by (simp add: framed_def)

text \<open>
  C20. Every HTTP/1.1 request that reaches the dispatcher gets exactly one complete response: its
  single Content-Length is the length of the body that follows, the Connection header says close
  exactly when the connection is then closed, and the status and length recorded for the log and
  the metrics are those sent. The lengths of the static files are assumed to be those of their
  contents, as the loader stores them.
\<close>

theorem responses_are_framed:
  assumes "files_ok (w_static_files w)" and "process_request env (w, c) = (w', c')"
  shows "framed c c'"
proof -
  let ?c = "c\<lparr>c_state := CONN_STATE_PROCESSING\<rparr>"
  have "framed ?c c'"
    using assms serve_framed by (auto simp: process_request_def Let_def files_ok_def split: RouteType.splits)
  then show ?thesis by (simp add: framed_state)
qed

theorem responses_are_framed_witness:
  "\<forall>env w c. framed c (snd (process_request env (w\<lparr>w_static_files := let f = \<lparr>sf_content = ''hello'', sf_length = 5,
     sf_content_type = ''text/html; charset=utf-8''\<rparr> in \<lparr>sf_index = f, sf_broadcast = f, sf_result = f, sf_error = f,
     sf_docs = f, sf_status = f, sf_logos = f\<rparr>\<rparr>, c)))"
  by (intro allI) (rule responses_are_framed [OF _ prod.collapse [symmetric]], simp add: files_ok_def file_ok_def Let_def)

subsection \<open>The throughput check\<close>

lemma read_cb_plain:
  assumes "\<not> c_ssl c" "c_h2 c = None"
  shows "conn_read_cb env ri w c = conn_then (read_slowloris env (length (inbuf c)) w c) (\<lambda>w conn.
     case (c_protocol conn, c_h2 conn) of
       (PROTO_HTTP_2, Some h2) \<Rightarrow> read_http2 env ri h2 w conn
     | _ \<Rightarrow> read_http1 env (ri_beyond ri) w conn)"
  using assms by (simp add: conn_read_cb_def read_tls_handshake_def conn_then_def)

text \<open>
  C37. The throughput check compares buffer fill levels, not bytes received, although the body is
  drained from the buffer on every read: a client that uploads a body in equal steps of any size of
  at least 100 bytes, five seconds or more apart, is disconnected at its second check.
\<close>

theorem steady_upload_killed:
  assumes "\<not> c_ssl c" "c_h2 c = None" "c_protocol c = PROTO_HTTP_1_1" "c_state c = CONN_STATE_READING_BODY"
    and "length chunk1 = s" "length chunk2 = s" "100 \<le> s" "bytes_at_last_check c = 0"
    and "body_received c + s < content_length c"
    and "elapsed_sec (e_rnd env1) (e_now env1) (c_start_time c) \<le> 120"
    and "elapsed_sec (e_rnd env1) (e_now env1) (last_progress_time c) \<ge> 5"
    and "elapsed_sec (e_rnd env2) (e_now env2) (e_now env1) \<ge> 5"
  shows "\<exists>c1. conn_read_cb env1 ri1 w (c\<lparr>inbuf := chunk1\<rparr>) = (w, Some c1) \<and> body_received c1 = body_received c + s
    \<and> snd (conn_read_cb env2 ri2 w (c1\<lparr>inbuf := inbuf c1 @ chunk2\<rparr>)) = None"
proof -
  let ?c0 = "c\<lparr>inbuf := chunk1\<rparr>"
  let ?c1 = "?c0\<lparr>last_progress_time := e_now env1, bytes_at_last_check := s, inbuf := [], body_received := body_received c + s\<rparr>"
  have sl: "read_slowloris env1 s w ?c0 = (w, Some (?c0\<lparr>last_progress_time := e_now env1, bytes_at_last_check := s\<rparr>))"
    using assms by (simp add: read_slowloris_def MAX_REQUEST_TIME_SEC_def THROUGHPUT_CHECK_INTERVAL_SEC_def
        MIN_BYTES_PER_CHECK_def)
  have rb: "read_http1 env1 (ri_beyond ri1) w (?c0\<lparr>last_progress_time := e_now env1, bytes_at_last_check := s\<rparr>)
      = (w, Some ?c1)"
    using assms by (simp add: read_http1_def read_body_def Let_def)
  have r1: "conn_read_cb env1 ri1 w ?c0 = (w, Some ?c1)"
    using read_cb_plain [of ?c0 env1 ri1 w] sl rb assms by (simp add: conn_then_def)
  have "snd (read_slowloris env2 s w (?c1\<lparr>inbuf := chunk2\<rparr>)) = None"
    using assms(12) by (simp add: read_slowloris_def THROUGHPUT_CHECK_INTERVAL_SEC_def MIN_BYTES_PER_CHECK_def conn_close_def)
  then have "snd (conn_read_cb env2 ri2 w (?c1\<lparr>inbuf := chunk2\<rparr>)) = None"
    using read_cb_plain [of "?c1\<lparr>inbuf := chunk2\<rparr>" env2 ri2 w] assms
    by (auto simp: conn_then_def split: prod.splits)
  then show ?thesis using r1 by (intro exI [of _ ?c1]) simp
qed

theorem steady_upload_killed_witness:
  "\<forall>env ri w sa. let c = (snd (connection_init_common (env\<lparr>e_now := (0, 0)\<rparr>) w sa))
       \<lparr>c_state := CONN_STATE_READING_BODY, content_length := 1000000\<rparr>;
     env1 = env\<lparr>e_rnd := id, e_now := (6, 0)\<rparr>; env2 = env\<lparr>e_rnd := id, e_now := (12, 0)\<rparr> in
     \<exists>c1. conn_read_cb env1 ri w (c\<lparr>inbuf := replicate 65536 (CHR ''a'')\<rparr>) = (w, Some c1)
       \<and> body_received c1 = body_received c + 65536
       \<and> snd (conn_read_cb env2 ri w (c1\<lparr>inbuf := inbuf c1 @ replicate 65536 (CHR ''b'')\<rparr>)) = None"
  unfolding Let_def
  by (intro allI steady_upload_killed) (simp_all add: connection_init_common_def elapsed_sec_def)

end
