(* ===== verification/StaticLoad.thy ===== *)
theory StaticLoad
  imports ConnectionFacts
begin

text \<open>
  \<^verbatim>\<open>src/src/static_files.c\<close>: loading the pages at start-up. The file system is a parameter: the size
  that \<open>stat\<close> reports, whether the allocation succeeds, and the results of the successive \<open>read\<close>
  calls on the opened file; after the last listed result the file is at its end.
\<close>

definition MAX_FILE_SIZE :: nat where "MAX_FILE_SIZE = 1024 * 1024"

datatype FileRead = Read_bytes string | Read_eintr | Read_error

record FileSystem =
  fs_stat :: "string \<Rightarrow> nat option"
  fs_malloc :: "string \<Rightarrow> bool"
  fs_reads :: "string \<Rightarrow> FileRead list option"

text \<open>The read loop: \<open>None\<close> on an error, else the bytes collected, never more than asked for.\<close>

fun read_all :: "nat \<Rightarrow> string \<Rightarrow> FileRead list \<Rightarrow> string option" where
  "read_all st_size content [] = Some content"
| "read_all st_size content (r # rs) =
    (if length content < st_size then
       (case r of
          Read_eintr \<Rightarrow> read_all st_size content rs
        | Read_error \<Rightarrow> None
        | Read_bytes b \<Rightarrow> let got = take (st_size - length content) b in
            if got = [] then Some content else read_all st_size (content @ got) rs)
     else Some content)"

definition no_file :: "string \<Rightarrow> StaticFile" where
  "no_file content_type = \<lparr>sf_content = [], sf_length = 0, sf_content_type = content_type\<rparr>"

definition load_file :: "FileSystem \<Rightarrow> string \<Rightarrow> string \<Rightarrow> StaticFile \<times> bool" where
  "load_file fs path content_type = (case fs_stat fs path of
     None \<Rightarrow> (no_file content_type, False)
   | Some st_size \<Rightarrow>
      if st_size > MAX_FILE_SIZE then (no_file content_type, False)
      else if \<not> fs_malloc fs path then (no_file content_type, False)
      else case fs_reads fs path of
        None \<Rightarrow> (no_file content_type, False)
      | Some rs \<Rightarrow>
         (case read_all st_size [] rs of
            None \<Rightarrow> (no_file content_type, False)
          | Some content \<Rightarrow>
             (\<lparr>sf_content = content, sf_length = length content, sf_content_type = content_type\<rparr>, True)))"

definition free_file :: "StaticFile \<Rightarrow> StaticFile" where
  "free_file f = f\<lparr>sf_content := [], sf_length := 0\<rparr>"

definition static_files_free :: "StaticFiles \<Rightarrow> StaticFiles" where
  "static_files_free fs = fs\<lparr>sf_index := free_file (sf_index fs), sf_broadcast := free_file (sf_broadcast fs),
     sf_result := free_file (sf_result fs), sf_error := free_file (sf_error fs), sf_docs := free_file (sf_docs fs),
     sf_status := free_file (sf_status fs), sf_logos := free_file (sf_logos fs)\<rparr>"

definition static_path :: "string \<Rightarrow> string \<Rightarrow> string" where
  "static_path dir name = snprintf_buf 512 (dir @ ''/'' @ name)"

text \<open>The pages in the order of the code, each with the field it is stored in.\<close>

definition static_pages :: "(string \<times> (StaticFile \<Rightarrow> StaticFiles \<Rightarrow> StaticFiles)) list" where
  "static_pages = [(''index.html'', \<lambda>f. sf_index_update (\<lambda>_. f)), (''broadcast.html'', \<lambda>f. sf_broadcast_update (\<lambda>_. f)),
     (''result.html'', \<lambda>f. sf_result_update (\<lambda>_. f)), (''error.html'', \<lambda>f. sf_error_update (\<lambda>_. f)),
     (''docs.html'', \<lambda>f. sf_docs_update (\<lambda>_. f)), (''status.html'', \<lambda>f. sf_status_update (\<lambda>_. f)),
     (''logos.html'', \<lambda>f. sf_logos_update (\<lambda>_. f))]"

fun load_pages :: "FileSystem \<Rightarrow> string \<Rightarrow> (string \<times> (StaticFile \<Rightarrow> StaticFiles \<Rightarrow> StaticFiles)) list
    \<Rightarrow> StaticFiles \<Rightarrow> StaticFiles \<times> bool" where
  "load_pages fs dir [] files = (files, True)"
| "load_pages fs dir ((name, store) # ps) files =
    (case load_file fs (static_path dir name) ''text/html; charset=utf-8'' of (f, ok) \<Rightarrow>
       if ok then load_pages fs dir ps (store f files)
       else (static_files_free (store f files), False))"

text \<open>\<open>memset\<close>: no page has a content type until it is loaded.\<close>

definition empty_files :: StaticFiles where
  "empty_files = (let f = no_file [] in \<lparr>sf_index = f, sf_broadcast = f, sf_result = f, sf_error = f, sf_docs = f,
     sf_status = f, sf_logos = f\<rparr>)"

definition static_files_load :: "FileSystem \<Rightarrow> string \<Rightarrow> StaticFiles \<times> bool" where
  "static_files_load fs dir = load_pages fs dir static_pages empty_files"

lemma read_all_bound: "read_all n c rs = Some c' \<Longrightarrow> length c \<le> n \<Longrightarrow> length c' \<le> n"
  by (induction n c rs rule: read_all.induct) (auto simp: Let_def split: if_splits FileRead.splits)

lemma load_file_ok:
  assumes "load_file fs path ct = (f, ok)"
  shows "file_ok f \<and> length (sf_content f) \<le> MAX_FILE_SIZE"
  using assms read_all_bound [of _ "[]"]
  by (fastforce simp: load_file_def file_ok_def no_file_def split: option.splits if_splits)

lemma free_file_ok [simp]: "file_ok (free_file f)"
  by (simp add: file_ok_def free_file_def)

lemma load_pages_ok:
  assumes "load_pages fs dir ps files = (files', ok)" "files_ok files" "set ps \<subseteq> set static_pages"
  shows "files_ok files'"
  using assms
proof (induction fs dir ps files rule: load_pages.induct)
  case (2 fs dir name store ps files)
  obtain f ok1 where f: "load_file fs (static_path dir name) ''text/html; charset=utf-8'' = (f, ok1)" by force
  have "files_ok (store f files)"
    using "2.prems"(2,3) load_file_ok [OF f] by (auto simp: static_pages_def files_ok_def)
  moreover have "files_ok (static_files_free x)" for x by (simp add: static_files_free_def files_ok_def)
  ultimately show ?case using 2 f by (auto split: if_splits)
qed simp

text \<open>Every page that was loaded has the length of its content.\<close>

lemma static_files_load_ok: "static_files_load fs dir = (files, ok) \<Longrightarrow> files_ok files"
  using load_pages_ok [of fs dir static_pages empty_files files ok]
  by (simp add: static_files_load_def empty_files_def files_ok_def file_ok_def no_file_def Let_def)

end
