(* ===== verification/Tls.thy ===== *)
theory Tls
  imports State
begin

text \<open>
  \<^verbatim>\<open>src/src/tls.c\<close>: the protocol negotiation callback and the life cycle of the context. What
  OpenSSL answers (creating a context, reading certificate and key, the expiry of the certificate,
  accepting the cipher list) is a parameter. The options set on a context have no state of ours.
\<close>

record TlsSetup =
  ts_ctx_new :: bool
  ts_cert :: "string \<Rightarrow> bool"
  ts_key :: "string \<Rightarrow> bool"
  ts_key_matches :: bool
  ts_expiry :: "(int \<times> int) option"
  ts_ciphers :: bool
  ts_now :: int

text \<open>The client's list: length-prefixed names; a name that would pass the end stops the loop.\<close>

function alpn_scan :: "string \<Rightarrow> bool \<Rightarrow> bool \<Rightarrow> bool \<times> bool" where
  "alpn_scan [] has_h2 has_http11 = (has_h2, has_http11)"
| "alpn_scan (l # p) has_h2 has_http11 =
    (let len = of_char l :: nat in
     if len > length p then (has_h2, has_http11)
     else if len = 2 \<and> take 2 p = ''h2'' then alpn_scan (drop len p) True has_http11
     else if len = 8 \<and> take 8 p = ''http/1.1'' then alpn_scan (drop len p) has_h2 True
     else alpn_scan (drop len p) has_h2 has_http11)"
  by pat_completeness auto
termination
  by (relation "measure (\<lambda>(s, _, _). length s)") (auto simp: le_imp_less_Suc)

text \<open>\<open>SSL_TLSEXT_ERR_NOACK\<close> is \<open>None\<close>.\<close>

definition tls_alpn_select_cb :: "TLSContext \<Rightarrow> string \<Rightarrow> string option" where
  "tls_alpn_select_cb tls in_list = (case alpn_scan in_list False False of (client_has_h2, client_has_http11) \<Rightarrow>
     if tls_http2_enabled tls \<and> client_has_h2 then Some ''h2''
     else if client_has_http11 then Some ''http/1.1''
     else None)"

definition cert_expiry_time :: "TlsSetup \<Rightarrow> int" where
  "cert_expiry_time ts = (case ts_expiry ts of None \<Rightarrow> 0 | Some (day_diff, sec_diff) \<Rightarrow> ts_now ts + day_diff * 86400 + sec_diff)"

definition tls_context_init :: "TlsSetup \<Rightarrow> Config \<Rightarrow> TLSContext \<times> bool" where
  "tls_context_init ts config =
    (let tls = \<lparr>tls_ctx = False, tls_http2_enabled = http2_enabled config \<noteq> 0, tls_cert_expiry = 0\<rparr> in
     if \<not> ts_ctx_new ts then (tls, False)
     else if \<not> ts_cert ts (tls_cert_file config) then (tls, False)
     else if \<not> ts_key ts (tls_key_file config) then (tls, False)
     else if \<not> ts_key_matches ts then (tls, False)
     else let tls1 = tls\<lparr>tls_cert_expiry := cert_expiry_time ts\<rparr> in
       if \<not> ts_ciphers ts then (tls1, False)
       else (tls1\<lparr>tls_ctx := True\<rparr>, True))"

definition tls_context_free :: "TLSContext \<Rightarrow> TLSContext" where
  "tls_context_free tls = tls\<lparr>tls_ctx := False\<rparr>"

text \<open>\<open>None\<close> for the null pointer; \<open>ssl_new\<close> is the result of \<open>SSL_new\<close>.\<close>

definition tls_create_ssl :: "bool \<Rightarrow> TLSContext \<Rightarrow> bool" where
  "tls_create_ssl ssl_new tls = (tls_ctx tls \<and> ssl_new)"

definition tls_get_alpn_protocol :: "string option \<Rightarrow> string option" where
  "tls_get_alpn_protocol alpn = (case alpn of
     None \<Rightarrow> None
   | Some a \<Rightarrow> if a = [] then None else if a = ''h2'' then Some ''h2''
       else if a = ''http/1.1'' then Some ''http/1.1'' else None)"

definition tls_is_http2 :: "string option \<Rightarrow> bool" where
  "tls_is_http2 alpn = (tls_get_alpn_protocol alpn = Some ''h2'')"

definition tls_context_reload :: "TlsSetup \<Rightarrow> Config \<Rightarrow> TLSContext \<Rightarrow> TLSContext \<times> bool" where
  "tls_context_reload ts config tls =
    (if \<not> ts_ctx_new ts then (tls, False)
     else if \<not> ts_cert ts (tls_cert_file config) then (tls, False)
     else if \<not> ts_key ts (tls_key_file config) then (tls, False)
     else if \<not> ts_key_matches ts then (tls, False)
     else if \<not> ts_ciphers ts then (tls, False)
     else (tls\<lparr>tls_ctx := True, tls_cert_expiry := cert_expiry_time ts\<rparr>, True))"

subsection \<open>Negotiation\<close>

definition alpn_encode :: "string list \<Rightarrow> string" where
  "alpn_encode ps = concat (map (\<lambda>p. char_of (length p) # p) ps)"

lemma alpn_scan_encode:
  assumes "list_all (\<lambda>p. length p < 256) ps"
  shows "alpn_scan (alpn_encode ps) a b = (a \<or> ''h2'' \<in> set ps, b \<or> ''http/1.1'' \<in> set ps)"
  using assms
proof (induction ps arbitrary: a b)
  case Nil
  then show ?case by (simp add: alpn_encode_def)
next
  case (Cons p ps)
  have enc: "alpn_encode (p # ps) = char_of (length p) # p @ alpn_encode ps" by (simp add: alpn_encode_def)
  have len: "(of_char (char_of (length p) :: char) :: nat) = length p" using Cons.prems by simp
  have h2: "length p = 2 \<and> take 2 (p @ x) = ''h2'' \<longleftrightarrow> p = ''h2''" for x by auto
  have h11: "length p = 8 \<and> take 8 (p @ x) = ''http/1.1'' \<longleftrightarrow> p = ''http/1.1''" for x by auto
  show ?case unfolding enc alpn_scan.simps Let_def len h2 h11
    using Cons by auto
qed

text \<open>
  C26. Protocol negotiation: for every well-formed list of protocol names a client can offer, the
  server selects h2 exactly when the client offers it and HTTP/2 is enabled, else http/1.1 exactly
  when the client offers that, else nothing; the position in the list does not matter.
\<close>

theorem alpn_selection:
  assumes "list_all (\<lambda>p. length p < 256) ps"
  shows "tls_alpn_select_cb tls (alpn_encode ps) =
    (if tls_http2_enabled tls \<and> ''h2'' \<in> set ps then Some ''h2''
     else if ''http/1.1'' \<in> set ps then Some ''http/1.1'' else None)"
  using alpn_scan_encode [OF assms] by (simp add: tls_alpn_select_cb_def)

theorem alpn_selection_witness:
  "\<forall>tls. tls_alpn_select_cb (tls\<lparr>tls_http2_enabled := True\<rparr>) (alpn_encode [''spdy/3'', ''http/1.1'', ''h2'']) = Some ''h2''"
  using alpn_selection [of "[''spdy/3'', ''http/1.1'', ''h2'']"] by simp

text \<open>A reload that fails leaves the context in use untouched.\<close>

lemma tls_reload_atomic: "tls_context_reload ts config tls = (tls', False) \<Longrightarrow> tls' = tls"
  by (auto simp: tls_context_reload_def split: if_splits)

end
