(* ===== verification/Rpc.thy ===== *)
theory Rpc
  imports RpcState Network
begin

text \<open>
  \<^verbatim>\<open>src/src/rpc.c\<close>, the client: authentication, the synchronous HTTP exchange, the JSON-RPC
  messages, the calls and the manager. The node and the network between are parameters: whether a
  connection succeeds, what the node answers to the bytes it is sent, in which portions the answer
  arrives, and which allocations succeed. Log output is left out.
\<close>

named_theorems rpc_defs \<open>definitions of the RPC client\<close>

definition RPC_MAX_AUTH_LEN :: nat where "RPC_MAX_AUTH_LEN = 512"
definition RPC_INITIAL_BUFFER_LEN :: nat where "RPC_INITIAL_BUFFER_LEN = 64 * 1024"
definition RPC_MAX_RESPONSE_LEN :: nat where "RPC_MAX_RESPONSE_LEN = 4 * 1024 * 1024"

subsection \<open>Authentication\<close>

definition base64_table :: string where
  "base64_table = ''ABCDEFGHIJKLMNOPQRSTUVWXYZabcdefghijklmnopqrstuvwxyz0123456789+/''"

definition base64_digit :: "nat \<Rightarrow> nat \<Rightarrow> char" where
  "base64_digit v shift = base64_table ! (v div 2 ^ shift mod 64)"

fun base64_encode :: "string \<Rightarrow> string" where
  "base64_encode [] = []"
| "base64_encode [a] =
    (let v = of_char a * 65536 in [base64_digit v 18, base64_digit v 12, CHR ''='', CHR ''=''])"
| "base64_encode [a, b] =
    (let v = of_char a * 65536 + of_char b * 256 in
     [base64_digit v 18, base64_digit v 12, base64_digit v 6, CHR ''=''])"
| "base64_encode (a # b # c # input) =
    (let v = of_char a * 65536 + of_char b * 256 + of_char c in
     [base64_digit v 18, base64_digit v 12, base64_digit v 6, base64_digit v 0] @ base64_encode input)"

definition basic_auth :: "nat \<Rightarrow> string \<Rightarrow> string" where
  "basic_auth header_sz encoded =
    (if header_sz > 7 then snprintf_buf header_sz (''Basic '' @ take 500 encoded) else [])"

definition build_auth_header :: "string \<Rightarrow> string \<Rightarrow> nat \<Rightarrow> string" where
  "build_auth_header user password header_sz =
    (let credentials = snprintf_buf 128 (user @ '':'' @ password) in
     basic_auth header_sz (base64_encode credentials))"

definition strip_newlines :: "string \<Rightarrow> string" where
  "strip_newlines line = rev (dropWhile (\<lambda>c. c = LF \<or> c = CR) (rev line))"

text \<open>The line that \<open>fgets\<close> leaves in the 256-byte array, without its line end.\<close>

definition cookie_line :: "string \<Rightarrow> string" where
  "cookie_line content = strip_newlines (cstr (take (fgets_len 256 content) content))"

text \<open>
  The content of the file is \<open>None\<close> when it cannot be opened. The encoded cookie is written to an
  array of \<open>COOKIE_ENCODED_LEN\<close> bytes; \<open>Inl\<close> is the error code, the header is unchanged then.
\<close>

definition COOKIE_ENCODED_LEN :: nat where "COOKIE_ENCODED_LEN = 256"

definition read_cookie_file :: "string option \<Rightarrow> nat \<Rightarrow> int + string" where
  "read_cookie_file file header_sz = (case file of
     None \<Rightarrow> Inl RPC_ERR_COOKIE
   | Some content \<Rightarrow> if content = [] then Inl RPC_ERR_COOKIE
       else Inr (basic_auth header_sz (base64_encode (cookie_line content))))"

definition get_cookie_path_from_datadir :: "string \<Rightarrow> BitcoinChain \<Rightarrow> nat \<Rightarrow> string" where
  "get_cookie_path_from_datadir datadir chain path_sz =
    (let subdir = (case chain of CHAIN_TESTNET \<Rightarrow> ''/testnet3'' | CHAIN_SIGNET \<Rightarrow> ''/signet''
         | CHAIN_REGTEST \<Rightarrow> ''/regtest'' | _ \<Rightarrow> '''') in
     snprintf_buf path_sz (take 200 datadir @ take 10 subdir @ ''/.cookie''))"

definition rpc_client_zero :: RPCClient where
  "rpc_client_zero = \<lparr>cl_host = [], cl_port = 0, cl_auth_header = [], cl_timeout_sec = 0, cl_wallet = [],
     cl_chain = CHAIN_MAINNET, cl_available = 0, cl_request_count = 0, cl_error_count = 0,
     cl_cookie_path = [], cl_cookie_mtime = 0, cl_resolved = False\<rparr>"

text \<open>Reading the cookie of a client whose path is set.\<close>

definition load_cookie :: "(string \<Rightarrow> string option) \<Rightarrow> RPCClient \<Rightarrow> RPCClient \<times> int" where
  "load_cookie files client = (case read_cookie_file (files (cl_cookie_path client)) RPC_MAX_AUTH_LEN of
     Inl e \<Rightarrow> (client, e)
   | Inr h \<Rightarrow> (client\<lparr>cl_auth_header := h\<rparr>, RPC_OK))"

definition rpc_init :: "(string \<Rightarrow> string option) \<Rightarrow> RPCConfig \<Rightarrow> BitcoinChain \<Rightarrow> RPCClient \<times> int" where
  "rpc_init files config chain =
    (let client = rpc_client_zero\<lparr>cl_chain := chain,
           cl_timeout_sec := (if rc_timeout_sec config > 0 then rc_timeout_sec config else 30),
           cl_host := snprintf_buf 256 (rc_host config), cl_port := rc_port config,
           cl_wallet := snprintf_buf 64 (rc_wallet config)\<rparr> in
     if rc_cookie_file config \<noteq> [] then
       (case load_cookie files (client\<lparr>cl_cookie_path := snprintf_buf 256 (rc_cookie_file config)\<rparr>) of
          (c, r) \<Rightarrow> (c, if r \<noteq> 0 then RPC_ERR_COOKIE else RPC_OK))
     else if rc_datadir config \<noteq> [] then
       (case load_cookie files (client\<lparr>cl_cookie_path := get_cookie_path_from_datadir (rc_datadir config) chain 256\<rparr>) of
          (c, r) \<Rightarrow> (c, if r \<noteq> 0 then RPC_ERR_COOKIE else RPC_OK))
     else if rc_user config \<noteq> [] \<and> rc_password config \<noteq> [] then
       (client\<lparr>cl_auth_header := build_auth_header (rc_user config) (rc_password config) RPC_MAX_AUTH_LEN\<rparr>, RPC_OK)
     else (client, RPC_ERR_AUTH))"

definition rpc_config_zero :: RPCConfig where
  "rpc_config_zero = \<lparr>rc_enabled = 0, rc_host = [], rc_port = 0, rc_user = [], rc_password = [],
     rc_cookie_file = [], rc_datadir = [], rc_timeout_sec = 0, rc_wallet = []\<rparr>"

definition rpc_init_simple :: "string \<Rightarrow> int \<Rightarrow> string \<Rightarrow> string \<Rightarrow> BitcoinChain \<Rightarrow> RPCClient \<times> int" where
  "rpc_init_simple host port user password chain =
     rpc_init (\<lambda>_. None) (rpc_config_zero\<lparr>rc_enabled := 1, rc_host := strncpy_buf 256 host, rc_port := port,
       rc_user := strncpy_buf 64 user, rc_password := strncpy_buf 64 password, rc_timeout_sec := 30\<rparr>) chain"

definition rpc_init_cookie :: "(string \<Rightarrow> string option) \<Rightarrow> string \<Rightarrow> int \<Rightarrow> string \<Rightarrow> BitcoinChain
    \<Rightarrow> RPCClient \<times> int" where
  "rpc_init_cookie files host port cookie_path chain =
     rpc_init files (rpc_config_zero\<lparr>rc_enabled := 1, rc_host := strncpy_buf 256 host, rc_port := port,
       rc_cookie_file := strncpy_buf 256 cookie_path, rc_timeout_sec := 30\<rparr>) chain"

definition rpc_refresh_cookie :: "(string \<Rightarrow> string option) \<Rightarrow> RPCClient \<Rightarrow> RPCClient \<times> int" where
  "rpc_refresh_cookie files client =
    (if cl_cookie_path client = [] then (client, RPC_OK) else load_cookie files client)"

subsection \<open>The HTTP exchange\<close>

text \<open>
  One attempt to reach the node: the addresses of the host (\<open>None\<close> when the name does not
  resolve), each with the outcome of \<open>socket\<close> and \<open>connect\<close>; whether sending succeeds; the
  answer to the bytes sent; how much each \<open>recv\<close> delivers at most (the connection ends after the
  last one); the allocations, by size.
\<close>

record RpcNet =
  rn_addrs :: "(bool \<times> bool) list option"
  rn_send :: bool
  rn_answer :: "string \<Rightarrow> string"
  rn_sizes :: "nat list"
  rn_alloc :: "nat \<Rightarrow> bool"

definition rpc_connect :: "RpcNet \<Rightarrow> bool" where
  "rpc_connect net = (case rn_addrs net of None \<Rightarrow> False | Some rs \<Rightarrow> list_ex (\<lambda>(sock, conn). sock \<and> conn) rs)"

definition rpc_request_header :: "RPCClient \<Rightarrow> nat \<Rightarrow> string" where
  "rpc_request_header client body_len = snprintf_buf 2048
    (''POST '' @ (if cl_wallet client \<noteq> [] then ''/wallet/'' else ''/'') @ cl_wallet client @ '' HTTP/1.1'' @ CRLF @
     ''Host: '' @ cl_host client @ '':'' @ fmt_d (cl_port client) @ CRLF @
     ''Authorization: '' @ cl_auth_header client @ CRLF @
     ''Content-Type: application/json'' @ CRLF @
     ''Content-Length: '' @ fmt_u body_len @ CRLF @
     ''Connection: close'' @ CRLF @ CRLF)"

text \<open>The receive loop: \<open>avail\<close> is what the node still has to deliver, \<open>got\<close> what is in the buffer.\<close>

primrec recv_loop :: "(nat \<Rightarrow> bool) \<Rightarrow> nat list \<Rightarrow> string \<Rightarrow> nat \<Rightarrow> string \<Rightarrow> string" where
  "recv_loop alloc [] avail buffer_size got = got"
| "recv_loop alloc (k # ks) avail buffer_size got =
    (let n = min k (min (length avail) (buffer_size - length got - 1)) in
     if n = 0 then got
     else let got1 = got @ take n avail; avail1 = drop n avail in
       if length got1 \<ge> buffer_size - 1 \<and> buffer_size < RPC_MAX_RESPONSE_LEN then
         (let new_size = min (buffer_size * 2) RPC_MAX_RESPONSE_LEN in
          if \<not> alloc new_size then got1
          else if length got1 \<ge> RPC_MAX_RESPONSE_LEN - 1 then got1
          else recv_loop alloc ks avail1 new_size got1)
       else if length got1 \<ge> RPC_MAX_RESPONSE_LEN - 1 then got1
       else recv_loop alloc ks avail1 buffer_size got1)"

definition rpc_http_status :: "string \<Rightarrow> int" where
  "rpc_http_status response =
    (if has_prefix ''HTTP/'' response then
       (case strchr response SP of Some i \<Rightarrow> atoi (cstr (drop (Suc i) response)) | None \<Rightarrow> 0)
     else 0)"

text \<open>The body of the response, or the error code.\<close>

definition rpc_http_request :: "RpcNet \<Rightarrow> RPCClient \<Rightarrow> string \<Rightarrow> RPCClient \<times> (int + string)" where
  "rpc_http_request net client body =
    (if \<not> rpc_connect net then (client, Inl RPC_ERR_CONNECT)
     else if \<not> rn_send net then (client, Inl RPC_ERR_CONNECT)
     else if \<not> rn_alloc net RPC_INITIAL_BUFFER_LEN then (client, Inl RPC_ERR_MEMORY)
     else let response = recv_loop (rn_alloc net) (rn_sizes net)
                (rn_answer net (rpc_request_header client (length body) @ body)) RPC_INITIAL_BUFFER_LEN [] in
       if response = [] then (client, Inl RPC_ERR_CONNECT)
       else let http_status = rpc_http_status response in
       case strstr response (CRLF @ CRLF) of
         None \<Rightarrow> (client, Inl RPC_ERR_PARSE)
       | Some i \<Rightarrow>
          let client1 = client\<lparr>cl_request_count := cl_request_count client + 1\<rparr> in
          if http_status = 401 \<or> http_status = 403 then (client1, Inl RPC_ERR_AUTH)
          else (client1, Inr (drop (i + 4) response)))"

subsection \<open>JSON-RPC messages\<close>

text \<open>
  The request number is a function-local static; \<open>None\<close> when the allocation of \<open>buf_size\<close> bytes
  fails.
\<close>

definition build_jsonrpc_request :: "(nat \<Rightarrow> bool) \<Rightarrow> u64 \<Rightarrow> string \<Rightarrow> string \<Rightarrow> u64 \<times> string option" where
  "build_jsonrpc_request alloc request_id method params =
    (let buf_size = length params + length method + 128 in
     if \<not> alloc buf_size then (request_id, None)
     else (request_id + 1, Some (snprintf_buf buf_size
       (''{'' @ quoted ''jsonrpc'' @ '':'' @ quoted ''1.0'' @ '','' @ quoted ''id'' @ '':'' @ fmt_u (unat (request_id + 1)) @ '','' @
        quoted ''method'' @ '':'' @ quoted method @ '','' @ quoted ''params'' @ '':'' @ params @ ''}''))))"

definition skip_json_blanks :: "string \<Rightarrow> string" where
  "skip_json_blanks s = dropWhile (\<lambda>c. c = SP \<or> c = TAB) s"

text \<open>The loop that finds the end of an object or array: the number of characters it passes.\<close>

primrec json_span :: "char \<Rightarrow> char \<Rightarrow> string \<Rightarrow> char \<Rightarrow> nat \<Rightarrow> bool \<Rightarrow> nat" where
  "json_span opn cls [] prev depth in_string = 0"
| "json_span opn cls (c # p) prev depth in_string =
    (if depth = 0 then 0
     else if c = DQUOTE \<and> prev \<noteq> BSLASH then Suc (json_span opn cls p c depth (\<not> in_string))
     else if \<not> in_string then
       (if c = opn then Suc (json_span opn cls p c (Suc depth) in_string)
        else if c = cls then Suc (json_span opn cls p c (depth - 1) in_string)
        else Suc (json_span opn cls p c depth in_string))
     else Suc (json_span opn cls p c depth in_string))"

text \<open>\<open>if (len >= result_sz) len = result_sz - 1\<close> and the copy of \<open>len\<close> characters.\<close>

definition copy_result :: "nat \<Rightarrow> string \<Rightarrow> string" where
  "copy_result result_sz s = take (result_sz - 1) s"

definition json_error_text :: "string \<Rightarrow> nat \<Rightarrow> string" where
  "json_error_text val_start result_sz = (case memmem (quoted ''message'' @ '':'') val_start of
     None \<Rightarrow> copy_result result_sz val_start
   | Some m \<Rightarrow>
      let msg_pos = dropWhile (\<lambda>c. c = SP \<or> c = DQUOTE) (drop (m + 10) val_start) in
      case memchr DQUOTE msg_pos of
        None \<Rightarrow> copy_result result_sz val_start
      | Some len \<Rightarrow> copy_result result_sz (take len msg_pos))"

definition json_other_text :: "string \<Rightarrow> nat \<Rightarrow> string" where
  "json_other_text result_pos result_sz =
    (if has_prefix ''{'' result_pos then
       copy_result result_sz (take (Suc (json_span (CHR ''{'') (CHR ''}'') (tl result_pos) (CHR ''{'') 1 False)) result_pos)
     else if has_prefix ''['' result_pos then
       copy_result result_sz (take (Suc (json_span (CHR ''['') (CHR '']'') (tl result_pos) (CHR ''['') 1 False)) result_pos)
     else if has_prefix ''null'' result_pos then copy_result result_sz ''null''
     else copy_result result_sz (takeWhile (\<lambda>c. c \<noteq> CHR '','' \<and> c \<noteq> CHR ''}'') result_pos))"

text \<open>A string that does not end is read on from after its quote by the other cases.\<close>

definition json_result_text :: "string \<Rightarrow> nat \<Rightarrow> string" where
  "json_result_text result_pos result_sz =
    (if has_prefix [DQUOTE] result_pos then
       (case memchr DQUOTE (tl result_pos) of
          Some len \<Rightarrow> copy_result result_sz (take len (tl result_pos))
        | None \<Rightarrow> json_other_text (tl result_pos) result_sz)
     else json_other_text result_pos result_sz)"

text \<open>The return code, the text left in the result buffer, and \<open>is_error\<close>.\<close>

definition parse_jsonrpc_response :: "string \<Rightarrow> nat \<Rightarrow> int \<times> string \<times> bool" where
  "parse_jsonrpc_response response0 result_sz =
    (let response = cstr response0;
         no_error = (case memmem (quoted ''result'' @ '':'') response of
             None \<Rightarrow> (RPC_ERR_PARSE, copy_result result_sz ''No result in response'', False)
           | Some r \<Rightarrow> (RPC_OK, json_result_text (skip_json_blanks (drop (r + 9) response)) result_sz, False)) in
     case memmem (quoted ''error'' @ '':'') response of
       Some e \<Rightarrow>
        let val_start = skip_json_blanks (drop (e + 8) response) in
        if has_prefix ''null'' val_start then no_error
        else (RPC_ERR_NODE, json_error_text val_start result_sz, True)
     | None \<Rightarrow> no_error)"

subsection \<open>Calls\<close>

text \<open>
  What the calls use of the outside: the cookie files, the network of the first attempt and of the
  repeated one, and the allocations of the request text (before each attempt).
\<close>

record RpcEnv =
  re_files :: "string \<Rightarrow> string option"
  re_net :: RpcNet
  re_net2 :: RpcNet
  re_alloc :: "nat \<Rightarrow> bool"
  re_alloc2 :: "nat \<Rightarrow> bool"

type_synonym rpc_result = "RPCClient \<times> u64 \<times> int \<times> string"

definition rpc_failure_text :: "int \<Rightarrow> string" where
  "rpc_failure_text rpc_error =
    (if rpc_error = RPC_ERR_CONNECT then ''Failed to connect to node''
     else if rpc_error = RPC_ERR_AUTH then ''Authentication failed''
     else if rpc_error = RPC_ERR_TIMEOUT then ''Request timed out''
     else ''RPC request failed'')"

definition rpc_call_failed :: "RPCClient \<Rightarrow> u64 \<Rightarrow> int \<Rightarrow> nat \<Rightarrow> rpc_result" where
  "rpc_call_failed client ids rpc_error result_sz =
    (client\<lparr>cl_available := 0\<rparr>, ids, rpc_error, copy_result result_sz (rpc_failure_text rpc_error))"

definition rpc_call_parse :: "RPCClient \<Rightarrow> u64 \<Rightarrow> string \<Rightarrow> nat \<Rightarrow> rpc_result" where
  "rpc_call_parse client ids response result_sz =
    (case parse_jsonrpc_response response result_sz of (ret, text, is_error) \<Rightarrow>
       ((if is_error then client\<lparr>cl_error_count := cl_error_count client + 1\<rparr>
         else client\<lparr>cl_available := 1\<rparr>), ids, ret, text))"

text \<open>The second attempt after an authentication failure.\<close>

definition rpc_call_retry :: "RpcEnv \<Rightarrow> u64 \<Rightarrow> RPCClient \<Rightarrow> string \<Rightarrow> string \<Rightarrow> nat \<Rightarrow> rpc_result" where
  "rpc_call_retry env ids client method params result_sz =
    (case rpc_refresh_cookie (re_files env) client of (client1, r) \<Rightarrow>
       if r \<noteq> 0 then rpc_call_failed client1 ids RPC_ERR_AUTH result_sz
       else case build_jsonrpc_request (re_alloc2 env) ids method params of
         (ids1, None) \<Rightarrow> rpc_call_failed client1 ids1 RPC_ERR_AUTH result_sz
       | (ids1, Some request) \<Rightarrow>
          (case rpc_http_request (re_net2 env) client1 request of
             (client2, Inl e) \<Rightarrow> rpc_call_failed client2 ids1 e result_sz
           | (client2, Inr response) \<Rightarrow> rpc_call_parse client2 ids1 response result_sz))"

definition rpc_call :: "RpcEnv \<Rightarrow> u64 \<Rightarrow> RPCClient \<Rightarrow> string \<Rightarrow> string \<Rightarrow> nat \<Rightarrow> rpc_result" where
  "rpc_call env ids client method params result_sz =
    (case build_jsonrpc_request (re_alloc env) ids method params of
       (ids1, None) \<Rightarrow> (client, ids1, RPC_ERR_MEMORY, copy_result result_sz ''Memory allocation failed'')
     | (ids1, Some request) \<Rightarrow>
        (case rpc_http_request (re_net env) client request of
           (client1, Inr response) \<Rightarrow> rpc_call_parse client1 ids1 response result_sz
         | (client1, Inl e) \<Rightarrow>
            let client2 = client1\<lparr>cl_error_count := cl_error_count client1 + 1\<rparr> in
            if e = RPC_ERR_AUTH \<and> cl_cookie_path client2 \<noteq> [] then
              rpc_call_retry env ids1 client2 method params result_sz
            else rpc_call_failed client2 ids1 e result_sz))"

definition tx_params :: "string \<Rightarrow> string" where
  "tx_params hex_tx = ''['' @ quoted hex_tx @ '']''"

text \<open>\<open>params_ok\<close> is the outcome of allocating the parameters.\<close>

definition rpc_sendrawtransaction :: "bool \<Rightarrow> RpcEnv \<Rightarrow> u64 \<Rightarrow> RPCClient \<Rightarrow> string \<Rightarrow> nat \<Rightarrow> rpc_result" where
  "rpc_sendrawtransaction params_ok env ids client hex_tx result_sz =
    (if \<not> params_ok then (client, ids, RPC_ERR_MEMORY, copy_result result_sz ''Memory allocation failed'')
     else rpc_call env ids client ''sendrawtransaction'' (snprintf_buf (length hex_tx + 8) (tx_params hex_tx)) result_sz)"

definition rpc_test_connection :: "RpcEnv \<Rightarrow> u64 \<Rightarrow> RPCClient \<Rightarrow> rpc_result" where
  "rpc_test_connection env ids client =
    (case rpc_call env ids client ''getblockchaininfo'' ''[]'' 256 of (client1, ids1, ret, text) \<Rightarrow>
       (client1\<lparr>cl_available := (if ret = RPC_OK then 1 else 0)\<rparr>, ids1, ret, text))"

definition rpc_getblockchaininfo :: "RpcEnv \<Rightarrow> u64 \<Rightarrow> RPCClient \<Rightarrow> nat \<Rightarrow> rpc_result" where
  "rpc_getblockchaininfo env ids client result_sz = rpc_call env ids client ''getblockchaininfo'' ''[]'' result_sz"

definition rpc_getrawtransaction :: "RpcEnv \<Rightarrow> u64 \<Rightarrow> RPCClient \<Rightarrow> string \<Rightarrow> nat \<Rightarrow> rpc_result" where
  "rpc_getrawtransaction env ids client txid result_sz =
     rpc_call env ids client ''getrawtransaction'' (snprintf_buf 128 (tx_params txid)) result_sz"

definition rpc_getmempoolentry :: "RpcEnv \<Rightarrow> u64 \<Rightarrow> RPCClient \<Rightarrow> string \<Rightarrow> nat \<Rightarrow> rpc_result" where
  "rpc_getmempoolentry env ids client txid result_sz =
     rpc_call env ids client ''getmempoolentry'' (snprintf_buf 128 (tx_params txid)) result_sz"

text \<open>The two calls below leave the result buffer as it is when the allocation fails.\<close>

definition rpc_decoderawtransaction :: "bool \<Rightarrow> RpcEnv \<Rightarrow> u64 \<Rightarrow> RPCClient \<Rightarrow> string \<Rightarrow> string \<Rightarrow> nat \<Rightarrow> rpc_result" where
  "rpc_decoderawtransaction params_ok env ids client hex_tx result0 result_sz =
    (if \<not> params_ok then (client, ids, RPC_ERR_MEMORY, result0)
     else rpc_call env ids client ''decoderawtransaction'' (snprintf_buf (length hex_tx + 8) (tx_params hex_tx)) result_sz)"

definition rpc_testmempoolaccept :: "bool \<Rightarrow> RpcEnv \<Rightarrow> u64 \<Rightarrow> RPCClient \<Rightarrow> string \<Rightarrow> string \<Rightarrow> nat \<Rightarrow> rpc_result" where
  "rpc_testmempoolaccept params_ok env ids client hex_tx result0 result_sz =
    (if \<not> params_ok then (client, ids, RPC_ERR_MEMORY, result0)
     else rpc_call env ids client ''testmempoolaccept''
       (snprintf_buf (length hex_tx + 16) (''['' @ tx_params hex_tx @ '']'')) result_sz)"

subsection \<open>The manager\<close>

definition rpc_manager_zero :: RPCManager where
  "rpc_manager_zero = \<lparr>mg_mainnet = rpc_client_zero, mg_testnet = rpc_client_zero, mg_signet = rpc_client_zero,
     mg_regtest = rpc_client_zero, mg_base = False, mg_active = [], total_broadcasts = 0,
     successful_broadcasts = 0, failed_broadcasts = 0\<rparr>"

definition init_enabled :: "(string \<Rightarrow> string option) \<Rightarrow> RPCConfig \<Rightarrow> BitcoinChain \<Rightarrow> RPCClient" where
  "init_enabled files config chain =
    (if rc_enabled config \<noteq> 0 then fst (rpc_init files config chain) else rpc_client_zero)"

definition rpc_manager_init :: "(string \<Rightarrow> string option) \<Rightarrow> RPCConfig \<Rightarrow> RPCConfig \<Rightarrow> RPCConfig \<Rightarrow> RPCConfig
    \<Rightarrow> RPCManager" where
  "rpc_manager_init files mainnet testnet signet regtest = rpc_manager_zero
    \<lparr>mg_mainnet := init_enabled files mainnet CHAIN_MAINNET, mg_testnet := init_enabled files testnet CHAIN_TESTNET,
     mg_signet := init_enabled files signet CHAIN_SIGNET, mg_regtest := init_enabled files regtest CHAIN_REGTEST\<rparr>"

fun mg_client :: "RPCManager \<Rightarrow> BitcoinChain \<Rightarrow> RPCClient option" where
  "mg_client mgr CHAIN_MAINNET = Some (mg_mainnet mgr)"
| "mg_client mgr CHAIN_TESTNET = Some (mg_testnet mgr)"
| "mg_client mgr CHAIN_SIGNET = Some (mg_signet mgr)"
| "mg_client mgr CHAIN_REGTEST = Some (mg_regtest mgr)"
| "mg_client mgr CHAIN_MIXED = None"

fun set_client :: "BitcoinChain \<Rightarrow> RPCClient \<Rightarrow> RPCManager \<Rightarrow> RPCManager" where
  "set_client CHAIN_MAINNET c mgr = mgr\<lparr>mg_mainnet := c\<rparr>"
| "set_client CHAIN_TESTNET c mgr = mgr\<lparr>mg_testnet := c\<rparr>"
| "set_client CHAIN_SIGNET c mgr = mgr\<lparr>mg_signet := c\<rparr>"
| "set_client CHAIN_REGTEST c mgr = mgr\<lparr>mg_regtest := c\<rparr>"
| "set_client CHAIN_MIXED c mgr = mgr"

definition rpc_manager_get_client :: "RPCManager \<Rightarrow> BitcoinChain \<Rightarrow> RPCClient option" where
  "rpc_manager_get_client mgr chain = (case mg_client mgr chain of
     None \<Rightarrow> None
   | Some c \<Rightarrow> if cl_host c \<noteq> [] then Some c else None)"

definition rpc_manager_broadcast :: "bool \<Rightarrow> RpcEnv \<Rightarrow> u64 \<Rightarrow> RPCManager \<Rightarrow> BitcoinChain \<Rightarrow> string \<Rightarrow> nat
    \<Rightarrow> RPCManager \<times> u64 \<times> int \<times> string" where
  "rpc_manager_broadcast params_ok env ids mgr chain hex_tx txid_sz =
    (case rpc_manager_get_client mgr chain of
       None \<Rightarrow> (mgr, ids, RPC_ERR_CONNECT,
                snprintf_buf txid_sz (''No RPC configured for '' @ network_chain_to_string chain))
     | Some client \<Rightarrow>
        (case rpc_sendrawtransaction params_ok env ids client hex_tx txid_sz of (client1, ids1, ret, text) \<Rightarrow>
          let mgr1 = set_client chain client1 (mgr\<lparr>total_broadcasts := total_broadcasts mgr + 1\<rparr>);
              mgr2 = (if ret = RPC_OK then mgr1\<lparr>successful_broadcasts := successful_broadcasts mgr1 + 1\<rparr>
                      else mgr1\<lparr>failed_broadcasts := failed_broadcasts mgr1 + 1\<rparr>) in
          (mgr2, ids1, ret, text)))"

end
