(* ===== verification/RpcFacts.thy ===== *)
theory RpcFacts
  imports Rpc
begin

text \<open>
  What the RPC client guarantees: the credentials reach the node unchanged, the receive loop
  collects the whole answer whatever portions it arrives in and stays within its buffer, the
  answers of a node are read back, and every synchronous broadcast is counted once.
\<close>

subsection \<open>Base64 and the authentication header\<close>

definition base64_value :: "char \<Rightarrow> nat" where
  "base64_value c = (case memchr c base64_table of Some i \<Rightarrow> i | None \<Rightarrow> 0)"

fun base64_decode :: "string \<Rightarrow> string" where
  "base64_decode (a # b # c # d # s) =
    (let v = base64_value a * 262144 + base64_value b * 4096 + base64_value c * 64 + base64_value d in
     if c = CHR ''='' then [char_of (v div 65536)]
     else if d = CHR ''='' then [char_of (v div 65536), char_of (v div 256 mod 256)]
     else [char_of (v div 65536), char_of (v div 256 mod 256), char_of (v mod 256)] @ base64_decode s)"
| "base64_decode s = []"

lemma base64_table_facts: "length base64_table = 64" "distinct base64_table" "CHR ''='' \<notin> set base64_table"
  by (simp_all add: base64_table_def)

lemma base64_value_nth [simp]: "i < 64 \<Longrightarrow> base64_value (base64_table ! i) = i"
proof -
  assume i: "i < 64"
  have "memchr (base64_table ! i) base64_table = Some i"
    using i base64_table_facts(1,2)
    by (auto simp: memchr_Some_iff in_set_conv_nth nth_eq_iff_index_eq)
  then show ?thesis by (simp add: base64_value_def)
qed

lemma base64_value_digit: "base64_value (base64_digit v k) = v div 2 ^ k mod 64"
  by (simp add: base64_digit_def)

lemma base64_digit_not_pad [simp]: "base64_digit v k \<noteq> CHR ''=''"
proof -
  have "base64_digit v k \<in> set base64_table" unfolding base64_digit_def
    by (rule nth_mem) (simp add: base64_table_facts(1))
  then show ?thesis using base64_table_facts(3) by metis
qed

lemma base64_pad_value [simp]: "base64_value CHR ''='' = 0"
  using base64_table_facts(3) by (simp add: base64_value_def memchr_None_iff [THEN iffD2])

lemma sextets:
  assumes "v < (16777216 :: nat)"
  shows "v div 262144 mod 64 * 262144 + v div 4096 mod 64 * 4096 + v div 64 mod 64 * 64 + v mod 64 = v"
proof -
  define q1 q2 q3 where "q1 = v div 64" "q2 = q1 div 64" "q3 = q2 div 64"
  have d: "v div 4096 = q2" "v div 262144 = q3" by (simp_all add: q1_q2_q3_def div_mult2_eq [symmetric])
  have "v = q1 * 64 + v mod 64" "q1 = q2 * 64 + q1 mod 64" "q2 = q3 * 64 + q2 mod 64"
    by (simp_all add: q1_q2_q3_def)
  moreover have "q3 mod 64 = q3" using assms by (simp add: d(2) [symmetric] div_less_iff_less_mult)
  ultimately show ?thesis unfolding d q1_q2_q3_def(1) [symmetric] by linarith
qed

lemma of_char_lt: "(of_char (c :: char) :: nat) < 256"
  by (simp add: of_char_def) 

lemma decode_quad:
  assumes "v < 16777216"
  shows "base64_decode (base64_digit v 18 # base64_digit v 12 # base64_digit v 6 # base64_digit v 0 # s) =
      [char_of (v div 65536), char_of (v div 256 mod 256), char_of (v mod 256)] @ base64_decode s"
    and "v mod 64 = 0 \<Longrightarrow> base64_decode (base64_digit v 18 # base64_digit v 12 # base64_digit v 6 # CHR ''='' # s) =
      [char_of (v div 65536), char_of (v div 256 mod 256)]"
    and "v mod 64 = 0 \<Longrightarrow> v div 64 mod 64 = 0 \<Longrightarrow>
      base64_decode (base64_digit v 18 # base64_digit v 12 # CHR ''='' # CHR ''='' # s) = [char_of (v div 65536)]"
proof -
  let ?d = "\<lambda>k. base64_value (base64_digit v k)"
  have q: "?d 18 * 262144 + ?d 12 * 4096 + ?d 6 * 64 + ?d 0 = v"
  proof -
    have p: "(2 :: nat) ^ 18 = 262144" "(2 :: nat) ^ 12 = 4096" "(2 :: nat) ^ 6 = 64" by simp_all
    show ?thesis unfolding base64_value_digit p power_0 div_by_1 by (rule sextets [OF assms])
  qed
  show "base64_decode (base64_digit v 18 # base64_digit v 12 # base64_digit v 6 # base64_digit v 0 # s) =
      [char_of (v div 65536), char_of (v div 256 mod 256), char_of (v mod 256)] @ base64_decode s"
    unfolding base64_decode.simps Let_def q by simp
  show "base64_decode (base64_digit v 18 # base64_digit v 12 # base64_digit v 6 # CHR ''='' # s) =
      [char_of (v div 65536), char_of (v div 256 mod 256)]" if "v mod 64 = 0"
  proof -
    have "?d 0 = 0" using that by (simp add: base64_value_digit)
    then have "?d 18 * 262144 + ?d 12 * 4096 + ?d 6 * 64 = v" using q by linarith
    then show ?thesis unfolding base64_decode.simps Let_def base64_pad_value by simp
  qed
  show "base64_decode (base64_digit v 18 # base64_digit v 12 # CHR ''='' # CHR ''='' # s) = [char_of (v div 65536)]"
    if "v mod 64 = 0" "v div 64 mod 64 = 0"
  proof -
    have "?d 0 = 0" "?d 6 = 0" using that by (simp_all add: base64_value_digit)
    then have "?d 18 * 262144 + ?d 12 * 4096 = v" using q by linarith
    then show ?thesis unfolding base64_decode.simps Let_def base64_pad_value by simp
  qed
qed

lemma byte_parts:
  fixes a b c :: nat
  assumes "b < 256" "c < 256"
  shows "(a * 65536 + b * 256 + c) div 65536 = a" "(a * 65536 + b * 256 + c) div 256 mod 256 = b"
    "(a * 65536 + b * 256 + c) mod 256 = c"
proof -
  have "a * 65536 + b * 256 + c = (b * 256 + c) + 65536 * a" by simp
  moreover have "b * 256 + c < 65536" using assms by linarith
  ultimately show "(a * 65536 + b * 256 + c) div 65536 = a" by simp
  have e: "a * 65536 + b * 256 + c = c + 256 * (a * 256 + b)" by simp
  show "(a * 65536 + b * 256 + c) mod 256 = c" unfolding e mod_mult_self2 using assms(2) by simp
  have "(c + 256 * (a * 256 + b)) div 256 = a * 256 + b" using assms(2) by simp
  then show "(a * 65536 + b * 256 + c) div 256 mod 256 = b" unfolding e using assms(1) by simp
qed

lemma byte_value:
  "(of_char (a :: char) :: nat) * 65536 + of_char (b :: char) * 256 + of_char (c :: char) < 16777216"
  using of_char_lt [of a] of_char_lt [of b] of_char_lt [of c] by linarith

lemma base64_decode_encode: "base64_decode (base64_encode s) = s"
proof (induction s rule: base64_encode.induct)
  case (2 a)
  define v where "v = (of_char a :: nat) * 65536"
  have e: "v = 64 * (64 * (of_char a * 16))" by (simp add: v_def)
  have "v mod 64 = 0" unfolding e by simp
  moreover have "v div 64 mod 64 = 0" unfolding e by simp
  moreover have "v < 16777216" using of_char_lt [of a] by (simp add: v_def)
  ultimately show ?case
    unfolding base64_encode.simps Let_def v_def [symmetric] by (simp only: decode_quad(3)) (simp add: v_def)
next
  case (3 a b)
  define v where "v = (of_char a :: nat) * 65536 + of_char b * 256"
  have e: "v = 64 * (of_char a * 1024 + of_char b * 4)" by (simp add: v_def)
  have "v mod 64 = 0" unfolding e by simp
  moreover have "v < 16777216" using byte_value [of a b "char_of (0 :: nat)"] by (simp add: v_def)
  moreover have "v div 65536 = of_char a" "v div 256 mod 256 = of_char b"
    using byte_parts(1,2) [of "of_char b" 0 "of_char a"] of_char_lt [of b] by (simp_all only: v_def add_0_right)
  ultimately show ?case
    unfolding base64_encode.simps Let_def v_def [symmetric] by (simp only: decode_quad(2)) (simp only: char_of_char)
next
  case (4 a b c s)
  then show ?case
    unfolding base64_encode.simps Let_def append_Cons append_Nil decode_quad(1) [OF byte_value]
      byte_parts [OF of_char_lt of_char_lt] by simp
qed simp

lemma length_base64_encode: "length (base64_encode s) = 4 * ((length s + 2) div 3)"
proof (induction s rule: base64_encode.induct)
  case (4 a b c s)
  have "(5 + length s) div 3 = Suc ((length s + 2) div 3)"
    using div_add_self2 [of 3 "length s + 2"] by (simp add: add.commute add.left_commute)
  then show ?case using 4 by (simp add: Let_def)
qed (simp_all add: Let_def)

lemma basic_auth_id: "length encoded \<le> 500 \<Longrightarrow> basic_auth RPC_MAX_AUTH_LEN encoded = ''Basic '' @ encoded"
  by (simp add: basic_auth_def RPC_MAX_AUTH_LEN_def snprintf_buf_def)

text \<open>
  C27. The Authorization header of a client that is configured with a user and a password is
  \<open>Basic\<close> followed by a text that decodes to exactly \<open>user:password\<close>: for every pair of values
  that the configuration can hold, neither the 128-byte array for the credentials nor the header
  truncates them, and the encoded text with its terminator fits its 256-byte array.
\<close>

theorem auth_header_carries_credentials:
  assumes "rc_cookie_file config = []" "rc_datadir config = []"
    and "rc_user config \<noteq> []" "rc_password config \<noteq> []"
    and "length (rc_user config) < 64" "length (rc_password config) < 64"
  shows "\<exists>client encoded. rpc_init files config chain = (client, RPC_OK)
     \<and> cl_auth_header client = ''Basic '' @ encoded
     \<and> base64_decode encoded = rc_user config @ '':'' @ rc_password config
     \<and> length encoded + 1 \<le> 256"
proof -
  let ?cred = "rc_user config @ '':'' @ rc_password config"
  have len: "length ?cred \<le> 127" using assms(5,6) by simp
  then have bound: "length (base64_encode ?cred) \<le> 172"
  proof -
    have "(length ?cred + 2) div 3 \<le> (127 + 2) div 3" by (rule div_le_mono) (use len in linarith)
    then show ?thesis by (simp add: length_base64_encode)
  qed
  have "build_auth_header (rc_user config) (rc_password config) RPC_MAX_AUTH_LEN = ''Basic '' @ base64_encode ?cred"
    using len bound basic_auth_id [of "base64_encode ?cred"] by (simp add: build_auth_header_def snprintf_buf_def)
  then show ?thesis using assms(1-4) bound
    by (simp add: rpc_init_def Let_def base64_decode_encode)
qed

theorem auth_header_carries_credentials_witness:
  "\<exists>client encoded. rpc_init (\<lambda>_. None) (rpc_config_zero\<lparr>rc_user := ''rpc'', rc_password := ''secret''\<rparr>) CHAIN_REGTEST = (client, RPC_OK)
     \<and> cl_auth_header client = ''Basic '' @ encoded \<and> base64_decode encoded = ''rpc:secret'' \<and> length encoded + 1 \<le> 256"
  using auth_header_carries_credentials [of "rpc_config_zero\<lparr>rc_user := ''rpc'', rc_password := ''secret''\<rparr>" "\<lambda>_. None" CHAIN_REGTEST]
  by (simp add: rpc_config_zero_def)


subsection \<open>Receiving\<close>

declare recv_loop.simps [simp del]

text \<open>Before each \<open>recv\<close> there is room for at least one byte and the terminator.\<close>

definition recv_ok :: "nat \<Rightarrow> string \<Rightarrow> bool" where
  "recv_ok buffer_size got \<longleftrightarrow> length got + 1 < buffer_size \<and> buffer_size \<le> RPC_MAX_RESPONSE_LEN"

lemma recv_loop_bound:
  assumes "recv_ok buffer_size got"
  shows "length (recv_loop alloc ks avail buffer_size got) < RPC_MAX_RESPONSE_LEN"
  using assms
proof (induction ks arbitrary: avail buffer_size got)
  case Nil
  then show ?case by (simp add: recv_ok_def recv_loop.simps)
next
  case (Cons k ks)
  define n where "n = min k (min (length avail) (buffer_size - length got - 1))"
  let ?got = "got @ take n avail" and ?new = "min (buffer_size * 2) RPC_MAX_RESPONSE_LEN"
  have le: "length ?got \<le> buffer_size - 1" "0 < buffer_size" "buffer_size \<le> RPC_MAX_RESPONSE_LEN"
    using Cons.prems by (auto simp: n_def recv_ok_def)
  then have got: "length ?got < RPC_MAX_RESPONSE_LEN" "length got < RPC_MAX_RESPONSE_LEN" using Cons.prems
    by (simp_all add: recv_ok_def)
  have grow: "recv_ok ?new ?got" if "buffer_size < RPC_MAX_RESPONSE_LEN"
    using that le by (auto simp: recv_ok_def)
  have keep: "recv_ok buffer_size ?got"
    if "\<not> (length ?got \<ge> buffer_size - 1 \<and> buffer_size < RPC_MAX_RESPONSE_LEN)" "\<not> length ?got \<ge> RPC_MAX_RESPONSE_LEN - 1"
    using that le unfolding recv_ok_def by linarith
  show ?case unfolding recv_loop.simps n_def [symmetric] Let_def
    by (simp only: split: if_split) (blast intro: got Cons.IH grow keep)
qed

lemma recv_loop_all:
  assumes "recv_ok buffer_size got" "list_all (\<lambda>k. 0 < k) ks" "length avail \<le> length ks"
    and "length got + length avail < RPC_MAX_RESPONSE_LEN" "\<And>n. alloc n"
  shows "recv_loop alloc ks avail buffer_size got = got @ avail"
  using assms(1-4)
proof (induction ks arbitrary: avail buffer_size got)
  case Nil
  then show ?case by (simp add: recv_loop.simps)
next
  case (Cons k ks)
  define n where "n = min k (min (length avail) (buffer_size - length got - 1))"
  show ?case
  proof (cases "avail = []")
    case True
    then have "n = 0" by (simp add: n_def)
    then show ?thesis using True unfolding recv_loop.simps n_def [symmetric] Let_def by simp
  next
    case False
    then have n: "0 < n" "n \<le> length avail" "length got + n + 1 \<le> buffer_size"
      using Cons.prems(1,2) by (auto simp: n_def recv_ok_def)
    have len: "length (got @ take n avail) = length got + n" using n(2) by simp
    have rest: "length (drop n avail) \<le> length ks" "list_all (\<lambda>k. 0 < k) ks"
      "length (got @ take n avail) + length (drop n avail) < RPC_MAX_RESPONSE_LEN"
      using n Cons.prems(2-4) by auto
    note ih = Cons.IH [OF _ rest(2,1,3)]
    consider (grow) "length got + n \<ge> buffer_size - 1" "buffer_size < RPC_MAX_RESPONSE_LEN"
      | (full) "\<not> (length got + n \<ge> buffer_size - 1 \<and> buffer_size < RPC_MAX_RESPONSE_LEN)" "length got + n \<ge> RPC_MAX_RESPONSE_LEN - 1"
      | (room) "\<not> (length got + n \<ge> buffer_size - 1 \<and> buffer_size < RPC_MAX_RESPONSE_LEN)" "\<not> length got + n \<ge> RPC_MAX_RESPONSE_LEN - 1"
      by blast
    then show ?thesis
    proof cases
      case grow
      then have "recv_ok (min (buffer_size * 2) RPC_MAX_RESPONSE_LEN) (got @ take n avail)"
        "\<not> length got + n \<ge> RPC_MAX_RESPONSE_LEN - 1"
        using n Cons.prems(1) len by (auto simp: recv_ok_def)
      note g = this
      show ?thesis using n(1) assms(5) [of "min (buffer_size * 2) RPC_MAX_RESPONSE_LEN"] ih [OF g(1)]
        unfolding recv_loop.simps n_def [symmetric] Let_def len if_P [OF conjI [OF grow]] if_not_P [OF g(2)] by simp
    next
      case full
      then have "drop n avail = []" using Cons.prems(4) n(2) by auto
      then show ?thesis using n(1) append_take_drop_id [of n avail]
        unfolding recv_loop.simps n_def [symmetric] Let_def len if_not_P [OF full(1)] if_P [OF full(2)] by simp
    next
      case room
      then have "recv_ok buffer_size (got @ take n avail)"
        using Cons.prems(1) n len by (auto simp: recv_ok_def)
      then show ?thesis using n(1) ih
        unfolding recv_loop.simps n_def [symmetric] Let_def len if_not_P [OF room(1)] if_not_P [OF room(2)] by simp
    qed
  qed
qed

text \<open>
  The receive buffer: whatever the node sends and in whatever portions, the bytes collected and
  their terminator fit the 4 MB that the buffer may grow to; and an answer below that size is
  collected whole for every sequence of non-empty portions, when the buffer can be grown.
\<close>

lemma recv_collects_answer:
  "length (recv_loop alloc ks answer RPC_INITIAL_BUFFER_LEN []) < RPC_MAX_RESPONSE_LEN
   \<and> (list_all (\<lambda>k. 0 < k) ks \<and> length answer \<le> length ks \<and> length answer < RPC_MAX_RESPONSE_LEN \<and> (\<forall>n. alloc n)
      \<longrightarrow> recv_loop alloc ks answer RPC_INITIAL_BUFFER_LEN [] = answer)"
proof -
  have "recv_ok RPC_INITIAL_BUFFER_LEN []"
    by (simp add: recv_ok_def RPC_INITIAL_BUFFER_LEN_def RPC_MAX_RESPONSE_LEN_def)
  then show ?thesis using recv_loop_bound [of RPC_INITIAL_BUFFER_LEN "[]" alloc ks answer]
      recv_loop_all [of RPC_INITIAL_BUFFER_LEN "[]" ks answer alloc] by auto
qed

lemma recv_collects_answer_witness:
  "recv_loop (\<lambda>_. True) [1, 2, 1, 5] ''abc'' RPC_INITIAL_BUFFER_LEN [] = ''abc''"
  using recv_collects_answer [of "\<lambda>_. True" "[1, 2, 1, 5]" "''abc''"] by (simp add: RPC_MAX_RESPONSE_LEN_def)

subsection \<open>Reading the node's answers\<close>

lemma memmem_skip:
  assumes "a \<notin> set s"
  shows "memmem (a # p) (s @ t) = map_option (\<lambda>n. n + length s) (memmem (a # p) t)"
  using assms by (induction s) (auto simp: memmem_def option.map_comp comp_def option.map_ident)

lemma has_prefix_quote:
  assumes "a \<notin> set w" "a \<notin> set t"
  shows "has_prefix (w @ a # r) (t @ a # u) \<longleftrightarrow> w = t \<and> has_prefix r u"
  using assms
proof (induction w arbitrary: t)
  case Nil
  then show ?case by (cases t) auto
next
  case (Cons x w)
  then show ?case by (cases t) auto
qed

lemma drop_prefix: "s = P @ t \<Longrightarrow> length P = n \<Longrightarrow> drop n s = t"
  by auto

lemma memmem_Cons: "memmem p (x # s) = (if has_prefix p (x # s) then Some 0 else map_option Suc (memmem p s))"
  by (simp add: memmem_def)

text \<open>The answers of a node to a broadcast: the transaction's id, or an error object.\<close>

definition json_success :: "string \<Rightarrow> string \<Rightarrow> string" where
  "json_success txid rest = ''{'' @ quoted ''result'' @ '':'' @ quoted txid @ '','' @ quoted ''error'' @ '':null'' @ rest"

definition json_failure :: "int \<Rightarrow> string \<Rightarrow> string \<Rightarrow> string" where
  "json_failure code msg rest = ''{'' @ quoted ''result'' @ '':null,'' @ quoted ''error'' @ '':{'' @ quoted ''code'' @ '':'' @
     fmt_d code @ '','' @ quoted ''message'' @ '':'' @ quoted msg @ rest"

lemma fmt_d_chars: "c \<in> set (fmt_d i) \<Longrightarrow> isdigit c \<or> c = CHR ''-''"
  using fmt_u_digits by (auto simp: fmt_d_def split: if_splits)

lemma fmt_d_clean: "DQUOTE \<notin> set (fmt_d i)" "NUL \<notin> set (fmt_d i)"
  using fmt_d_chars [of DQUOTE i] fmt_d_chars [of NUL i] by (auto simp: isdigit_def)

lemma parse_json_success:
  assumes "DQUOTE \<notin> set txid" "NUL \<notin> set txid" "NUL \<notin> set rest" "length txid < result_sz"
  shows "parse_jsonrpc_response (json_success txid rest) result_sz = (RPC_OK, txid, False)"
proof -
  have c: "cstr (json_success txid rest) = json_success txid rest"
    using assms by (intro cstr_id) (auto simp: json_success_def quoted_def)
  have e: "memmem (quoted ''error'' @ '':'') (json_success txid rest) = Some (length txid + 13)"
    using assms(1) has_prefix_quote [of DQUOTE "''error''" txid]
    by (simp add: json_success_def quoted_def memmem_Cons memmem_skip)
  have r: "memmem (quoted ''result'' @ '':'') (json_success txid rest) = Some 1"
    by (simp add: json_success_def quoted_def memmem_Cons)
  have "drop (length txid + 13 + 8) (json_success txid rest) = ''null'' @ rest"
    by (rule drop_prefix [where P = "''{'' @ quoted ''result'' @ '':'' @ quoted txid @ '','' @ quoted ''error'' @ '':''"])
      (simp_all add: json_success_def quoted_def)
  then have n: "has_prefix ''null'' (skip_json_blanks (drop (length txid + 13 + 8) (json_success txid rest)))"
    by (simp add: skip_json_blanks_def)
  have "json_result_text (skip_json_blanks (drop (1 + 9) (json_success txid rest))) result_sz = txid"
    using assms(1,4)
    by (simp add: json_success_def quoted_def skip_json_blanks_def json_result_text_def memchr_append_notin copy_result_def)
  then show ?thesis using n by (simp only: parse_jsonrpc_response_def Let_def c e r option.case if_True)
qed

lemma parse_json_failure:
  assumes "DQUOTE \<notin> set msg" "NUL \<notin> set msg" "NUL \<notin> set rest" "length msg < result_sz"
    and "msg \<noteq> []" "hd msg \<noteq> SP"
  shows "parse_jsonrpc_response (json_failure code msg rest) result_sz = (RPC_ERR_NODE, msg, True)"
proof -
  let ?j = "json_failure code msg rest"
  let ?v = "''{'' @ quoted ''code'' @ '':'' @ fmt_d code @ '','' @ quoted ''message'' @ '':'' @ quoted msg @ rest"
  have c: "cstr ?j = ?j"
    using assms fmt_d_clean by (intro cstr_id) (auto simp: json_failure_def quoted_def)
  have e: "memmem (quoted ''error'' @ '':'') ?j = Some 15"
    by (simp add: json_failure_def quoted_def memmem_Cons)
  have v: "skip_json_blanks (drop (15 + 8) ?j) = ?v"
    by (simp add: json_failure_def quoted_def skip_json_blanks_def)
  have m: "memmem (quoted ''message'' @ '':'') ?v = Some (length (fmt_d code) + 9)"
    using fmt_d_clean by (simp add: quoted_def memmem_Cons memmem_skip)
  have d: "drop (length (fmt_d code) + 9 + 10) ?v = quoted msg @ rest"
    by (rule drop_prefix [where P = "''{'' @ quoted ''code'' @ '':'' @ fmt_d code @ '','' @ quoted ''message'' @ '':''"])
      (simp_all add: quoted_def)
  have "dropWhile (\<lambda>c. c = SP \<or> c = DQUOTE) (quoted msg @ rest) = msg @ DQUOTE # rest"
    using assms(1,5,6) by (cases msg) (auto simp: quoted_def)
  then have "json_error_text ?v result_sz = msg"
    unfolding json_error_text_def m option.case Let_def d
    using assms(1,4) by (simp add: memchr_append_notin copy_result_def)
  moreover have "\<not> has_prefix ''null'' ?v" by simp
  ultimately show ?thesis unfolding parse_jsonrpc_response_def Let_def c e option.case v by simp
qed

subsection \<open>Broadcasting\<close>

definition node_answer :: "string \<Rightarrow> string" where
  "node_answer body = ''HTTP/1.1 200 OK'' @ CRLF @ ''Content-Type: application/json'' @ CRLF @
     ''Content-Length: '' @ fmt_u (length body) @ CRLF @ CRLF @ body"

lemma fmt_u_clean: "CR \<notin> set (fmt_u n)" "NUL \<notin> set (fmt_u n)"
  using fmt_u_digits [of CR n] fmt_u_digits [of NUL n] by (auto simp: isdigit_def)

lemma node_answer_status: "rpc_http_status (node_answer body) = 200"
proof -
  have c: "cstr (''200 OK'' @ t) = ''200 OK'' @ cstr t" for t by (simp add: cstr_def)
  have "strchr (node_answer body) SP = Some 8"
    by (simp add: node_answer_def strchr_def cstr_def memchr_def)
  moreover have "atoi (cstr (drop (Suc 8) (node_answer body))) = 200"
  proof -
    have d: "drop (Suc 8) (node_answer body) = ''200 OK'' @ drop 15 (node_answer body)"
      by (simp add: node_answer_def)
    show ?thesis unfolding d c
      by (simp add: atoi_def strtol_def num_scan_def num_sign_def isspace_def isdigit_def digits_val_def)
  qed
  ultimately show ?thesis by (simp add: rpc_http_status_def) (simp add: node_answer_def)
qed

lemma node_answer_body:
  assumes "NUL \<notin> set body"
  shows "\<exists>i. strstr (node_answer body) (CRLF @ CRLF) = Some i \<and> drop (i + 4) (node_answer body) = body"
proof -
  let ?p = "''HTTP/1.1 200 OK'' @ CRLF @ ''Content-Type: application/json'' @ CRLF @ ''Content-Length: '' @ fmt_u (length body)"
  have "cstr (node_answer body) = node_answer body"
    using assms fmt_u_clean(2) by (intro cstr_id) (simp add: node_answer_def)
  moreover have "memmem (CRLF @ CRLF) (node_answer body) = Some (length ?p)"
    using fmt_u_clean(1) by (simp add: node_answer_def memmem_Cons memmem_skip)
  moreover have "drop (length ?p + 4) (node_answer body) = body"
    by (rule drop_prefix [where P = "?p @ CRLF @ CRLF"]) (simp_all add: node_answer_def)
  ultimately show ?thesis by (auto simp: strstr_def)
qed

text \<open>A network on which the node is reached and its answer arrives whole, in any portions.\<close>

definition delivers :: "RpcNet \<Rightarrow> string \<Rightarrow> bool" where
  "delivers net answer \<longleftrightarrow> rpc_connect net \<and> rn_send net \<and> (\<forall>n. rn_alloc net n) \<and> (\<forall>req. rn_answer net req = answer)
     \<and> list_all (\<lambda>k. 0 < k) (rn_sizes net) \<and> length answer \<le> length (rn_sizes net) \<and> length answer < RPC_MAX_RESPONSE_LEN"

lemma http_request_delivers:
  assumes "delivers net (node_answer body)" "NUL \<notin> set body"
  shows "rpc_http_request net client request = (client\<lparr>cl_request_count := cl_request_count client + 1\<rparr>, Inr body)"
proof -
  have r: "recv_loop (rn_alloc net) (rn_sizes net) (rn_answer net req) RPC_INITIAL_BUFFER_LEN [] = node_answer body" for req
    using assms(1) recv_loop_all [of RPC_INITIAL_BUFFER_LEN "[]" "rn_sizes net" "node_answer body" "rn_alloc net"]
    by (simp add: delivers_def recv_ok_def RPC_INITIAL_BUFFER_LEN_def RPC_MAX_RESPONSE_LEN_def)
  obtain i where "strstr (node_answer body) (CRLF @ CRLF) = Some i" "drop (i + 4) (node_answer body) = body"
    using node_answer_body [OF assms(2)] by blast
  moreover have "node_answer body \<noteq> []" by (simp add: node_answer_def)
  ultimately show ?thesis using assms(1)
    unfolding rpc_http_request_def r Let_def node_answer_status by (simp add: delivers_def)
qed

lemma set_client_frame [simp]:
  "total_broadcasts (set_client chain c mgr) = total_broadcasts mgr"
  "successful_broadcasts (set_client chain c mgr) = successful_broadcasts mgr"
  "failed_broadcasts (set_client chain c mgr) = failed_broadcasts mgr"
  by (cases chain; simp)+

lemmas broadcast_unfold = rpc_manager_broadcast_def rpc_sendrawtransaction_def rpc_call_def build_jsonrpc_request_def
  rpc_call_parse_def Let_def

lemma json_clean:
  "NUL \<notin> set text \<Longrightarrow> NUL \<notin> set rest \<Longrightarrow> NUL \<notin> set (json_success text rest)"
  "NUL \<notin> set text \<Longrightarrow> NUL \<notin> set rest \<Longrightarrow> NUL \<notin> set (json_failure code text rest)"
  using fmt_d_clean by (auto simp: json_success_def json_failure_def quoted_def)


definition node_env :: "string \<Rightarrow> RpcEnv" where
  "node_env answer = (let net = \<lparr>rn_addrs = Some [(True, True)], rn_send = True, rn_answer = (\<lambda>_. answer),
       rn_sizes = replicate (length answer) 1, rn_alloc = (\<lambda>_. True)\<rparr> in
     \<lparr>re_files = (\<lambda>_. None), re_net = net, re_net2 = net, re_alloc = (\<lambda>_. True), re_alloc2 = (\<lambda>_. True)\<rparr>)"

lemma node_env_delivers: "length answer < RPC_MAX_RESPONSE_LEN \<Longrightarrow> delivers (re_net (node_env answer)) answer"
  by (simp add: delivers_def node_env_def Let_def rpc_connect_def list_all_iff)


text \<open>
  Every synchronous broadcast is counted exactly once: whatever the network, the node and the
  allocations do, the total grows by as much as the successful and the failed broadcasts together,
  and an unconfigured network leaves all three unchanged.
\<close>

lemma broadcast_counted_once:
  "case rpc_manager_broadcast params_ok env ids mgr chain hex_tx txid_sz of (mgr', ids', ret, text) \<Rightarrow>
     successful_broadcasts mgr' + failed_broadcasts mgr' + total_broadcasts mgr
       = successful_broadcasts mgr + failed_broadcasts mgr + total_broadcasts mgr'
   \<and> total_broadcasts mgr' = (if rpc_manager_get_client mgr chain = None then total_broadcasts mgr else total_broadcasts mgr + 1)"
  by (auto simp: rpc_manager_broadcast_def Let_def split: prod.splits option.splits)

end
