(* ===== verification/RpcAsync.thy ===== *)
theory RpcAsync
  imports RpcFacts "HOL-Library.Multiset"
begin

text \<open>
  \<^verbatim>\<open>src/src/rpc.c\<close>, the asynchronous client of the workers: requests on the manager's list, the
  callbacks of their bufferevents and timers, completion and cancellation. A request is known by
  the address its allocation returned. The calls of user callbacks are recorded in the order they
  are made, newest first, with their status and text.
\<close>

definition RPC_ASYNC_INITIAL_BUF :: nat where "RPC_ASYNC_INITIAL_BUF = 4096"

record AsyncEnv =
  ae_files :: "string \<Rightarrow> string option"
  ae_resolve :: "string \<Rightarrow> bool"
  ae_bev :: bool
  ae_timer :: bool
  ae_connect :: bool
  ae_alloc :: "nat \<Rightarrow> bool"
  ae_calloc :: "nat option"

type_synonym rpc_calls = "(nat \<times> int \<times> string) list"
type_synonym async_st = "RPCManager \<times> rpc_calls"

subsection \<open>Initialisation\<close>

definition rpc_resolve_host :: "AsyncEnv \<Rightarrow> RPCClient \<Rightarrow> RPCClient \<times> bool" where
  "rpc_resolve_host env client =
    (if ae_resolve env (cl_host client) then (client\<lparr>cl_resolved := True\<rparr>, True) else (client, False))"

definition resolve_configured :: "AsyncEnv \<Rightarrow> RPCClient \<Rightarrow> RPCClient" where
  "resolve_configured env client = (if cl_host client \<noteq> [] then fst (rpc_resolve_host env client) else client)"

definition rpc_manager_init_async :: "AsyncEnv \<Rightarrow> bool \<Rightarrow> RPCConfig \<Rightarrow> RPCConfig \<Rightarrow> RPCConfig \<Rightarrow> RPCConfig
    \<Rightarrow> RPCManager" where
  "rpc_manager_init_async env base mainnet testnet signet regtest =
    (let mgr = (rpc_manager_init (ae_files env) mainnet testnet signet regtest)\<lparr>mg_base := base, mg_active := []\<rparr> in
     mgr\<lparr>mg_mainnet := resolve_configured env (mg_mainnet mgr), mg_testnet := resolve_configured env (mg_testnet mgr),
         mg_signet := resolve_configured env (mg_signet mgr), mg_regtest := resolve_configured env (mg_regtest mgr)\<rparr>)"

subsection \<open>Requests\<close>

definition rpc_request_list_add :: "RPCManager \<Rightarrow> RPCRequest \<Rightarrow> RPCManager" where
  "rpc_request_list_add mgr req = mgr\<lparr>mg_active := req # mg_active mgr\<rparr>"

definition rpc_request_list_remove :: "RPCManager \<Rightarrow> RPCRequest \<Rightarrow> RPCManager" where
  "rpc_request_list_remove mgr req = mgr\<lparr>mg_active := filter (\<lambda>r. rq_id r \<noteq> rq_id req) (mg_active mgr)\<rparr>"

text \<open>Writing to a request that is on the list.\<close>

definition put_request :: "RPCRequest \<Rightarrow> RPCManager \<Rightarrow> RPCManager" where
  "put_request req mgr = mgr\<lparr>mg_active := map (\<lambda>r. if rq_id r = rq_id req then req else r) (mg_active mgr)\<rparr>"

definition fire :: "nat option \<Rightarrow> int \<Rightarrow> string \<Rightarrow> rpc_calls \<Rightarrow> rpc_calls" where
  "fire callback status text calls = (case callback of None \<Rightarrow> calls | Some k \<Rightarrow> (k, status, text) # calls)"

text \<open>\<open>rpc_request_free\<close> ends the life of the record: nothing of it is on the list any more.\<close>

definition rpc_request_complete :: "async_st \<Rightarrow> RPCRequest \<Rightarrow> int \<Rightarrow> string \<Rightarrow> async_st" where
  "rpc_request_complete st req status text =
    (rpc_request_list_remove (fst st) req, fire (rq_callback req) status text (snd st))"

definition rpc_build_http_request :: "RPCClient \<Rightarrow> string \<Rightarrow> string" where
  "rpc_build_http_request client body = rpc_request_header client (length body) @ body"

definition rpc_async_connect :: "AsyncEnv \<Rightarrow> RPCClient \<Rightarrow> RPCRequest \<Rightarrow> RPCRequest \<times> bool" where
  "rpc_async_connect env client req =
    (if \<not> cl_resolved client then (req, False)
     else if \<not> ae_bev env then (req\<lparr>rq_bev := False\<rparr>, False)
     else if \<not> ae_connect env then (req\<lparr>rq_bev := False, rq_timeout_ev := False\<rparr>, False)
     else (req\<lparr>rq_bev := True, rq_timeout_ev := ae_timer env\<rparr>, True))"

function grow_cap :: "nat \<Rightarrow> nat \<Rightarrow> nat" where
  "grow_cap new_cap needed = (if 0 < new_cap \<and> new_cap < needed then grow_cap (new_cap * 2) needed else new_cap)"
  by pat_completeness auto
termination
  by (relation "measure (\<lambda>(c, n). n - c)") auto

declare grow_cap.simps [simp del]

text \<open>The result is the state and what is left in the input buffer.\<close>

definition rpc_async_read_cb :: "AsyncEnv \<Rightarrow> async_st \<Rightarrow> RPCRequest \<Rightarrow> string \<Rightarrow> async_st \<times> string" where
  "rpc_async_read_cb env st req input =
    (if input = [] then (st, input)
     else let needed = length (rq_response req) + length input + 1;
              avail = (if needed > RPC_MAX_RESPONSE_LEN then RPC_MAX_RESPONSE_LEN - length (rq_response req) - 1
                       else length input) in
       if avail = 0 then (st, input)
       else if needed > rq_response_cap req then
         (let new_cap = min (grow_cap (if rq_response_cap req \<noteq> 0 then rq_response_cap req * 2 else RPC_ASYNC_INITIAL_BUF) needed)
                          RPC_MAX_RESPONSE_LEN in
          if \<not> ae_alloc env new_cap then
            (rpc_request_complete st req RPC_ERR_MEMORY ''Memory allocation failed'', input)
          else ((put_request (req\<lparr>rq_response_cap := new_cap, rq_response := rq_response req @ take avail input\<rparr>) (fst st),
                 snd st), drop avail input))
       else ((put_request (req\<lparr>rq_response := rq_response req @ take avail input\<rparr>) (fst st), snd st), drop avail input))"

definition rpc_async_timeout_cb :: "async_st \<Rightarrow> RPCRequest \<Rightarrow> async_st" where
  "rpc_async_timeout_cb st req = rpc_request_complete st req RPC_ERR_TIMEOUT ''Request timed out''"

text \<open>The client of a request is the manager's client of its network.\<close>

definition update_client :: "BitcoinChain \<Rightarrow> (RPCClient \<Rightarrow> RPCClient) \<Rightarrow> RPCManager \<Rightarrow> RPCManager" where
  "update_client chain f mgr = (case mg_client mgr chain of Some c \<Rightarrow> set_client chain (f c) mgr | None \<Rightarrow> mgr)"

definition auth_failed :: "async_st \<Rightarrow> RPCRequest \<Rightarrow> async_st" where
  "auth_failed st req = rpc_request_complete
     (update_client (rq_chain req) (\<lambda>c. c\<lparr>cl_error_count := cl_error_count c + 1\<rparr>) (fst st), snd st)
     req RPC_ERR_AUTH ''Authentication failed''"

definition rpc_async_auth_retry :: "AsyncEnv \<Rightarrow> async_st \<Rightarrow> RPCRequest \<Rightarrow> RPCClient \<Rightarrow> async_st" where
  "rpc_async_auth_retry env st req client =
    (if cl_cookie_path client \<noteq> [] then
       (case rpc_refresh_cookie (ae_files env) client of (client1, r) \<Rightarrow>
          let mgr1 = set_client (rq_chain req) client1 (fst st) in
          if r = 0 then
            (case rpc_async_connect env client1
                (req\<lparr>rq_auth_retried := True, rq_response := [], rq_response_cap := 0, rq_bev := False, rq_timeout_ev := False\<rparr>) of
               (req1, conn_ok) \<Rightarrow>
                 if conn_ok then (put_request req1 mgr1, snd st) else auth_failed (mgr1, snd st) req1)
          else auth_failed (mgr1, snd st) (req\<lparr>rq_auth_retried := True\<rparr>))
     else auth_failed st req)"

definition rpc_async_process_response :: "AsyncEnv \<Rightarrow> async_st \<Rightarrow> RPCRequest \<Rightarrow> async_st" where
  "rpc_async_process_response env st req =
    (if rq_response_cap req = 0 \<or> rq_response req = [] then
       rpc_request_complete st req RPC_ERR_CONNECT ''Empty response from node''
     else let http_status = rpc_http_status (rq_response req) in
       if (http_status = 401 \<or> http_status = 403) \<and> \<not> rq_auth_retried req then
         (case mg_client (fst st) (rq_chain req) of
            Some client \<Rightarrow> rpc_async_auth_retry env st req client
          | None \<Rightarrow> auth_failed st req)
       else if http_status = 401 \<or> http_status = 403 then auth_failed st req
       else case strstr (rq_response req) (CRLF @ CRLF) of
         None \<Rightarrow> rpc_request_complete st req RPC_ERR_PARSE ''Malformed HTTP response''
       | Some i \<Rightarrow>
          (case parse_jsonrpc_response (drop (i + 4) (rq_response req)) 4096 of (ret, text, is_error) \<Rightarrow>
             let mgr1 = update_client (rq_chain req) (\<lambda>c. c\<lparr>cl_request_count := cl_request_count c + 1\<rparr>) (fst st) in
             if is_error then
               rpc_request_complete
                 (update_client (rq_chain req) (\<lambda>c. c\<lparr>cl_error_count := cl_error_count c + 1\<rparr>) mgr1, snd st) req ret text
             else
               rpc_request_complete (update_client (rq_chain req) (\<lambda>c. c\<lparr>cl_available := 1\<rparr>) mgr1, snd st) req RPC_OK text))"

record RpcBevEvents =
  rb_connected :: bool
  rb_eof :: bool
  rb_timeout :: bool
  rb_error :: bool

text \<open>The second component is what is written to the connection.\<close>

definition rpc_async_event_cb :: "AsyncEnv \<Rightarrow> async_st \<Rightarrow> RPCRequest \<Rightarrow> RpcBevEvents \<Rightarrow> async_st \<times> string" where
  "rpc_async_event_cb env st req events =
    (if rb_connected events then
       (case mg_client (fst st) (rq_chain req) of
          None \<Rightarrow> (st, [])
        | Some client \<Rightarrow>
           let http_req = rpc_build_http_request client (rq_request_body req) in
           if \<not> ae_alloc env (length http_req) then
             (rpc_request_complete st req RPC_ERR_MEMORY ''Memory allocation failed'', [])
           else (st, http_req))
     else if rb_eof events then (rpc_async_process_response env st req, [])
     else if rb_timeout events then (rpc_request_complete st req RPC_ERR_TIMEOUT ''Request timed out'', [])
     else if rb_error events then (rpc_request_complete st req RPC_ERR_CONNECT ''Failed to connect to node'', [])
     else (st, []))"

definition new_request :: "nat \<Rightarrow> BitcoinChain \<Rightarrow> string \<Rightarrow> nat option \<Rightarrow> RPCRequest" where
  "new_request addr chain body callback = \<lparr>rq_id = addr, rq_chain = chain, rq_request_body = body, rq_response = [],
     rq_response_cap = 0, rq_callback = callback, rq_auth_retried = False, rq_bev = False, rq_timeout_ev = False\<rparr>"

definition rpc_manager_broadcast_async :: "AsyncEnv \<Rightarrow> u64 \<Rightarrow> async_st \<Rightarrow> BitcoinChain \<Rightarrow> string \<Rightarrow> nat option
    \<Rightarrow> u64 \<times> async_st" where
  "rpc_manager_broadcast_async env ids st chain hex_tx callback =
    (case st of (mgr, calls) \<Rightarrow>
     if \<not> mg_base mgr then (ids, mgr, fire callback RPC_ERR_CONNECT ''Async RPC not initialized'' calls)
     else case rpc_manager_get_client mgr chain of
       None \<Rightarrow> (ids, mgr, fire callback RPC_ERR_CONNECT
                 (snprintf_buf 64 (''No RPC configured for '' @ network_chain_to_string chain)) calls)
     | Some client \<Rightarrow>
        if \<not> ae_alloc env (length hex_tx + 8) then (ids, mgr, fire callback RPC_ERR_MEMORY ''Memory allocation failed'' calls)
        else case build_jsonrpc_request (ae_alloc env) ids ''sendrawtransaction''
            (snprintf_buf (length hex_tx + 8) (tx_params hex_tx)) of
          (ids1, None) \<Rightarrow> (ids1, mgr, fire callback RPC_ERR_MEMORY ''Memory allocation failed'' calls)
        | (ids1, Some body) \<Rightarrow>
           (case ae_calloc env of
              None \<Rightarrow> (ids1, mgr, fire callback RPC_ERR_MEMORY ''Memory allocation failed'' calls)
            | Some addr \<Rightarrow>
               let req = new_request addr chain body callback;
                   mgr1 = (rpc_request_list_add mgr req)\<lparr>total_broadcasts := total_broadcasts mgr + 1\<rparr> in
               (case rpc_async_connect env client req of (req1, conn_ok) \<Rightarrow>
                  if conn_ok then (ids1, put_request req1 mgr1, calls)
                  else (ids1, (rpc_request_list_remove mgr1 req1)\<lparr>failed_broadcasts := failed_broadcasts mgr1 + 1\<rparr>,
                        fire callback RPC_ERR_CONNECT ''Failed to connect to node'' calls))))"

definition rpc_request_cancel :: "RPCManager \<Rightarrow> RPCRequest \<Rightarrow> RPCManager" where
  "rpc_request_cancel mgr req = rpc_request_list_remove mgr req"

text \<open>The loop takes the head of the list until it is empty.\<close>

function rpc_manager_cancel_all :: "RPCManager \<Rightarrow> RPCManager" where
  "rpc_manager_cancel_all mgr = (case mg_active mgr of
     [] \<Rightarrow> mgr
   | req # _ \<Rightarrow> rpc_manager_cancel_all (rpc_request_cancel mgr req))"
  by pat_completeness auto
termination
  by (relation "measure (\<lambda>mgr. length (mg_active mgr))")
    (auto simp: rpc_request_cancel_def rpc_request_list_remove_def le_imp_less_Suc)

declare rpc_manager_cancel_all.simps [simp del]

subsection \<open>The buffer of a response\<close>

text \<open>The bytes received and their terminator fit the buffer, which never exceeds the limit.\<close>

definition req_ok :: "RPCRequest \<Rightarrow> bool" where
  "req_ok r \<longleftrightarrow> rq_response_cap r \<le> RPC_MAX_RESPONSE_LEN
     \<and> (if rq_response_cap r = 0 then rq_response r = [] else length (rq_response r) < rq_response_cap r)"

lemma grow_cap_ge: "0 < c \<Longrightarrow> needed \<le> grow_cap c needed"
proof (induction c needed rule: grow_cap.induct)
  case (1 c needed)
  then show ?case by (subst grow_cap.simps) auto
qed

lemma read_cb_fits:
  fixes avail cap needed
  assumes "req_ok req"
    and needed: "needed = length (rq_response req) + length input + 1"
    and avail: "avail = (if needed > RPC_MAX_RESPONSE_LEN then RPC_MAX_RESPONSE_LEN - length (rq_response req) - 1 else length input)"
    and cap: "cap = (if needed > rq_response_cap req then min (grow_cap (if rq_response_cap req \<noteq> 0 then rq_response_cap req * 2
        else RPC_ASYNC_INITIAL_BUF) needed) RPC_MAX_RESPONSE_LEN else rq_response_cap req)"
  shows "cap \<le> RPC_MAX_RESPONSE_LEN" "cap \<noteq> 0" "length (rq_response req @ take avail input) < cap"
proof -
  let ?len = "length (rq_response req)"
  have len: "?len < RPC_MAX_RESPONSE_LEN" "rq_response_cap req \<le> RPC_MAX_RESPONSE_LEN"
    using assms(1) by (auto simp: req_ok_def RPC_MAX_RESPONSE_LEN_def split: if_splits)
  have grown: "min needed RPC_MAX_RESPONSE_LEN \<le> cap"
  proof (cases "needed > rq_response_cap req")
    case True
    then show ?thesis using grow_cap_ge [of "if rq_response_cap req \<noteq> 0 then rq_response_cap req * 2 else RPC_ASYNC_INITIAL_BUF" needed]
      by (simp add: cap RPC_ASYNC_INITIAL_BUF_def min.coboundedI1)
  qed (simp add: cap)
  have "length (take avail input) \<le> avail" by simp
  moreover have "?len + avail < min needed RPC_MAX_RESPONSE_LEN"
    using len(1) by (auto simp: avail needed)
  ultimately show "length (rq_response req @ take avail input) < cap" using grown
    unfolding length_append by linarith
  then show "cap \<noteq> 0" by simp
  show "cap \<le> RPC_MAX_RESPONSE_LEN" using len(2) by (simp add: cap)
qed

subsection \<open>Accounting of callbacks\<close>

definition async_inv :: "async_st \<Rightarrow> bool" where
  "async_inv st \<longleftrightarrow> distinct (map rq_id (mg_active (fst st))) \<and> list_all req_ok (mg_active (fst st))"

text \<open>The callbacks made and those still owed.\<close>

definition tokens :: "RPCRequest list \<Rightarrow> nat multiset" where
  "tokens rs = mset (List.map_filter rq_callback rs)"

definition acct :: "async_st \<Rightarrow> nat multiset" where
  "acct st = mset (map fst (snd st)) + tokens (mg_active (fst st))"

definition async_keeps :: "async_st \<Rightarrow> async_st \<Rightarrow> bool" where
  "async_keeps st st' \<longleftrightarrow> async_inv st' \<and> acct st' = acct st
     \<and> successful_broadcasts (fst st') = successful_broadcasts (fst st)
     \<and> failed_broadcasts (fst st') = failed_broadcasts (fst st) \<and> mg_base (fst st') = mg_base (fst st)"

lemma tokens_Cons: "tokens (r # rs) = (case rq_callback r of None \<Rightarrow> {#} | Some k \<Rightarrow> {#k#}) + tokens rs"
  by (simp add: tokens_def List.map_filter_def split: option.splits)

lemma set_client_active [simp]: "mg_active (set_client chain c mgr) = mg_active mgr" "mg_base (set_client chain c mgr) = mg_base mgr"
  by (cases chain; simp)+

lemma update_client_frame [simp]:
  "mg_active (update_client chain f mgr) = mg_active mgr" "mg_base (update_client chain f mgr) = mg_base mgr"
  "successful_broadcasts (update_client chain f mgr) = successful_broadcasts mgr"
  "failed_broadcasts (update_client chain f mgr) = failed_broadcasts mgr"
  by (simp_all add: update_client_def split: option.splits)

lemma remove_frame [simp]:
  "mg_base (rpc_request_list_remove mgr r) = mg_base mgr"
  "successful_broadcasts (rpc_request_list_remove mgr r) = successful_broadcasts mgr"
  "failed_broadcasts (rpc_request_list_remove mgr r) = failed_broadcasts mgr"
  "mg_active (rpc_request_list_remove mgr r) = filter (\<lambda>x. rq_id x \<noteq> rq_id r) (mg_active mgr)"
  by (simp_all add: rpc_request_list_remove_def)

lemma put_frame [simp]:
  "mg_base (put_request r mgr) = mg_base mgr"
  "successful_broadcasts (put_request r mgr) = successful_broadcasts mgr"
  "failed_broadcasts (put_request r mgr) = failed_broadcasts mgr"
  "mg_active (put_request r mgr) = map (\<lambda>x. if rq_id x = rq_id r then r else x) (mg_active mgr)"
  by (simp_all add: put_request_def)

lemma tokens_remove:
  assumes "distinct (map rq_id rs)" "r \<in> set rs"
  shows "tokens rs = (case rq_callback r of None \<Rightarrow> {#} | Some k \<Rightarrow> {#k#}) + tokens (filter (\<lambda>x. rq_id x \<noteq> rq_id r) rs)"
  using assms
proof (induction rs)
  case (Cons x rs)
  show ?case
  proof (cases "x = r")
    case True
    then have "filter (\<lambda>x. rq_id x \<noteq> rq_id r) rs = rs" using Cons.prems(1) by (auto simp: filter_id_conv image_iff)
    then show ?thesis using True by (simp add: tokens_Cons)
  next
    case False
    then have "r \<in> set rs" "rq_id x \<noteq> rq_id r" using Cons.prems by auto
    then show ?thesis using Cons by (simp add: tokens_Cons add.left_commute)
  qed
qed simp

lemma tokens_put:
  assumes "distinct (map rq_id rs)" "r \<in> set rs" "rq_id r' = rq_id r" "rq_callback r' = rq_callback r"
  shows "tokens (map (\<lambda>x. if rq_id x = rq_id r' then r' else x) rs) = tokens rs"
  using assms
proof (induction rs)
  case (Cons x rs)
  show ?case
  proof (cases "x = r")
    case True
    then have "map (\<lambda>x. if rq_id x = rq_id r' then r' else x) rs = rs"
      using Cons.prems(1,3) True by (intro map_idI) (auto simp: image_iff)
    then show ?thesis using True Cons.prems(3,4) by (simp add: tokens_Cons)
  next
    case False
    then show ?thesis using Cons by (auto simp: tokens_Cons)
  qed
qed simp

lemma keeps_refl [simp]: "async_inv st \<Longrightarrow> async_keeps st st"
  by (simp add: async_keeps_def)

lemma keeps_trans: "async_keeps a b \<Longrightarrow> async_keeps b c \<Longrightarrow> async_keeps a c"
  by (simp add: async_keeps_def)

lemma complete_keeps:
  assumes "async_inv st" "r \<in> set (mg_active (fst st))" "rq_id r' = rq_id r" "rq_callback r' = rq_callback r"
  shows "async_keeps st (rpc_request_complete st r' status msg)"
proof -
  have "distinct (map rq_id (filter P (mg_active (fst st))))" for P
    using assms(1) by (simp add: async_inv_def distinct_map_filter)
  then have "async_inv (rpc_request_complete st r' status msg)"
    using assms(1) by (auto simp: async_inv_def rpc_request_complete_def list_all_iff)
  moreover have "acct (rpc_request_complete st r' status msg) = acct st"
    using assms tokens_remove [of "mg_active (fst st)" r]
    by (simp add: acct_def rpc_request_complete_def fire_def async_inv_def split: option.splits)
  ultimately show ?thesis by (simp add: async_keeps_def rpc_request_complete_def)
qed

lemma put_keeps:
  assumes "async_inv (mgr, calls)" "r \<in> set (mg_active mgr)" "rq_id r' = rq_id r" "rq_callback r' = rq_callback r" "req_ok r'"
  shows "async_keeps (mgr, calls) (put_request r' mgr, calls)"
proof -
  have "map rq_id (map (\<lambda>x. if rq_id x = rq_id r' then r' else x) rs) = map rq_id rs" for rs by (induction rs) auto
  then have "async_inv (put_request r' mgr, calls)" using assms(1,5) unfolding async_inv_def
    by (auto simp: list_all_iff simp del: map_map)
  then show ?thesis using assms tokens_put [of "mg_active mgr" r r']
    by (simp add: async_keeps_def acct_def async_inv_def)
qed

lemma update_client_keeps:
  "async_inv st \<Longrightarrow> async_keeps st (update_client chain f (fst st), snd st)"
  "async_inv st \<Longrightarrow> async_keeps st (set_client chain c (fst st), snd st)"
  by (simp_all add: async_keeps_def async_inv_def acct_def)

lemma req_okI:
  "cap \<le> RPC_MAX_RESPONSE_LEN \<Longrightarrow> cap \<noteq> 0 \<Longrightarrow> length resp < cap \<Longrightarrow>
     req_ok (req\<lparr>rq_response_cap := cap, rq_response := resp\<rparr>)"
  "rq_response_cap req \<le> RPC_MAX_RESPONSE_LEN \<Longrightarrow> rq_response_cap req \<noteq> 0 \<Longrightarrow> length resp < rq_response_cap req \<Longrightarrow>
     req_ok (req\<lparr>rq_response := resp\<rparr>)"
  by (simp_all add: req_ok_def)

lemma rpc_read_cb_keeps:
  assumes "async_inv (mgr, calls)" "req \<in> set (mg_active mgr)"
  shows "async_keeps (mgr, calls) (fst (rpc_async_read_cb env (mgr, calls) req input))"
proof -
  define needed where "needed = length (rq_response req) + length input + 1"
  define avail where "avail = (if needed > RPC_MAX_RESPONSE_LEN then RPC_MAX_RESPONSE_LEN - length (rq_response req) - 1 else length input)"
  define new_cap where "new_cap = min (grow_cap (if rq_response_cap req \<noteq> 0 then rq_response_cap req * 2
      else RPC_ASYNC_INITIAL_BUF) needed) RPC_MAX_RESPONSE_LEN"
  have ok: "req_ok req" using assms by (auto simp: async_inv_def list_all_iff)
  note fits = read_cb_fits [OF ok needed_def avail_def refl, folded new_cap_def]
  have grown: "req_ok (req\<lparr>rq_response_cap := new_cap, rq_response := rq_response req @ take avail input\<rparr>)"
    if "needed > rq_response_cap req" using fits unfolding if_P [OF that] by (rule req_okI)
  have same: "req_ok (req\<lparr>rq_response := rq_response req @ take avail input\<rparr>)" if "\<not> needed > rq_response_cap req"
    using fits unfolding if_not_P [OF that] by (rule req_okI(2))
  have "async_keeps (mgr, calls) (put_request r' mgr, calls)" if "rq_id r' = rq_id req" "rq_callback r' = rq_callback req" "req_ok r'" for r'
    using put_keeps [OF assms that] .
  moreover have "async_keeps (mgr, calls) (rpc_request_complete (mgr, calls) req status msg)" for status msg
    using complete_keeps [OF assms(1), of req req] assms(2) by simp
  ultimately show ?thesis using assms(1) grown same
    unfolding rpc_async_read_cb_def needed_def [symmetric] Let_def avail_def [symmetric] new_cap_def [symmetric]
    by (cases "input = []"; cases "avail = 0"; cases "needed > rq_response_cap req"; cases "ae_alloc env new_cap")
      (simp_all del: not_less)
qed

lemma auth_failed_keeps:
  assumes "async_inv st" "r \<in> set (mg_active (fst st))" "rq_id r' = rq_id r" "rq_callback r' = rq_callback r"
  shows "async_keeps st (auth_failed st r')"
  unfolding auth_failed_def
  by (rule keeps_trans [OF update_client_keeps(1) [OF assms(1)] complete_keeps [where r = r]])
    (use assms in \<open>simp_all add: async_inv_def\<close>)

lemma connect_request:
  "rpc_async_connect env client req = (req', conn_ok) \<Longrightarrow>
     rq_id req' = rq_id req \<and> rq_callback req' = rq_callback req \<and> rq_response req' = rq_response req
     \<and> rq_response_cap req' = rq_response_cap req \<and> rq_auth_retried req' = rq_auth_retried req"
  by (auto simp: rpc_async_connect_def split: if_splits)

lemma auth_retry_keeps:
  assumes "async_inv st" "req \<in> set (mg_active (fst st))"
  shows "async_keeps st (rpc_async_auth_retry env st req client)"
proof (cases "cl_cookie_path client = []")
  case True
  then show ?thesis using auth_failed_keeps [OF assms] by (simp add: rpc_async_auth_retry_def)
next
  case False
  obtain client1 r where r: "rpc_refresh_cookie (ae_files env) client = (client1, r)" by force
  let ?st = "(set_client (rq_chain req) client1 (fst st), snd st)"
  let ?req = "req\<lparr>rq_auth_retried := True, rq_response := [], rq_response_cap := 0, rq_bev := False, rq_timeout_ev := False\<rparr>"
  obtain req1 conn where c: "rpc_async_connect env client1 ?req = (req1, conn)" by force
  have st: "async_keeps st ?st" using update_client_keeps(2) [OF assms(1)] .
  then have inv: "async_inv ?st" by (simp add: async_keeps_def)
  have m: "req \<in> set (mg_active (fst ?st))" using assms(2) by simp
  have req1: "rq_id req1 = rq_id req" "rq_callback req1 = rq_callback req" "req_ok req1"
    using connect_request [OF c] by (auto simp: req_ok_def)
  show ?thesis
    using keeps_trans [OF st put_keeps [OF inv, of req req1]] keeps_trans [OF st auth_failed_keeps [OF inv m, of req1]]
      keeps_trans [OF st auth_failed_keeps [OF inv m, of "req\<lparr>rq_auth_retried := True\<rparr>"]] m req1 False
    by (simp add: rpc_async_auth_retry_def r c Let_def)
qed

lemma process_response_keeps:
  assumes "async_inv st" "req \<in> set (mg_active (fst st))"
  shows "async_keeps st (rpc_async_process_response env st req)"
proof -
  have upd: "async_keeps st (rpc_request_complete (update_client c f (update_client c g (fst st)), snd st) req status msg)"
    for c f g status msg
  proof -
    have i: "async_inv (update_client c g (fst st), snd st)" "async_inv (update_client c f (update_client c g (fst st)), snd st)"
      using assms(1) by (simp_all add: async_inv_def)
    show ?thesis
      using keeps_trans [OF update_client_keeps(1) [OF assms(1)]
          keeps_trans [OF update_client_keeps(1) [OF i(1)] complete_keeps [where r = req and r' = req]]] i assms(2)
      by simp
  qed
  show ?thesis
    using upd assms complete_keeps [OF assms refl refl] auth_failed_keeps [OF assms refl refl] auth_retry_keeps [OF assms]
    by (simp add: rpc_async_process_response_def Let_def split: option.splits prod.splits)
qed

lemma rpc_event_cb_keeps:
  assumes "async_inv st" "req \<in> set (mg_active (fst st))"
  shows "async_keeps st (fst (rpc_async_event_cb env st req events))"
  using assms complete_keeps [OF assms refl refl] process_response_keeps [OF assms]
  by (simp add: rpc_async_event_cb_def Let_def split: option.splits)

lemma cancel_all_empty: "rpc_manager_cancel_all mgr = mgr\<lparr>mg_active := []\<rparr>"
proof (induction mgr rule: rpc_manager_cancel_all.induct)
  case (1 mgr)
  then show ?case
    by (subst rpc_manager_cancel_all.simps)
      (auto simp: rpc_request_cancel_def rpc_request_list_remove_def split: list.splits)
qed

text \<open>A broadcast adds one callback to those made or owed.\<close>

lemma broadcast_async_acct:
  assumes "async_inv (mgr, calls)" "\<And>a. ae_calloc env = Some a \<Longrightarrow> a \<notin> rq_id ` set (mg_active mgr)"
    and "rpc_manager_broadcast_async env ids (mgr, calls) chain hex_tx callback = (ids', st')"
  shows "async_inv st' \<and> acct st' = (case callback of None \<Rightarrow> {#} | Some k \<Rightarrow> {#k#}) + acct (mgr, calls)
     \<and> successful_broadcasts (fst st') = successful_broadcasts mgr"
proof -
  have fired: "async_inv (mgr', fire callback s t calls)
     \<and> acct (mgr', fire callback s t calls) = (case callback of None \<Rightarrow> {#} | Some k \<Rightarrow> {#k#}) + acct (mgr, calls)"
    if "mg_active mgr' = mg_active mgr" for s t mgr'
    using assms(1) that by (simp add: acct_def async_inv_def fire_def split: option.splits)
  show ?thesis
  proof (cases "\<exists>client body ids1 addr. mg_base mgr \<and> rpc_manager_get_client mgr chain = Some client \<and> ae_alloc env (length hex_tx + 8)
      \<and> build_jsonrpc_request (ae_alloc env) ids ''sendrawtransaction'' (snprintf_buf (length hex_tx + 8) (tx_params hex_tx)) = (ids1, Some body)
      \<and> ae_calloc env = Some addr")
    case False
    then have "\<exists>s t. st' = (mgr, fire callback s t calls)" using assms(3)
      by (auto simp: rpc_manager_broadcast_async_def split: option.splits prod.splits if_splits)
    then show ?thesis using fired [of mgr] by auto
  next
    case True
    then obtain client body ids1 addr where t: "mg_base mgr" "rpc_manager_get_client mgr chain = Some client"
      "ae_alloc env (length hex_tx + 8)" "ae_calloc env = Some addr"
      "build_jsonrpc_request (ae_alloc env) ids ''sendrawtransaction'' (snprintf_buf (length hex_tx + 8) (tx_params hex_tx)) = (ids1, Some body)"
      by blast
    let ?req = "new_request addr chain body callback"
    obtain req1 conn where c: "rpc_async_connect env client ?req = (req1, conn)" by force
    have r: "rq_id req1 = addr" "rq_callback req1 = callback" "req_ok req1"
      using connect_request [OF c] by (simp_all add: new_request_def req_ok_def)
    have same: "filter (\<lambda>x. rq_id x \<noteq> addr) (mg_active mgr) = mg_active mgr"
      "map (\<lambda>x. if rq_id x = addr then req1 else x) (mg_active mgr) = mg_active mgr"
      using assms(2) [OF t(4)] by (auto simp: filter_id_conv image_iff intro!: map_idI)
    show ?thesis
    proof (cases conn)
      case True
      then have "fst st' = (mgr\<lparr>mg_active := req1 # mg_active mgr, total_broadcasts := total_broadcasts mgr + 1\<rparr>)" "snd st' = calls"
        using assms(3) t c r same
        by (auto simp: rpc_manager_broadcast_async_def rpc_request_list_add_def put_request_def new_request_def)
      then show ?thesis using assms(1) assms(2) [OF t(4)] r
        by (cases st') (simp add: async_inv_def acct_def tokens_Cons split: option.splits)
    next
      case False
      then have "st' = (mgr\<lparr>total_broadcasts := total_broadcasts mgr + 1, failed_broadcasts := failed_broadcasts mgr + 1\<rparr>,
          fire callback RPC_ERR_CONNECT ''Failed to connect to node'' calls)"
        using assms(3) t c r same
        by (auto simp: rpc_manager_broadcast_async_def rpc_request_list_add_def rpc_request_list_remove_def new_request_def)
      then show ?thesis
        using fired [of "mgr\<lparr>total_broadcasts := total_broadcasts mgr + 1, failed_broadcasts := failed_broadcasts mgr + 1\<rparr>"]
        by simp
    qed
  qed
qed

subsection \<open>Runs of the event loop\<close>

text \<open>
  The asynchronous client over a run: any sequence of broadcasts, events of the requests'
  connections and timers, and cancellations. \<open>rr_started\<close> and \<open>rr_cancelled\<close> are history: the
  callbacks given to broadcasts and those of requests that were cancelled. A new request gets an
  address that no live request has.
\<close>

record RpcRun =
  rr_mgr :: RPCManager
  rr_ids :: u64
  rr_calls :: rpc_calls
  rr_started :: "nat list"
  rr_cancelled :: "nat list"

abbreviation rr_st :: "RpcRun \<Rightarrow> async_st" where "rr_st s \<equiv> (rr_mgr s, rr_calls s)"

definition owed :: "RPCRequest list \<Rightarrow> nat list" where "owed rs = List.map_filter rq_callback rs"

definition owed_callback :: "nat option \<Rightarrow> nat list" where
  "owed_callback callback = (case callback of None \<Rightarrow> [] | Some k \<Rightarrow> [k])"

inductive rpc_step :: "RpcRun \<Rightarrow> RpcRun \<Rightarrow> bool" where
  broadcast: "\<lbrakk>\<And>a. ae_calloc env = Some a \<Longrightarrow> a \<notin> rq_id ` set (mg_active (rr_mgr s));
     rpc_manager_broadcast_async env (rr_ids s) (rr_st s) chain hex_tx callback = (ids', mgr', calls')\<rbrakk>
   \<Longrightarrow> rpc_step s (s\<lparr>rr_mgr := mgr', rr_ids := ids', rr_calls := calls', rr_started := owed_callback callback @ rr_started s\<rparr>)"
| read: "\<lbrakk>req \<in> set (mg_active (rr_mgr s)); rpc_async_read_cb env (rr_st s) req input = ((mgr', calls'), rest)\<rbrakk>
   \<Longrightarrow> rpc_step s (s\<lparr>rr_mgr := mgr', rr_calls := calls'\<rparr>)"
| event: "\<lbrakk>req \<in> set (mg_active (rr_mgr s)); rpc_async_event_cb env (rr_st s) req events = ((mgr', calls'), written)\<rbrakk>
   \<Longrightarrow> rpc_step s (s\<lparr>rr_mgr := mgr', rr_calls := calls'\<rparr>)"
| timer: "\<lbrakk>req \<in> set (mg_active (rr_mgr s)); rpc_async_timeout_cb (rr_st s) req = (mgr', calls')\<rbrakk>
   \<Longrightarrow> rpc_step s (s\<lparr>rr_mgr := mgr', rr_calls := calls'\<rparr>)"
| cancel: "req \<in> set (mg_active (rr_mgr s))
   \<Longrightarrow> rpc_step s (s\<lparr>rr_mgr := rpc_request_cancel (rr_mgr s) req, rr_cancelled := owed [req] @ rr_cancelled s\<rparr>)"
| cancel_all: "rpc_step s (s\<lparr>rr_mgr := rpc_manager_cancel_all (rr_mgr s),
     rr_cancelled := owed (mg_active (rr_mgr s)) @ rr_cancelled s\<rparr>)"

inductive rpc_reach :: "RPCManager \<Rightarrow> RpcRun \<Rightarrow> bool" for mgr where
  init: "rpc_reach mgr \<lparr>rr_mgr = mgr, rr_ids = ids, rr_calls = [], rr_started = [], rr_cancelled = []\<rparr>"
| step: "rpc_reach mgr s \<Longrightarrow> rpc_step s s' \<Longrightarrow> rpc_reach mgr s'"

definition run_inv :: "RPCManager \<Rightarrow> RpcRun \<Rightarrow> bool" where
  "run_inv mgr s \<longleftrightarrow> async_inv (rr_st s) \<and> mset (rr_started s) = acct (rr_st s) + mset (rr_cancelled s)
     \<and> successful_broadcasts (rr_mgr s) = successful_broadcasts mgr"

lemma mset_owed: "mset (owed rs) = tokens rs"
  by (simp add: owed_def tokens_def)

lemma run_inv_step:
  assumes "rpc_step s s'" "run_inv mgr s"
  shows "run_inv mgr s'"
  using assms
proof (induction rule: rpc_step.induct)
  case (broadcast env s chain hex_tx callback ids' mgr' calls')
  then show ?case using broadcast_async_acct [OF _ broadcast(1,2)]
    by (auto simp: run_inv_def owed_callback_def ac_simps split: option.splits)
next
  case (read req s env input mgr' calls' rest)
  then show ?case using rpc_read_cb_keeps [of "rr_mgr s" "rr_calls s" req env input]
    by (auto simp: run_inv_def async_keeps_def)
next
  case (event req s env events mgr' calls' written)
  then show ?case using rpc_event_cb_keeps [of "rr_st s" req env events]
    by (auto simp: run_inv_def async_keeps_def)
next
  case (timer req s mgr' calls')
  then show ?case using complete_keeps [of "rr_st s" req req RPC_ERR_TIMEOUT "''Request timed out''"]
    by (auto simp: run_inv_def async_keeps_def rpc_async_timeout_cb_def)
next
  case (cancel req s)
  then have "tokens (mg_active (rr_mgr s)) = tokens [req] + tokens (filter (\<lambda>x. rq_id x \<noteq> rq_id req) (mg_active (rr_mgr s)))"
    using tokens_remove [of "mg_active (rr_mgr s)" req]
    by (simp add: run_inv_def async_inv_def tokens_Cons tokens_def [of "[]"] List.map_filter_def)
  then show ?case using cancel
    by (auto simp: run_inv_def acct_def mset_owed rpc_request_cancel_def async_inv_def distinct_map_filter list_all_iff ac_simps)
next
  case (cancel_all s)
  then show ?case
    by (simp add: run_inv_def acct_def mset_owed cancel_all_empty async_inv_def tokens_def [of "[]"] List.map_filter_def ac_simps)
qed

lemma run_inv_reach: "rpc_reach mgr s \<Longrightarrow> mg_active mgr = [] \<Longrightarrow> run_inv mgr s"
proof (induction rule: rpc_reach.induct)
  case (init ids)
  then show ?case by (simp add: run_inv_def async_inv_def acct_def tokens_def List.map_filter_def)
qed (simp add: run_inv_step)

text \<open>A run for the witnesses: a client with a resolved address, and a broadcast whose request is in flight.\<close>

definition demo_env :: AsyncEnv where
  "demo_env = \<lparr>ae_files = (\<lambda>_. None), ae_resolve = (\<lambda>_. True), ae_bev = True, ae_timer = True, ae_connect = True,
     ae_alloc = (\<lambda>_. True), ae_calloc = Some 1\<rparr>"

definition demo_config :: RPCConfig where
  "demo_config = rpc_config_zero\<lparr>rc_enabled := 1, rc_host := ''node'', rc_user := ''u'', rc_password := ''p''\<rparr>"

definition demo_mgr :: RPCManager where
  "demo_mgr = rpc_manager_init_async demo_env True rpc_config_zero rpc_config_zero rpc_config_zero demo_config"

definition demo_run :: RpcRun where
  "demo_run = (let s = \<lparr>rr_mgr = demo_mgr, rr_ids = 0, rr_calls = [], rr_started = [], rr_cancelled = []\<rparr> in
     case rpc_manager_broadcast_async demo_env 0 (demo_mgr, []) CHAIN_REGTEST ''00'' (Some 5) of
       (ids', mgr', calls') \<Rightarrow> s\<lparr>rr_mgr := mgr', rr_ids := ids', rr_calls := calls', rr_started := [5]\<rparr>)"

lemma demo_active: "mg_active demo_mgr = []"
  by (simp add: demo_mgr_def rpc_manager_init_async_def Let_def)

lemma demo_client: "\<exists>c. rpc_manager_get_client demo_mgr CHAIN_REGTEST = Some c \<and> cl_resolved c"
  by (simp add: demo_mgr_def rpc_manager_init_async_def Let_def rpc_manager_init_def init_enabled_def demo_config_def
      rpc_config_zero_def rpc_manager_get_client_def rpc_init_def resolve_configured_def rpc_resolve_host_def demo_env_def snprintf_buf_def)

lemma demo_reach: "rpc_reach demo_mgr demo_run"
proof -
  obtain ids' mgr' calls' where b: "rpc_manager_broadcast_async demo_env 0 (demo_mgr, []) CHAIN_REGTEST ''00'' (Some 5) = (ids', mgr', calls')"
    by (metis prod_cases3)
  let ?s = "\<lparr>rr_mgr = demo_mgr, rr_ids = 0, rr_calls = [], rr_started = [], rr_cancelled = []\<rparr>"
  have "rpc_step ?s (?s\<lparr>rr_mgr := mgr', rr_ids := ids', rr_calls := calls', rr_started := owed_callback (Some 5) @ rr_started ?s\<rparr>)"
    by (rule rpc_step.broadcast) (use b demo_active in simp_all)
  then show ?thesis using rpc_reach.step [OF rpc_reach.init [of demo_mgr 0]]
    by (simp add: demo_run_def b owed_callback_def)
qed

lemma demo_requests: "\<exists>req. mg_active (rr_mgr demo_run) = [req] \<and> rq_callback req = Some 5" "rr_calls demo_run = []"
proof -
  obtain c where c: "rpc_manager_get_client demo_mgr CHAIN_REGTEST = Some c" "cl_resolved c" using demo_client by blast
  have "mg_base demo_mgr" by (simp add: demo_mgr_def rpc_manager_init_async_def Let_def)
  then show "\<exists>req. mg_active (rr_mgr demo_run) = [req] \<and> rq_callback req = Some 5" "rr_calls demo_run = []"
    using c demo_active
    by (simp_all add: demo_run_def rpc_manager_broadcast_async_def build_jsonrpc_request_def Let_def demo_env_def
        rpc_async_connect_def rpc_request_list_add_def put_request_def new_request_def)
qed

text \<open>
  C3. Callbacks of asynchronous broadcasts are made exactly once: in every state the event loop can
  reach, whatever the node, the network, the timers, the allocations and the user of the interface do,
  the callbacks given to broadcasts are, counted with multiplicity, those already made, those of the
  requests still on the manager's list and those of cancelled requests. In particular none is made
  twice, none is lost, and once the list is empty each has been made or cancelled.
\<close>

theorem async_callbacks_exactly_once:
  assumes "rpc_reach (rpc_manager_init_async env True mainnet testnet signet regtest) s"
  shows "mset (rr_started s) =
    mset (map fst (rr_calls s)) + mset (owed (mg_active (rr_mgr s))) + mset (rr_cancelled s)"
  using run_inv_reach [OF assms]
  by (simp add: run_inv_def acct_def mset_owed rpc_manager_init_async_def Let_def)

theorem async_callbacks_exactly_once_witness:
  "mset (rr_started demo_run) = mset (owed (mg_active (rr_mgr demo_run))) + mset (rr_cancelled demo_run) \<and> rr_started demo_run = [5]"
  using async_callbacks_exactly_once [of demo_env rpc_config_zero rpc_config_zero rpc_config_zero demo_config demo_run]
    demo_reach demo_requests(2)
  by (simp add: demo_mgr_def [symmetric]) (simp add: demo_run_def Let_def split: prod.splits)

text \<open>
  C28. The buffer of every request in flight holds the bytes received and their terminator, and is
  never larger than the 4 MB limit, in every reachable state and whatever arrives.
\<close>

theorem async_buffers_bounded:
  assumes "rpc_reach (rpc_manager_init_async env True mainnet testnet signet regtest) s" "req \<in> set (mg_active (rr_mgr s))"
  shows "rq_response_cap req \<le> RPC_MAX_RESPONSE_LEN
     \<and> (rq_response req = [] \<or> length (rq_response req) + 1 \<le> rq_response_cap req)"
  using run_inv_reach [OF assms(1)] assms(2)
  by (auto simp: run_inv_def async_inv_def list_all_iff req_ok_def rpc_manager_init_async_def Let_def split: if_splits)

theorem async_buffers_bounded_witness:
  "\<exists>req. mg_active (rr_mgr demo_run) = [req] \<and> rq_response_cap req \<le> RPC_MAX_RESPONSE_LEN
     \<and> (rq_response req = [] \<or> length (rq_response req) + 1 \<le> rq_response_cap req)"
proof -
  obtain req where r: "mg_active (rr_mgr demo_run) = [req]" using demo_requests(1) by blast
  have "rpc_reach (rpc_manager_init_async demo_env True rpc_config_zero rpc_config_zero rpc_config_zero demo_config) demo_run"
    using demo_reach by (simp only: demo_mgr_def)
  then show ?thesis using async_buffers_bounded r by (metis list.set_intros(1))
qed

text \<open>No run of the asynchronous client ever counts a broadcast as successful.\<close>

lemma async_success_uncounted: "rpc_reach mgr s \<Longrightarrow> mg_active mgr = [] \<Longrightarrow> successful_broadcasts (rr_mgr s) = successful_broadcasts mgr"
  using run_inv_reach by (simp add: run_inv_def)

text \<open>
  C38. A response without a result counts as success on the asynchronous path: when the connection
  ends after an HTTP response of any status other than 401 and 403 whose body has neither an
  \<open>error\<close> nor a \<open>result\<close> field (such as the 503 that a node with a full work queue sends), the
  callback is given \<open>RPC_OK\<close> with \<open>No result in response\<close>, although the parser
  returned \<open>RPC_ERR_PARSE\<close>.
\<close>

theorem async_missing_result_reported_ok:
  assumes "rq_response_cap req \<noteq> 0" "rq_callback req = Some k"
    and "strstr (rq_response req) (CRLF @ CRLF) = Some i" "rpc_http_status (rq_response req) \<notin> {401, 403}"
    and "strstr (drop (i + 4) (rq_response req)) (quoted ''error'' @ '':'') = None"
    and "strstr (drop (i + 4) (rq_response req)) (quoted ''result'' @ '':'') = None"
  shows "fst (parse_jsonrpc_response (drop (i + 4) (rq_response req)) 4096) = RPC_ERR_PARSE
    \<and> snd (rpc_async_process_response env (mgr, calls) req) = (k, RPC_OK, ''No result in response'') # calls"
proof -
  have "rq_response req \<noteq> []"
    using assms(3) by (auto simp: strstr_def cstr_def memmem_def)
  moreover have "parse_jsonrpc_response (drop (i + 4) (rq_response req)) 4096 = (RPC_ERR_PARSE, ''No result in response'', False)"
    using assms(5,6) by (simp add: parse_jsonrpc_response_def strstr_def copy_result_def)
  ultimately show ?thesis using assms
    by (simp add: rpc_async_process_response_def Let_def rpc_request_complete_def fire_def)
qed

definition busy_request :: RPCRequest where
  "busy_request = (new_request 1 CHAIN_MAINNET [] (Some 7))\<lparr>rq_response_cap := 4096,
     rq_response := ''HTTP/1.1 503 Service Unavailable'' @ CRLF @ CRLF @ ''Work queue depth exceeded''\<rparr>"

theorem async_missing_result_reported_ok_witness:
  "\<forall>env mgr. snd (rpc_async_process_response env (mgr, []) busy_request) = [(7, RPC_OK, ''No result in response'')]"
proof (intro allI)
  fix env mgr
  have "strstr (rq_response busy_request) (CRLF @ CRLF) = Some 32"
    "strstr (drop (32 + 4) (rq_response busy_request)) (quoted ''error'' @ '':'') = None"
    "strstr (drop (32 + 4) (rq_response busy_request)) (quoted ''result'' @ '':'') = None"
    by (simp_all add: busy_request_def strstr_def cstr_def memmem_def quoted_def)
  moreover have "rpc_http_status (rq_response busy_request) = 503"
    by (simp add: busy_request_def rpc_http_status_def strchr_def cstr_def memchr_def atoi_def strtol_def num_scan_def
        num_sign_def isspace_def isdigit_def digits_val_def)
  moreover have "rq_response_cap busy_request \<noteq> 0" "rq_callback busy_request = Some 7"
    by (simp_all add: busy_request_def new_request_def)
  ultimately show "snd (rpc_async_process_response env (mgr, []) busy_request) = [(7, RPC_OK, ''No result in response'')]"
    using async_missing_result_reported_ok [of busy_request 7 32 env mgr "[]"] by simp
qed

end
