(* ===== verification/Worker.thy ===== *)
theory Worker
  imports StaticLoad Tls RpcAsync
begin

text \<open>
  \<^verbatim>\<open>src/src/worker.c\<close>: the start of a worker process, its accept callbacks, signals and timer, and
  the event loop that runs them together with the callbacks of \<^verbatim>\<open>src/src/connection.c\<close>. The
  server is the worker's state and its open connections, newest first. Allocation sites: 10 (the
  SSL object), 11 (its bufferevent), 12 (a rate limiter entry).
\<close>

subsection \<open>Responses before a connection exists\<close>

definition send_503_response :: string where
  "send_503_response =
     ''HTTP/1.1 503 Service Unavailable'' @ CRLF @ ''Content-Type: text/plain'' @ CRLF @ ''Content-Length: 20'' @ CRLF @
     ''Connection: close'' @ CRLF @ ''Retry-After: 5'' @ CRLF @ CRLF @ ''Service Unavailable'' @ [LF]"

definition send_429_response :: string where
  "send_429_response =
     ''HTTP/1.1 429 Too Many Requests'' @ CRLF @ ''Content-Type: text/plain'' @ CRLF @ ''Content-Length: 18'' @ CRLF @
     ''Connection: close'' @ CRLF @ ''Retry-After: 1'' @ CRLF @ CRLF @ ''Too Many Requests'' @ [LF]"

definition send_403_response :: string where
  "send_403_response =
     ''HTTP/1.1 403 Forbidden'' @ CRLF @ ''Content-Type: text/plain'' @ CRLF @ ''Content-Length: 10'' @ CRLF @
     ''Connection: close'' @ CRLF @ CRLF @ ''Forbidden'' @ [LF]"

definition get_ip_string :: "sockaddr \<Rightarrow> string" where
  "get_ip_string sa = sockaddr_ip sa"

subsection \<open>Accepting\<close>

text \<open>
  The common first part of \<open>accept_cb\<close> and \<open>tls_accept_cb\<close>: \<open>Inl\<close> when the client is turned away
  (with what is written to it before the descriptor is closed), \<open>Inr\<close> when it has a slot.
\<close>

definition accept_admit :: "Env \<Rightarrow> WorkerProcess \<Rightarrow> sockaddr \<Rightarrow> (WorkerProcess \<times> string) + WorkerProcess" where
  "accept_admit env w sa =
    (if draining w then Inl (w, [])
     else let client_ip = get_ip_string sa;
              acl_result = ip_acl_check (Some (w_ip_acl w)) client_ip in
       if acl_result = IP_ACL_BLOCK then Inl (bump Connections_rejected_blocked w, send_403_response)
       else case (if acl_result \<noteq> IP_ACL_ALLOW then
                    (case rate_limiter_allow (e_rnd env) (e_now env) (e_wall env) (e_malloc env 12) (w_rate_limiter w) client_ip of
                       (ok, rl) \<Rightarrow> (ok, w\<lparr>w_rate_limiter := rl\<rparr>))
                  else (True, bump Connections_allowlisted w)) of
         (False, w1) \<Rightarrow> Inl (bump Connections_rejected_rate w1, send_429_response)
       | (True, w1) \<Rightarrow>
          (case slot_manager_acquire (w_slots w1) TIER_NORMAL of
             (False, sm) \<Rightarrow> Inl (bump Connections_rejected_slot (w1\<lparr>w_slots := sm\<rparr>), send_503_response)
           | (True, sm) \<Rightarrow>
              let w2 = bump Connections_accepted (w1\<lparr>w_slots := sm\<rparr>) in
              Inr (w2\<lparr>active_connections := active_connections w2 + 1\<rparr>)))"

text \<open>What both callbacks do when the connection cannot be created.\<close>

definition accept_undo :: "WorkerProcess \<Rightarrow> WorkerProcess" where
  "accept_undo w = w\<lparr>active_connections := active_connections w - 1,
     w_slots := slot_manager_release (w_slots w) TIER_NORMAL\<rparr>"

type_synonym accept_result = "WorkerProcess \<times> Connection option \<times> string"

definition accept_cb :: "Env \<Rightarrow> WorkerProcess \<Rightarrow> sockaddr \<Rightarrow> accept_result" where
  "accept_cb env w sa = (case accept_admit env w sa of
     Inl (w1, response) \<Rightarrow> (w1, None, response)
   | Inr w1 \<Rightarrow>
      (case connection_new env w1 sa of
         None \<Rightarrow> (accept_undo w1, None, [])
       | Some (w2, conn) \<Rightarrow> (w2, Some conn, [])))"

definition tls_accept_cb :: "Env \<Rightarrow> WorkerProcess \<Rightarrow> sockaddr \<Rightarrow> accept_result" where
  "tls_accept_cb env w sa = (case accept_admit env w sa of
     Inl (w1, response) \<Rightarrow> (w1, None, response)
   | Inr w1 \<Rightarrow>
      if \<not> tls_create_ssl (e_malloc env 10) (w_tls w1) then (accept_undo w1, None, [])
      else if \<not> e_malloc env 11 then (accept_undo w1, None, [])
      else (case connection_new_with_bev env w1 sa of
         None \<Rightarrow> (accept_undo w1, None, [])
       | Some (w2, conn) \<Rightarrow> (w2, Some (conn\<lparr>c_ssl := True, tls_handshake_done := False\<rparr>), [])))"

datatype AcceptError = EMFILE | ENFILE | E_other

definition accept_error_cb :: "AcceptError \<Rightarrow> WorkerProcess \<Rightarrow> WorkerProcess" where
  "accept_error_cb err w = (if err = EMFILE \<or> err = ENFILE then w else w\<lparr>loopexit := True\<rparr>)"

subsection \<open>Signals and timer\<close>

definition signal_cb :: "WorkerProcess \<Rightarrow> WorkerProcess" where
  "signal_cb w = worker_check_drain (w\<lparr>draining := True\<rparr>)"

definition signal_reload_cb :: "TlsSetup \<Rightarrow> WorkerProcess \<Rightarrow> WorkerProcess" where
  "signal_reload_cb ts w =
    (if tls_enabled (w_config w) = 0 then w
     else w\<lparr>w_tls := fst (tls_context_reload ts (w_config w) (w_tls w))\<rparr>)"

definition cleanup_timer_cb :: "Env \<Rightarrow> WorkerProcess \<Rightarrow> WorkerProcess" where
  "cleanup_timer_cb env w = w\<lparr>w_rate_limiter := rate_limiter_cleanup (e_wall env) (w_rate_limiter w)\<rparr>"

subsection \<open>Start and end of the process\<close>

text \<open>The calls that make a listening socket; those whose result is ignored are left out.\<close>

record SockEnv =
  so_socket :: bool
  so_nonblock :: bool
  so_reuseport :: bool
  so_bind :: "int \<Rightarrow> bool"
  so_listen :: bool

definition create_reuseport_socket_on_port :: "SockEnv \<Rightarrow> int \<Rightarrow> bool" where
  "create_reuseport_socket_on_port so port =
    (if \<not> so_socket so then False
     else if \<not> so_nonblock so then False
     else if \<not> so_reuseport so then False
     else if \<not> so_bind so port then False
     else so_listen so)"

definition create_reuseport_socket :: "SockEnv \<Rightarrow> Config \<Rightarrow> bool" where
  "create_reuseport_socket so config = create_reuseport_socket_on_port so (listen_port config)"

definition create_tls_reuseport_socket :: "SockEnv \<Rightarrow> Config \<Rightarrow> bool" where
  "create_tls_reuseport_socket so config = create_reuseport_socket_on_port so (tls_port config)"

record BootEnv =
  bo_now :: timespec
  bo_wall :: int
  bo_rl_calloc :: bool
  bo_block_calloc :: bool
  bo_allow_calloc :: bool
  bo_acl_files :: "string \<Rightarrow> string option"
  bo_acl_malloc :: "nat \<Rightarrow> bool"
  bo_fs :: FileSystem
  bo_base :: bool
  bo_async :: AsyncEnv
  bo_sock :: SockEnv
  bo_listener :: bool
  bo_tls :: TlsSetup
  bo_tls_sock :: SockEnv
  bo_tls_listener :: bool

definition acl_zero :: IpACL where
  "acl_zero = \<lparr>exact_buckets = None, num_exact_buckets = 0, num_exact_entries = 0, cidr_entries = [],
     num_cidr_entries = 0, source_file = []\<rparr>"

definition load_list :: "BootEnv \<Rightarrow> string \<Rightarrow> IpACL \<Rightarrow> IpACL" where
  "load_list bo path acl = (if path \<noteq> [] then snd (ip_acl_load_file (bo_acl_files bo) (bo_acl_malloc bo) acl path) else acl)"

definition tls_zero :: TLSContext where
  "tls_zero = \<lparr>tls_ctx = False, tls_http2_enabled = False, tls_cert_expiry = 0\<rparr>"

text \<open>
  \<open>worker_main\<close> up to the event loop: \<open>None\<close> is \<open>exit(1)\<close>. Pinning the process, the identity of the
  log and the signal and timer events have no state of ours.
\<close>

definition worker_start :: "BootEnv \<Rightarrow> int \<Rightarrow> Config \<Rightarrow> WorkerProcess option" where
  "worker_start bo wid config =
    (case rate_limiter_init (bo_rl_calloc bo) (rate_limit_rps config) (rate_limit_burst config) of
       (False, rl) \<Rightarrow> None
     | (True, rl) \<Rightarrow>
    (case ip_acl_context_init (bo_block_calloc bo) (bo_allow_calloc bo) \<lparr>blocklist = acl_zero, allowlist = acl_zero\<rparr> of
       (False, ctx) \<Rightarrow> None
     | (True, ctx) \<Rightarrow>
    let acl = ctx\<lparr>blocklist := load_list bo (blocklist_file config) (blocklist ctx),
                  allowlist := load_list bo (allowlist_file config) (allowlist ctx)\<rparr> in
    (case static_files_load (bo_fs bo) (static_dir config) of
       (files, False) \<Rightarrow> None
     | (files, True) \<Rightarrow>
    if \<not> bo_base bo then None
    else let rpc = rpc_manager_init_async (bo_async bo) True (rpc_mainnet config) (rpc_testnet config)
                     (rpc_signet config) (rpc_regtest config) in
    if \<not> create_reuseport_socket (bo_sock bo) config then None
    else if \<not> bo_listener bo then None
    else let tls = (if tls_enabled config \<noteq> 0 then tls_context_init (bo_tls bo) config else (tls_zero, True)) in
    if \<not> snd tls then None
    else if tls_enabled config \<noteq> 0 \<and> \<not> create_tls_reuseport_socket (bo_tls_sock bo) config then None
    else if tls_enabled config \<noteq> 0 \<and> \<not> bo_tls_listener bo then None
    else Some
     \<lparr>worker_id = wid, w_listener = True, w_tls_listener = (tls_enabled config \<noteq> 0), w_config = config,
      w_static_files = files,
      w_slots = slot_manager_init (slots_normal_max config) (slots_large_max config) (slots_huge_max config),
      w_rate_limiter = rl, w_ip_acl = acl, w_tls = fst tls, w_rpc = rpc,
      draining = False, listener_disabled = False, tls_listener_disabled = False, counters = (\<lambda>_. 0),
      active_connections = 0, w_start_time = bo_now bo, w_start_wallclock = bo_wall bo, latency_sum_seconds = 0,
      h2_streams_active = 0, request_counter = 0, keepalive_counter = 0, h2_request_counter = 0, loopexit = False\<rparr>)))"

definition worker_cleanup :: "WorkerProcess \<Rightarrow> WorkerProcess" where
  "worker_cleanup w = w\<lparr>w_listener := False, w_tls_listener := False, w_rpc := rpc_manager_cancel_all (w_rpc w),
     w_tls := tls_context_free (w_tls w), w_static_files := static_files_free (w_static_files w),
     w_rate_limiter := rate_limiter_free (w_rate_limiter w), w_ip_acl := ip_acl_context_free (w_ip_acl w)\<rparr>"

end
