(* ===== verification/EventLoop.thy ===== *)
theory EventLoop
  imports Worker
begin

text \<open>
  The event loop of a worker as a step relation: each step is one callback that libevent makes, with
  an environment of its own choice, or data moving between the kernel and the buffers of a
  connection. The callbacks of a listener, a connection, a signal or the timer come in any order.
  A callback that frees its connection takes it off the worker's list.
\<close>

record Server =
  sv_worker :: WorkerProcess
  sv_conns :: "Connection list"

definition add_conn :: "accept_result \<Rightarrow> Server \<Rightarrow> Server" where
  "add_conn r s = (case r of (w, co, sent) \<Rightarrow>
     \<lparr>sv_worker = w, sv_conns = (case co of None \<Rightarrow> sv_conns s | Some c \<Rightarrow> c # sv_conns s)\<rparr>)"

definition put_conn :: "nat \<Rightarrow> conn_result \<Rightarrow> Server \<Rightarrow> Server" where
  "put_conn i r s = (case r of (w, co) \<Rightarrow>
     \<lparr>sv_worker = w, sv_conns = (case co of None \<Rightarrow> take i (sv_conns s) @ drop (Suc i) (sv_conns s)
                                          | Some c \<Rightarrow> (sv_conns s)[i := c])\<rparr>)"

inductive worker_step :: "(rat \<Rightarrow> rat) \<Rightarrow> Server \<Rightarrow> Server \<Rightarrow> bool" for rnd where
  accept: "\<lbrakk>e_rnd env = rnd; w_listener (sv_worker s)\<rbrakk> \<Longrightarrow> worker_step rnd s (add_conn (accept_cb env (sv_worker s) sa) s)"
| tls_accept: "\<lbrakk>e_rnd env = rnd; w_tls_listener (sv_worker s)\<rbrakk>
    \<Longrightarrow> worker_step rnd s (add_conn (tls_accept_cb env (sv_worker s) sa) s)"
| accept_error: "worker_step rnd s (s\<lparr>sv_worker := accept_error_cb err (sv_worker s)\<rparr>)"
| received: "i < length (sv_conns s)
    \<Longrightarrow> worker_step rnd s (put_conn i (sv_worker s, Some ((sv_conns s ! i)\<lparr>inbuf := inbuf (sv_conns s ! i) @ data\<rparr>)) s)"
| flushed: "i < length (sv_conns s)
    \<Longrightarrow> worker_step rnd s (put_conn i (sv_worker s, Some ((sv_conns s ! i)\<lparr>outbuf := drop k (outbuf (sv_conns s ! i))\<rparr>)) s)"
| readable: "\<lbrakk>e_rnd env = rnd; i < length (sv_conns s)\<rbrakk>
    \<Longrightarrow> worker_step rnd s (put_conn i (conn_read_cb env ri (sv_worker s) (sv_conns s ! i)) s)"
| writable: "\<lbrakk>e_rnd env = rnd; i < length (sv_conns s)\<rbrakk>
    \<Longrightarrow> worker_step rnd s (put_conn i (conn_write_cb env (sv_worker s) (sv_conns s ! i)) s)"
| event: "i < length (sv_conns s)
    \<Longrightarrow> worker_step rnd s (put_conn i (conn_event_cb ev (sv_worker s) (sv_conns s ! i)) s)"
| drain: "worker_step rnd s (s\<lparr>sv_worker := signal_cb (sv_worker s)\<rparr>)"
| reload: "worker_step rnd s (s\<lparr>sv_worker := signal_reload_cb ts (sv_worker s)\<rparr>)"
| timer: "worker_step rnd s (s\<lparr>sv_worker := cleanup_timer_cb env (sv_worker s)\<rparr>)"

inductive worker_reach :: "(rat \<Rightarrow> rat) \<Rightarrow> BootEnv \<Rightarrow> int \<Rightarrow> Config \<Rightarrow> Server \<Rightarrow> bool" for rnd bo wid config where
  start: "worker_start bo wid config = Some w \<Longrightarrow> worker_reach rnd bo wid config \<lparr>sv_worker = w, sv_conns = []\<rparr>"
| step: "worker_reach rnd bo wid config s \<Longrightarrow> worker_step rnd s s' \<Longrightarrow> worker_reach rnd bo wid config s'"

subsection \<open>The invariant\<close>

definition held :: "Connection list \<Rightarrow> RequestTier \<Rightarrow> nat" where
  "held cs t = (\<Sum>c\<leftarrow>cs. conn_holds c t)"

definition streams :: "Connection list \<Rightarrow> nat" where
  "streams cs = (\<Sum>c\<leftarrow>cs. conn_streams c)"

definition config_max :: "Config \<Rightarrow> RequestTier \<Rightarrow> int" where
  "config_max config = slot_manager_max (slot_manager_init (slots_normal_max config) (slots_large_max config) (slots_huge_max config))"

definition server_inv :: "(RequestTier \<Rightarrow> int) \<Rightarrow> Server \<Rightarrow> bool" where
  "server_inv m s \<longleftrightarrow> worker_counts m (held (sv_conns s)) (streams (sv_conns s)) (length (sv_conns s)) (sv_worker s)
     \<and> list_all conn_ok (sv_conns s)"

text \<open>What the start fixes for the life of the worker.\<close>

definition w_fixed :: "WorkerProcess \<Rightarrow> WorkerProcess \<Rightarrow> bool" where
  "w_fixed w w' \<longleftrightarrow> w_config w' = w_config w \<and> w_ip_acl w' = w_ip_acl w \<and> w_static_files w' = w_static_files w
     \<and> w_listener w' = w_listener w \<and> w_tls_listener w' = w_tls_listener w \<and> (draining w \<longrightarrow> draining w')"

lemma w_fixed_refl [simp]: "w_fixed w w"
  by (simp add: w_fixed_def)

lemma w_fixed_trans: "w_fixed a b \<Longrightarrow> w_fixed b c \<Longrightarrow> w_fixed a c"
  by (simp add: w_fixed_def)

lemma w_kept_fixed: "w_kept w w' \<Longrightarrow> w_fixed w w'"
  by (simp add: w_kept_def w_fixed_def)

lemma held_split:
  assumes "i < length cs"
  shows "held cs = (\<lambda>t. held (take i cs @ drop (Suc i) cs) t + conn_holds (cs ! i) t)"
    "streams cs = streams (take i cs @ drop (Suc i) cs) + conn_streams (cs ! i)"
    "held (cs[i := c]) = (\<lambda>t. held (take i cs @ drop (Suc i) cs) t + conn_holds c t)"
    "streams (cs[i := c]) = streams (take i cs @ drop (Suc i) cs) + conn_streams c"
proof -
  have cs: "cs = take i cs @ cs ! i # drop (Suc i) cs" using assms by (rule id_take_nth_drop)
  show "held cs = (\<lambda>t. held (take i cs @ drop (Suc i) cs) t + conn_holds (cs ! i) t)"
    by (subst (1) cs) (simp add: held_def fun_eq_iff)
  show "streams cs = streams (take i cs @ drop (Suc i) cs) + conn_streams (cs ! i)"
    by (subst (1) cs) (simp add: streams_def)
  show "held (cs[i := c]) = (\<lambda>t. held (take i cs @ drop (Suc i) cs) t + conn_holds c t)"
    "streams (cs[i := c]) = streams (take i cs @ drop (Suc i) cs) + conn_streams c"
    using assms by (simp_all add: upd_conv_take_nth_drop held_def streams_def fun_eq_iff)
qed

text \<open>A callback that keeps the accounting of its connection keeps that of the server.\<close>

lemma put_conn_inv:
  assumes inv: "server_inv m s" and i: "i < length (sv_conns s)"
    and keeps: "\<And>rest n k. conn_keeps m rest n k (sv_worker s) (sv_conns s ! i) r"
  shows "server_inv m (put_conn i r s) \<and> w_fixed (sv_worker s) (sv_worker (put_conn i r s))"
proof -
  let ?cs = "sv_conns s"
  let ?others = "take i ?cs @ drop (Suc i) ?cs"
  obtain w' co where r: "r = (w', co)" by force
  have len: "length ?cs = Suc (length ?others)" using i by simp
  have ok: "list_all conn_ok ?others" "conn_ok (?cs ! i)"
    using inv i by (auto simp: server_inv_def list_all_iff dest: in_set_takeD in_set_dropD)
  have "conn_inv m (held ?others) (streams ?others) (length ?others) (sv_worker s) (?cs ! i)"
    using inv ok(2) unfolding server_inv_def conn_inv_def held_split(1,2) [OF i, symmetric] len [symmetric] by simp
  then have res: "result_inv m (held ?others) (streams ?others) (length ?others) r"
    using keeps by (simp add: conn_keeps_def)
  have fixed: "w_fixed (sv_worker s) w'" using keeps r w_kept_fixed by (auto simp: conn_keeps_def)
  show ?thesis
  proof (cases co)
    case None
    then show ?thesis using res ok(1) r fixed by (simp add: put_conn_def server_inv_def)
  next
    case (Some c)
    then have "conn_inv m (held ?others) (streams ?others) (length ?others) w' c" using res r by simp
    then have "worker_counts m (held (?cs[i := c])) (streams (?cs[i := c])) (length (?cs[i := c])) w'" "conn_ok c"
      unfolding held_split(3,4) [OF i] conn_inv_def length_list_update len by simp_all
    moreover have "list_all conn_ok (?cs[i := c])"
      using inv calculation(2) set_update_subset_insert [of ?cs i c] unfolding server_inv_def list_all_iff by blast
    ultimately show ?thesis using r Some fixed by (simp add: put_conn_def server_inv_def)
  qed
qed

subsection \<open>Accepting\<close>

lemma accept_admit_cases:
  assumes "worker_counts m h n k w"
  obtains (rejected) w' sent where "accept_admit env w sa = Inl (w', sent)" "worker_counts m h n k w'" "w_fixed w w'"
      "draining w' = draining w"
  | (admitted) w' where "accept_admit env w sa = Inr w'" "worker_counts m (h(TIER_NORMAL := h TIER_NORMAL + 1)) n (Suc k) w'"
      "w_fixed w w'" "\<not> draining w'"
proof (cases "draining w \<or> ip_acl_check (Some (w_ip_acl w)) (get_ip_string sa) = IP_ACL_BLOCK")
  case True
  then have "\<exists>w' sent. accept_admit env w sa = Inl (w', sent) \<and> worker_counts m h n k w' \<and> w_fixed w w' \<and> draining w' = draining w"
    using assms by (cases "draining w") (simp_all add: accept_admit_def Let_def worker_counts_def drain_ok_def w_fixed_def)
  then show thesis using rejected by blast
next
  case False
  let ?ip = "get_ip_string sa"
  obtain ok w1 where r: "(if ip_acl_check (Some (w_ip_acl w)) ?ip \<noteq> IP_ACL_ALLOW then
        (case rate_limiter_allow (e_rnd env) (e_now env) (e_wall env) (e_malloc env 12) (w_rate_limiter w) ?ip of
           (ok, rl) \<Rightarrow> (ok, w\<lparr>w_rate_limiter := rl\<rparr>)) else (True, bump Connections_allowlisted w)) = (ok, w1)" by force
  have w1: "w_slots w1 = w_slots w" "worker_counts m h n k w1" "w_fixed w w1" "draining w1 = draining w"
    "active_connections w1 = active_connections w"
    using r assms by (auto simp: worker_counts_def drain_ok_def w_fixed_def split: if_splits prod.splits)
  show thesis
  proof (cases ok)
    case False
    then have acc: "accept_admit env w sa = Inl (bump Connections_rejected_rate w1, send_429_response)"
      using \<open>\<not> (draining w \<or> _)\<close> r by (simp add: accept_admit_def Let_def)
    show thesis by (rule rejected [OF acc]) (use w1 in \<open>simp_all add: worker_counts_def drain_ok_def w_fixed_def\<close>)
  next
    case True
    obtain got sm where a: "slot_manager_acquire (w_slots w1) TIER_NORMAL = (got, sm)" by force
    show thesis
    proof (cases got)
      case False
      then have same: "sm = w_slots w1" using a sm.acquire_fail_same by metis
      have acc: "accept_admit env w sa = Inl (bump Connections_rejected_slot (w1\<lparr>w_slots := sm\<rparr>), send_503_response)"
        using \<open>\<not> (draining w \<or> _)\<close> r \<open>ok\<close> a False by (simp add: accept_admit_def Let_def)
      show thesis by (rule rejected [OF acc]) (use w1 same in \<open>simp_all add: worker_counts_def drain_ok_def w_fixed_def\<close>)
    next
      case True
      then have accounts: "sm.accounts m sm (h(TIER_NORMAL := h TIER_NORMAL + 1))"
        using sm.accounts_acquire a w1(2) by (auto simp: worker_counts_def)
      have acc: "accept_admit env w sa = Inr ((bump Connections_accepted (w1\<lparr>w_slots := sm\<rparr>))\<lparr>active_connections := active_connections w1 + 1\<rparr>)"
        using \<open>\<not> (draining w \<or> _)\<close> r \<open>ok\<close> a True by (simp add: accept_admit_def Let_def)
      show thesis by (rule admitted [OF acc])
          (use w1 accounts \<open>\<not> (draining w \<or> _)\<close> in \<open>simp_all add: worker_counts_def drain_ok_def w_fixed_def\<close>)
    qed
  qed
qed

lemma accept_undo_counts:
  assumes "worker_counts m (h(TIER_NORMAL := h TIER_NORMAL + 1)) n (Suc k) w" "\<not> draining w"
  shows "worker_counts m h n k (accept_undo w)" "w_fixed w (accept_undo w)"
proof -
  have "sm.accounts m (slot_manager_release (w_slots w) TIER_NORMAL) h"
    using sm.accounts_release [of m "w_slots w" "h(TIER_NORMAL := h TIER_NORMAL + 1)" TIER_NORMAL] assms(1)
    by (simp add: worker_counts_def)
  then show "worker_counts m h n k (accept_undo w)" using assms
    by (simp add: worker_counts_def accept_undo_def drain_ok_def)
  show "w_fixed w (accept_undo w)" by (simp add: accept_undo_def w_fixed_def)
qed

lemma connection_init_common_inv:
  assumes "connection_init_common env w sa = (w', c)" "worker_counts m (h(TIER_NORMAL := h TIER_NORMAL + 1)) n (Suc k) w"
  shows "worker_counts m (\<lambda>t. h t + conn_holds c t) (n + conn_streams c) (Suc k) w'" "conn_ok c" "w_fixed w w'"
proof -
  have "(\<lambda>t. h t + conn_holds c t) = h(TIER_NORMAL := h TIER_NORMAL + 1)" "conn_streams c = 0"
    using assms(1) by (auto simp: connection_init_common_def conn_holds_def conn_streams_def fun_eq_iff)
  then show "worker_counts m (\<lambda>t. h t + conn_holds c t) (n + conn_streams c) (Suc k) w'"
    using assms by (auto simp: connection_init_common_def worker_counts_def drain_ok_def)
  show "conn_ok c" "w_fixed w w'"
    using assms(1) by (auto simp: connection_init_common_def conn_ok_def streams_ok_def w_fixed_def)
qed

lemma held_Cons: "held (c # cs) = (\<lambda>t. held cs t + conn_holds c t)" "streams (c # cs) = streams cs + conn_streams c"
  by (simp_all add: held_def streams_def fun_eq_iff)

text \<open>The fields that the TLS accept callback sets after the connection is made.\<close>

definition tls_conn :: "bool \<Rightarrow> Connection \<Rightarrow> Connection" where
  "tls_conn b c = c\<lparr>c_ssl := b, tls_handshake_done := False\<rparr>"

lemma conn_holds_tls [simp]:
  "conn_holds (tls_conn b c) = conn_holds c" "conn_streams (tls_conn b c) = conn_streams c"
  by (simp_all add: tls_conn_def conn_holds_def conn_streams_def fun_eq_iff)

lemma add_conn_inv:
  assumes inv: "server_inv m s"
    and admit: "\<And>w1. accept_admit env (sv_worker s) sa = Inr w1 \<Longrightarrow> r = (accept_undo w1, None, []) \<or>
        (\<exists>w2 c b. connection_init_common env w1 sa = (w2, c) \<and> r = (w2, Some (tls_conn b c), []))"
    and reject: "\<And>w1 sent. accept_admit env (sv_worker s) sa = Inl (w1, sent) \<Longrightarrow> r = (w1, None, sent)"
  shows "server_inv m (add_conn r s) \<and> w_fixed (sv_worker s) (sv_worker (add_conn r s))
     \<and> (draining (sv_worker s) \<longrightarrow> sv_conns (add_conn r s) = sv_conns s)"
proof -
  let ?h = "held (sv_conns s)" and ?n = "streams (sv_conns s)" and ?k = "length (sv_conns s)"
  have counts: "worker_counts m ?h ?n ?k (sv_worker s)" and ok: "list_all conn_ok (sv_conns s)"
    using inv by (simp_all add: server_inv_def)
  show ?thesis using counts
  proof (cases rule: accept_admit_cases [of m ?h ?n ?k "sv_worker s" env sa])
    case (rejected w' sent)
    then show ?thesis using reject [OF rejected(1)] ok by (simp add: add_conn_def server_inv_def)
  next
    case (admitted w')
    then have live: "\<not> draining (sv_worker s)" by (auto simp: w_fixed_def)
    consider "r = (accept_undo w', None, [])"
      | w2 c b where "connection_init_common env w' sa = (w2, c)" "r = (w2, Some (tls_conn b c), [])"
      using admit [OF admitted(1)] by blast
    then show ?thesis
    proof cases
      case 1
      then show ?thesis using accept_undo_counts [OF admitted(2,4)] w_fixed_trans [OF admitted(3)] ok live
        by (simp add: add_conn_def server_inv_def)
    next
      case (2 w2 c b)
      have "c_h2 c = None" using 2(1) by (auto simp: connection_init_common_def)
      then have "conn_ok (tls_conn b c)"
        using connection_init_common_inv(2) [OF 2(1) admitted(2)] by (simp add: conn_ok_def streams_ok_def tls_conn_def)
      then show ?thesis using connection_init_common_inv(1,3) [OF 2(1) admitted(2)] 2(2) w_fixed_trans [OF admitted(3)] ok live
        by (simp add: add_conn_def server_inv_def held_Cons)
    qed
  qed
qed

lemma accept_cb_result:
  assumes "accept_admit env w sa = Inr w1"
  shows "accept_cb env w sa = (accept_undo w1, None, []) \<or>
     (\<exists>w2 c b. connection_init_common env w1 sa = (w2, c) \<and> accept_cb env w sa = (w2, Some (tls_conn b c), []))"
proof -
  obtain w2 c where i: "connection_init_common env w1 sa = (w2, c)" by force
  then have "tls_conn False c = c" by (auto simp: connection_init_common_def tls_conn_def)
  moreover have "accept_cb env w sa = (accept_undo w1, None, []) \<or> accept_cb env w sa = (w2, Some c, [])"
    using assms i by (simp add: accept_cb_def connection_new_def)
  ultimately show ?thesis using i by metis
qed

lemma tls_accept_cb_result:
  assumes "accept_admit env w sa = Inr w1"
  shows "tls_accept_cb env w sa = (accept_undo w1, None, []) \<or>
     (\<exists>w2 c b. connection_init_common env w1 sa = (w2, c) \<and> tls_accept_cb env w sa = (w2, Some (tls_conn b c), []))"
proof -
  obtain w2 c where i: "connection_init_common env w1 sa = (w2, c)" by force
  then have "tls_accept_cb env w sa = (accept_undo w1, None, []) \<or> tls_accept_cb env w sa = (w2, Some (tls_conn True c), [])"
    using assms by (simp add: tls_accept_cb_def connection_new_with_bev_def tls_conn_def)
  then show ?thesis using i by blast
qed

lemma accept_rejected:
  "accept_admit env w sa = Inl (w1, sent) \<Longrightarrow> accept_cb env w sa = (w1, None, sent)"
  "accept_admit env w sa = Inl (w1, sent) \<Longrightarrow> tls_accept_cb env w sa = (w1, None, sent)"
  by (simp_all add: accept_cb_def tls_accept_cb_def)

lemmas accept_inv = add_conn_inv [OF _ accept_cb_result accept_rejected(1)] add_conn_inv [OF _ tls_accept_cb_result accept_rejected(2)]

text \<open>The callbacks that touch no connection.\<close>

lemma worker_only_inv:
  assumes "server_inv m s"
  shows "server_inv m (s\<lparr>sv_worker := accept_error_cb err (sv_worker s)\<rparr>)"
    "server_inv m (s\<lparr>sv_worker := signal_cb (sv_worker s)\<rparr>)"
    "server_inv m (s\<lparr>sv_worker := signal_reload_cb ts (sv_worker s)\<rparr>)"
    "server_inv m (s\<lparr>sv_worker := cleanup_timer_cb env (sv_worker s)\<rparr>)"
    "w_fixed (sv_worker s) (accept_error_cb err (sv_worker s))" "w_fixed (sv_worker s) (signal_cb (sv_worker s))"
    "w_fixed (sv_worker s) (signal_reload_cb ts (sv_worker s))" "w_fixed (sv_worker s) (cleanup_timer_cb env (sv_worker s))"
proof -
  let ?w = "sv_worker s"
  have d: "w_kept (?w\<lparr>draining := True\<rparr>) (signal_cb ?w)" "drain_ok (signal_cb ?w)"
    by (simp_all add: signal_cb_def check_drain_kept check_drain_ok)
  then show "w_fixed ?w (signal_cb ?w)" by (simp add: w_kept_def w_fixed_def)
  show "server_inv m (s\<lparr>sv_worker := signal_cb ?w\<rparr>)" using assms d(2)
    by (simp add: server_inv_def worker_counts_def) (simp add: signal_cb_def)
  show "server_inv m (s\<lparr>sv_worker := accept_error_cb err ?w\<rparr>)" "server_inv m (s\<lparr>sv_worker := signal_reload_cb ts ?w\<rparr>)"
    "server_inv m (s\<lparr>sv_worker := cleanup_timer_cb env ?w\<rparr>)"
    "w_fixed ?w (accept_error_cb err ?w)" "w_fixed ?w (signal_reload_cb ts ?w)" "w_fixed ?w (cleanup_timer_cb env ?w)"
    using assms by (simp_all add: server_inv_def worker_counts_def drain_ok_def w_fixed_def accept_error_cb_def
        signal_reload_cb_def cleanup_timer_cb_def)
qed

lemma step_inv:
  assumes "worker_step rnd s s'" "server_inv m s"
  shows "server_inv m s' \<and> w_fixed (sv_worker s) (sv_worker s')"
  using assms
proof (induction rule: worker_step.induct)
  case (received i s data)
  then show ?case by (intro put_conn_inv keeps_calm) simp_all
next
  case (flushed i s k)
  then show ?case by (intro put_conn_inv keeps_calm) simp_all
next
  case (readable env i s ri)
  then show ?case by (intro put_conn_inv read_cb_keeps) simp_all
next
  case (writable env i s)
  then show ?case by (intro put_conn_inv write_cb_keeps) simp_all
next
  case (event i s ev)
  then show ?case by (intro put_conn_inv event_cb_keeps) simp_all
qed (simp_all add: accept_inv worker_only_inv)

lemma start_fields:
  assumes "worker_start bo wid config = Some w"
  shows "w_slots w = slot_manager_init (slots_normal_max config) (slots_large_max config) (slots_huge_max config)"
    "active_connections w = 0" "h2_streams_active w = 0" "\<not> draining w" "w_config w = config" "files_ok (w_static_files w)"
  using assms static_files_load_ok
  by (auto simp: worker_start_def Let_def split: prod.splits bool.splits if_splits)

lemma start_parts:
  assumes "worker_start bo wid config = Some w"
  shows "w_listener w" "w_rate_limiter w = snd (rate_limiter_init (bo_rl_calloc bo) (rate_limit_rps config) (rate_limit_burst config))"
    "blocklist (w_ip_acl w) = load_list bo (blocklist_file config) (snd (ip_acl_init True))"
    "allowlist (w_ip_acl w) = load_list bo (allowlist_file config) (snd (ip_acl_init True))"
proof -
  have acl: "blocklist ctx = snd (ip_acl_init True) \<and> allowlist ctx = snd (ip_acl_init True)"
    if "ip_acl_context_init b a ctx0 = (True, ctx)" for a b ctx ctx0
    using that by (cases a; cases b) (auto simp: ip_acl_context_init_def ip_acl_init_def Let_def)
  show "w_listener w" "w_rate_limiter w = snd (rate_limiter_init (bo_rl_calloc bo) (rate_limit_rps config) (rate_limit_burst config))"
    "blocklist (w_ip_acl w) = load_list bo (blocklist_file config) (snd (ip_acl_init True))"
    "allowlist (w_ip_acl w) = load_list bo (allowlist_file config) (snd (ip_acl_init True))"
    using assms by (auto simp: worker_start_def Let_def dest: acl split: prod.splits bool.splits if_splits)
qed

lemma reach_inv:
  assumes "worker_reach rnd bo wid config s"
  shows "server_inv (config_max config) s"
    and "\<exists>w. worker_start bo wid config = Some w \<and> w_fixed w (sv_worker s)"
proof -
  have "server_inv (config_max config) s \<and> (\<exists>w. worker_start bo wid config = Some w \<and> w_fixed w (sv_worker s))"
    using assms
  proof (induction rule: worker_reach.induct)
    case (start w)
    have "held [] = (\<lambda>_. 0)" "streams [] = 0" by (simp_all add: held_def streams_def fun_eq_iff)
    then show ?case using start start_fields [OF start] accounts_init
      by (auto simp: server_inv_def worker_counts_def drain_ok_def config_max_def)
  next
    case (step s s')
    then show ?case using step_inv w_fixed_trans by blast
  qed
  then show "server_inv (config_max config) s" "\<exists>w. worker_start bo wid config = Some w \<and> w_fixed w (sv_worker s)"
    by simp_all
qed

end
