(* ===== verification/WorkerFacts.thy ===== *)
theory WorkerFacts
  imports EventLoop
begin

text \<open>
  What holds of a worker in every state its event loop can reach: the counters of slots, streams
  and connections are exact, the configured limits bound what is open, a drain ends, and the
  admission of clients follows the access lists, the rate limiter and the slots.
\<close>

subsection \<open>A worker for the witnesses\<close>

definition demo_files :: FileSystem where
  "demo_files = \<lparr>fs_stat = (\<lambda>_. Some 0), fs_malloc = (\<lambda>_. True), fs_reads = (\<lambda>_. Some [])\<rparr>"

definition demo_sock :: SockEnv where
  "demo_sock = \<lparr>so_socket = True, so_nonblock = True, so_reuseport = True, so_bind = (\<lambda>_. True), so_listen = True\<rparr>"

definition demo_tls :: TlsSetup where
  "demo_tls = \<lparr>ts_ctx_new = True, ts_cert = (\<lambda>_. True), ts_key = (\<lambda>_. True), ts_key_matches = True, ts_expiry = None,
     ts_ciphers = True, ts_now = 0\<rparr>"

definition demo_boot :: BootEnv where
  "demo_boot = \<lparr>bo_now = (5, 0), bo_wall = 1000, bo_rl_calloc = True, bo_block_calloc = True, bo_allow_calloc = True,
     bo_acl_files = (\<lambda>_. Some ''10.0.0.0/8''), bo_acl_malloc = (\<lambda>_. True), bo_fs = demo_files, bo_base = True,
     bo_async = demo_env, bo_sock = demo_sock, bo_listener = True, bo_tls = demo_tls, bo_tls_sock = demo_sock,
     bo_tls_listener = True\<rparr>"

definition demo_cfg :: Config where
  "demo_cfg = config_default\<lparr>rate_limit_rps := 0, blocklist_file := ''block.txt''\<rparr>"

definition demo_worker :: WorkerProcess where
  "demo_worker = the (worker_start demo_boot 0 demo_cfg)"

definition calm_env :: Env where
  "calm_env = \<lparr>e_now = (6, 0), e_wall = 1001, e_rnd = id, e_malloc = (\<lambda>_. True), e_open = (\<lambda>_. None), e_fd_dir = None,
     e_rlimit = None, e_ssl_init_finished = True, e_ssl_version = TLS1_3_VERSION, e_alpn_h2 = False, e_h2_init_ok = True,
     e_h2_send_ok = True\<rparr>"

lemma demo_load: "\<exists>files. static_files_load (bo_fs demo_boot) dir = (files, True)"
  by (simp add: static_files_load_def demo_boot_def demo_files_def static_pages_def load_file_def MAX_FILE_SIZE_def)

lemma demo_starts:
  assumes "tls_enabled cfg = 0"
  shows "\<exists>w. worker_start demo_boot 0 cfg = Some w"
proof -
  obtain files where f: "static_files_load (bo_fs demo_boot) (static_dir cfg) = (files, True)" using demo_load by blast
  have r: "rate_limiter_init (bo_rl_calloc demo_boot) (rate_limit_rps cfg) (rate_limit_burst cfg) =
      (True, snd (rate_limiter_init True (rate_limit_rps cfg) (rate_limit_burst cfg)))"
    by (simp add: rate_limiter_init_def demo_boot_def Let_def)
  have c: "\<exists>ctx. ip_acl_context_init (bo_block_calloc demo_boot) (bo_allow_calloc demo_boot) x = (True, ctx)" for x
    by (simp add: ip_acl_context_init_def ip_acl_init_def demo_boot_def Let_def)
  have s: "create_reuseport_socket (bo_sock demo_boot) cfg" "bo_base demo_boot" "bo_listener demo_boot"
    by (simp_all add: demo_boot_def demo_sock_def create_reuseport_socket_def create_reuseport_socket_on_port_def)
  show ?thesis
    using c [of "\<lparr>blocklist = acl_zero, allowlist = acl_zero\<rparr>"] assms unfolding worker_start_def r f
    by (auto simp: s Let_def)
qed

lemma demo_start: "worker_start demo_boot 0 demo_cfg = Some demo_worker"
  using demo_starts [of demo_cfg] by (auto simp: demo_worker_def demo_cfg_def config_default_def)

lemma demo_reached: "worker_reach id demo_boot 0 demo_cfg \<lparr>sv_worker = demo_worker, sv_conns = []\<rparr>"
  by (rule worker_reach.start [OF demo_start])

lemma demo_accept:
  "\<exists>w c. accept_cb calm_env demo_worker AF_OTHER = (w, Some c, [])"
proof -
  have p: "parse_ip_to_addr ''unknown'' = None"
    by (simp add: parse_ip_to_addr_def inet_pton4_def inet_pton6_def isdigit_def xdigit_value_def Let_def)
  have "\<not> ip_acl_contains acl ''unknown''" for acl by (simp add: ip_acl_contains_def p split: option.split)
  moreover have "\<not> rl_enabled (w_rate_limiter demo_worker)" "slot_manager_acquire (w_slots demo_worker) TIER_NORMAL
      = (True, (w_slots demo_worker)\<lparr>normal_current := 1\<rparr>)" "\<not> draining demo_worker"
  proof -
    show "\<not> draining demo_worker" using start_fields [OF demo_start] by simp
    show "slot_manager_acquire (w_slots demo_worker) TIER_NORMAL = (True, (w_slots demo_worker)\<lparr>normal_current := 1\<rparr>)"
      using start_fields [OF demo_start] by (simp add: slot_manager_init_def demo_cfg_def config_default_def)
    show "\<not> rl_enabled (w_rate_limiter demo_worker)"
      using start_parts(2) [OF demo_start] by (simp add: rate_limiter_init_def demo_cfg_def)
  qed
  ultimately show ?thesis
    by (simp add: accept_cb_def accept_admit_def ip_acl_check_def get_ip_string_def rate_limiter_allow_def connection_new_def
        connection_init_common_def calm_env_def Let_def)
qed

definition demo_server :: Server where
  "demo_server = add_conn (accept_cb calm_env demo_worker AF_OTHER) \<lparr>sv_worker = demo_worker, sv_conns = []\<rparr>"

lemma demo_server_reached: "worker_reach id demo_boot 0 demo_cfg demo_server"
proof -
  have l: "w_listener demo_worker" by (rule start_parts(1) [OF demo_start])
  have "worker_step id \<lparr>sv_worker = demo_worker, sv_conns = []\<rparr> demo_server"
    unfolding demo_server_def
    using worker_step.accept [of calm_env id "\<lparr>sv_worker = demo_worker, sv_conns = []\<rparr>" AF_OTHER] l
    by (simp add: calm_env_def)
  then show ?thesis by (rule worker_reach.step [OF demo_reached])
qed

lemma demo_server_conns: "\<exists>c. sv_conns demo_server = [c]"
  using demo_accept by (auto simp: demo_server_def add_conn_def)

subsection \<open>Accounting\<close>

text \<open>
  C1. Exact accounting of a worker: in every state that a worker can reach from its start, for any
  clients, any data and timing, any failure of an allocation or of the TLS and HTTP/2 libraries, and
  any order of callbacks, the slot counter of each tier equals the number of slots that its open
  connections and their HTTP/2 streams hold, and is between 0 and the configured maximum;
  \<open>active_connections\<close> and \<open>h2_streams_active\<close> are the numbers of open connections and streams;
  and every open connection holds a slot. So no slot leaks on any path and none is given back twice.
\<close>

theorem worker_slot_accounting:
  assumes "worker_reach rnd bo wid config s"
  shows "(\<forall>t. slot_manager_current (w_slots (sv_worker s)) t = int (\<Sum>c\<leftarrow>sv_conns s. conn_holds c t)
        \<and> (slot_manager_current (w_slots (sv_worker s)) t = 0 \<or> slot_manager_current (w_slots (sv_worker s)) t \<le> config_max config t))
     \<and> active_connections (sv_worker s) = int (length (sv_conns s))
     \<and> h2_streams_active (sv_worker s) = int (\<Sum>c\<leftarrow>sv_conns s. conn_streams c)
     \<and> list_all slot_held (sv_conns s)"
  using reach_inv(1) [OF assms]
  by (auto simp: server_inv_def worker_counts_def sm.accounts_def held_def streams_def list_all_iff conn_ok_def)

theorem worker_slot_accounting_witness:
  "\<exists>s c. worker_reach id demo_boot 0 demo_cfg s \<and> sv_conns s = [c]
     \<and> active_connections (sv_worker s) = 1 \<and> slot_manager_current (w_slots (sv_worker s)) TIER_NORMAL = int (conn_holds c TIER_NORMAL)"
proof -
  obtain c where "sv_conns demo_server = [c]" using demo_server_conns by blast
  then show ?thesis using worker_slot_accounting [OF demo_server_reached] demo_server_reached
    by (intro exI [of _ demo_server] exI [of _ c]) (simp del: slot_manager_current.simps)
qed

lemma stream_holds_total: "slot_acquired s \<Longrightarrow> stream_holds s TIER_NORMAL + stream_holds s TIER_LARGE + stream_holds s TIER_HUGE = 1"
  by (cases "hs_tier s") (simp_all add: stream_holds_def)

lemma h2_holds_total:
  "\<forall>s \<in> set ss. slot_acquired s \<Longrightarrow> h2_holds ss TIER_NORMAL + h2_holds ss TIER_LARGE + h2_holds ss TIER_HUGE = length ss"
proof (induction ss)
  case (Cons s ss)
  then show ?case using stream_holds_total [of s] by simp
qed simp

lemma conn_holds_total:
  "conn_ok c \<Longrightarrow> conn_holds c TIER_NORMAL + conn_holds c TIER_LARGE + conn_holds c TIER_HUGE = 1 + conn_streams c"
  using h2_holds_total
  by (cases "current_tier c")
    (auto simp: conn_ok_def streams_ok_def conn_holds_def conn_streams_def split: option.splits)

lemma held_total:
  "list_all conn_ok cs \<Longrightarrow> held cs TIER_NORMAL + held cs TIER_LARGE + held cs TIER_HUGE = length cs + streams cs"
proof (induction cs)
  case Nil
  then show ?case by (simp add: held_def streams_def)
next
  case (Cons c cs)
  then show ?case using conn_holds_total [of c] by (simp add: held_Cons)
qed

text \<open>
  Capacity: the open connections and the open HTTP/2 streams of a worker together never exceed
  the sum of the three configured slot maxima, in every reachable state.
\<close>

lemma worker_capacity:
  assumes "worker_reach rnd bo wid config s"
    and "0 \<le> slots_normal_max config" "0 \<le> slots_large_max config" "0 \<le> slots_huge_max config"
  shows "int (length (sv_conns s)) + int (\<Sum>c\<leftarrow>sv_conns s. conn_streams c)
     \<le> slots_normal_max config + slots_large_max config + slots_huge_max config"
proof -
  let ?h = "held (sv_conns s)"
  have "sm.accounts (config_max config) (w_slots (sv_worker s)) ?h" and ok: "list_all conn_ok (sv_conns s)"
    using reach_inv(1) [OF assms(1)] by (simp_all add: server_inv_def worker_counts_def)
  then have le: "?h t = 0 \<or> int (?h t) \<le> config_max config t" for t by (simp add: sm.accounts_def)
  have "int (?h TIER_NORMAL) \<le> slots_normal_max config" "int (?h TIER_LARGE) \<le> slots_large_max config"
    "int (?h TIER_HUGE) \<le> slots_huge_max config"
    using le [of TIER_NORMAL] le [of TIER_LARGE] le [of TIER_HUGE] assms(2-4)
    by (auto simp: config_max_def slot_manager_init_def)
  then show ?thesis using held_total [OF ok] by (simp add: streams_def)
qed

lemma worker_capacity_witness:
  "int (length (sv_conns demo_server)) + int (\<Sum>c\<leftarrow>sv_conns demo_server. conn_streams c) \<le> 125"
  using worker_capacity [OF demo_server_reached] by (simp add: demo_cfg_def config_default_def)

subsection \<open>Draining\<close>

lemma put_conn_length: "i < length (sv_conns s) \<Longrightarrow> length (sv_conns (put_conn i r s)) \<le> length (sv_conns s)"
  by (auto simp: put_conn_def split: prod.split option.split)

lemma drain_step:
  assumes "worker_step rnd s s'" "server_inv m s" "draining (sv_worker s)"
  shows "length (sv_conns s') \<le> length (sv_conns s)"
  using assms
proof (induction rule: worker_step.induct)
  case (accept env s sa)
  then show ?case using accept_inv(1) [of m s env sa] by simp
next
  case (tls_accept env s sa)
  then show ?case using accept_inv(2) [of m s env sa] by simp
qed (simp_all add: put_conn_length)

text \<open>The end of a connection: the peer closes it.\<close>

definition hang_up :: BevEvents where
  "hang_up = \<lparr>bev_connected = False, bev_timeout = False, bev_error = False, bev_ssl_error_queued = False\<rparr>"

lemma hang_up_step:
  assumes "sv_conns s = c # cs"
  shows "worker_step rnd s \<lparr>sv_worker = connection_free (sv_worker s) c, sv_conns = cs\<rparr>"
proof -
  have "worker_step rnd s (put_conn 0 (conn_event_cb hang_up (sv_worker s) (sv_conns s ! 0)) s)"
    by (rule worker_step.event) (simp add: assms)
  then show ?thesis by (simp add: assms put_conn_def conn_event_cb_def hang_up_def conn_close_def)
qed

lemma hang_up_all:
  assumes "worker_reach rnd bo wid config s"
  shows "\<exists>s'. (worker_step rnd)\<^sup>*\<^sup>* s s' \<and> worker_reach rnd bo wid config s' \<and> sv_conns s' = []"
  using assms
proof (induction "sv_conns s" arbitrary: s)
  case Nil
  then show ?case by auto
next
  case (Cons c cs)
  let ?s1 = "\<lparr>sv_worker = connection_free (sv_worker s) c, sv_conns = cs\<rparr>"
  have st: "worker_step rnd s ?s1" using Cons.hyps(2) by (intro hang_up_step) simp
  then obtain s' where "(worker_step rnd)\<^sup>*\<^sup>* ?s1 s'" "worker_reach rnd bo wid config s'" "sv_conns s' = []"
    using Cons.hyps(1) [of ?s1] worker_reach.step [OF Cons.prems st] by auto
  then show ?case using st by (meson converse_rtranclp_into_rtranclp)
qed

lemma rtranclp_fixed:
  assumes "(worker_step rnd)\<^sup>*\<^sup>* s s'" "server_inv m s"
  shows "w_fixed (sv_worker s) (sv_worker s') \<and> server_inv m s'"
  using assms
proof (induction rule: rtranclp_induct)
  case (step y z)
  then show ?case using step_inv w_fixed_trans by blast
qed simp

text \<open>
  C2. A drain ends: from the moment a worker has received the drain signal it keeps draining, its
  listeners are disabled and no step adds a connection; whenever it has no connection left it has
  asked the event loop to exit; and such a state can be reached from every draining state, for
  instance by the clients closing their connections.
\<close>

theorem drain_terminates:
  assumes "worker_reach rnd bo wid config s" "draining (sv_worker s)"
  shows "listener_disabled (sv_worker s) \<and> (w_tls_listener (sv_worker s) \<longrightarrow> tls_listener_disabled (sv_worker s))
     \<and> (sv_conns s = [] \<longrightarrow> loopexit (sv_worker s))
     \<and> (\<forall>s'. worker_step rnd s s' \<longrightarrow> draining (sv_worker s') \<and> length (sv_conns s') \<le> length (sv_conns s))
     \<and> (\<exists>s'. (worker_step rnd)\<^sup>*\<^sup>* s s' \<and> sv_conns s' = [] \<and> loopexit (sv_worker s'))"
proof -
  have idle: "sv_conns x = [] \<longrightarrow> loopexit (sv_worker x)" if "server_inv m x" "draining (sv_worker x)" for m x
    using that by (auto simp: server_inv_def worker_counts_def drain_ok_def)
  note inv = reach_inv(1) [OF assms(1)]
  have l: "w_listener (sv_worker s)" using reach_inv(2) [OF assms(1)] start_parts(1) by (auto simp: w_fixed_def)
  obtain s' where s': "(worker_step rnd)\<^sup>*\<^sup>* s s'" "worker_reach rnd bo wid config s'" "sv_conns s' = []"
    using hang_up_all [OF assms(1)] by blast
  have "draining (sv_worker s')" using rtranclp_fixed [OF s'(1) inv] assms(2) by (simp add: w_fixed_def)
  then have "loopexit (sv_worker s')" using idle [OF reach_inv(1) [OF s'(2)]] s'(3) by simp
  then show ?thesis
    using inv l assms(2) idle [OF inv assms(2)] s'(1,3) drain_step [OF _ inv assms(2)] step_inv [OF _ inv]
    by (auto simp: server_inv_def worker_counts_def drain_ok_def w_fixed_def)
qed

theorem drain_terminates_witness:
  "\<exists>s'. (worker_step id)\<^sup>*\<^sup>* (demo_server\<lparr>sv_worker := signal_cb (sv_worker demo_server)\<rparr>) s' \<and> sv_conns s' = [] \<and> loopexit (sv_worker s')"
proof -
  let ?s = "demo_server\<lparr>sv_worker := signal_cb (sv_worker demo_server)\<rparr>"
  have "worker_reach id demo_boot 0 demo_cfg ?s" by (rule worker_reach.step [OF demo_server_reached worker_step.drain])
  moreover have "draining (sv_worker ?s)" by (simp add: signal_cb_def)
  ultimately show ?thesis using drain_terminates [of id demo_boot 0 demo_cfg ?s] by blast
qed

subsection \<open>Admission\<close>

abbreviation acl_of :: "WorkerProcess \<Rightarrow> sockaddr \<Rightarrow> IpACLResult" where
  "acl_of w sa \<equiv> ip_acl_check (Some (w_ip_acl w)) (get_ip_string sa)"

abbreviation rate_ok :: "Env \<Rightarrow> WorkerProcess \<Rightarrow> sockaddr \<Rightarrow> bool" where
  "rate_ok env w sa \<equiv> fst (rate_limiter_allow (e_rnd env) (e_now env) (e_wall env) (e_malloc env 12) (w_rate_limiter w) (get_ip_string sa))"

text \<open>
  C5. Admission of a plain connection, on every branch: one is opened exactly when the worker is not
  draining, the client is not on the blocklist, it is on the allowlist or within its rate, a normal
  slot is free and the allocations succeed. A client that is turned away gets no answer from a
  draining worker, 403 when blocked, 429 over its rate and 503 without a slot, in this order of
  precedence, and leaves the slots and the number of connections as they were; an open one takes
  one normal slot.
\<close>

theorem accept_decision:
  assumes "0 \<le> normal_current (w_slots w)" "accept_cb env w sa = (w', co, sent)"
  shows "(co \<noteq> None \<longleftrightarrow> \<not> draining w \<and> acl_of w sa \<noteq> IP_ACL_BLOCK \<and> (acl_of w sa = IP_ACL_ALLOW \<or> rate_ok env w sa)
        \<and> normal_current (w_slots w) < normal_max (w_slots w) \<and> e_malloc env 8 \<and> e_malloc env 9)
     \<and> sent = (if draining w then [] else if acl_of w sa = IP_ACL_BLOCK then send_403_response
          else if acl_of w sa \<noteq> IP_ACL_ALLOW \<and> \<not> rate_ok env w sa then send_429_response
          else if normal_max (w_slots w) \<le> normal_current (w_slots w) then send_503_response else [])
     \<and> active_connections w' = active_connections w + (if co = None then 0 else 1)
     \<and> w_slots w' = (w_slots w)\<lparr>normal_current := normal_current (w_slots w) + (if co = None then 0 else 1)\<rparr>"
proof -
  obtain ok rl where r: "rate_limiter_allow (e_rnd env) (e_now env) (e_wall env) (e_malloc env 12) (w_rate_limiter w) (get_ip_string sa)
      = (ok, rl)" by force
  consider "draining w" | "\<not> draining w" "acl_of w sa = IP_ACL_BLOCK" | "\<not> draining w" "acl_of w sa = IP_ACL_ALLOW"
    | "\<not> draining w" "acl_of w sa = IP_ACL_NEUTRAL"
    by (metis IpACLResult.exhaust)
  then show ?thesis
  proof cases
    case 1
    then show ?thesis using assms by (auto simp: accept_cb_def accept_admit_def)
  next
    case 2
    then show ?thesis using assms by (auto simp: accept_cb_def accept_admit_def Let_def)
  next
    case 3
    then show ?thesis using assms
      by (cases "normal_max (w_slots w) \<le> normal_current (w_slots w)"; cases "e_malloc env 8"; cases "e_malloc env 9")
        (auto simp: accept_cb_def accept_admit_def accept_undo_def connection_new_def connection_init_common_def Let_def)
  next
    case 4
    then show ?thesis using assms r
      by (cases ok; cases "normal_max (w_slots w) \<le> normal_current (w_slots w)"; cases "e_malloc env 8"; cases "e_malloc env 9")
        (auto simp: accept_cb_def accept_admit_def accept_undo_def connection_new_def connection_init_common_def Let_def)
  qed
qed

theorem accept_decision_witness:
  "\<exists>w' c. accept_cb calm_env demo_worker AF_OTHER = (w', Some c, []) \<and> active_connections w' = 1"
proof -
  obtain w c where a: "accept_cb calm_env demo_worker AF_OTHER = (w, Some c, [])" using demo_accept by blast
  have "0 \<le> normal_current (w_slots demo_worker)" "active_connections demo_worker = 0"
    using start_fields [OF demo_start] by (simp_all add: slot_manager_init_def)
  then show ?thesis using accept_decision [OF _ a] a by auto
qed



end
