(* ===== verification/RateFacts.thy ===== *)
theory RateFacts
  imports WorkerFacts
begin

text \<open>
  The rate limiter inside a running worker: how often a client address can open connections while the
  event loop runs.
\<close>

subsection \<open>The limiter over a run\<close>

text \<open>What the limiter keeps of its settings.\<close>

definition rl_same :: "RateLimiter \<Rightarrow> RateLimiter \<Rightarrow> bool" where
  "rl_same rl rl' \<longleftrightarrow> rl_enabled rl' = rl_enabled rl \<and> rl_rate rl' = rl_rate rl \<and> rl_burst rl' = rl_burst rl"

lemma cleanup_same: "rl_same rl (rate_limiter_cleanup wall rl)"
  by (simp add: rl_same_def rate_limiter_cleanup_def Let_def split: option.split)

lemma get_entry_same: "rl_same rl (fst (get_entry wall mok rl key now))"
  using cleanup_same [of rl wall] by (auto simp: get_entry_def rl_same_def Let_def split: option.split)

lemma allow_same: "rl_same rl (snd (rate_limiter_allow rnd mc wall mok rl ip))"
proof -
  have store: "rl_same rl1 (rl_store rl1 key e)" for rl1 key e by (simp add: rl_same_def rl_store_def Let_def)
  have trans: "rl_same a b \<Longrightarrow> rl_same b c \<Longrightarrow> rl_same a c" for a b c by (simp add: rl_same_def)
  show ?thesis
  proof (cases "\<not> rl_enabled rl \<or> rl_buckets rl = None \<or> parse_ip ip = None")
    case True
    then show ?thesis by (auto simp: rate_limiter_allow_def rl_same_def)
  next
    case False
    then obtain key where k: "parse_ip ip = Some key" by auto
    obtain rl1 eo where g: "get_entry wall mok rl key (get_time_precise rnd mc) = (rl1, eo)" by force
    have "rl_same rl rl1" using get_entry_same [of rl wall mok key "get_time_precise rnd mc"] g by simp
    then show ?thesis using False k g store trans by (cases eo) (auto simp: rate_limiter_allow_def Let_def)
  qed
qed

text \<open>When the callbacks ask the limiter, and what they ask.\<close>

definition consulted :: "WorkerProcess \<Rightarrow> sockaddr \<Rightarrow> bool" where
  "consulted w sa \<longleftrightarrow> \<not> draining w \<and> ip_acl_check (Some (w_ip_acl w)) (get_ip_string sa) \<noteq> IP_ACL_BLOCK
     \<and> ip_acl_check (Some (w_ip_acl w)) (get_ip_string sa) \<noteq> IP_ACL_ALLOW"

definition ask :: "Env \<Rightarrow> WorkerProcess \<Rightarrow> sockaddr \<Rightarrow> request list" where
  "ask env w sa = (if consulted w sa then [(e_now env, e_wall env, e_malloc env 12, get_ip_string sa)] else [])"

fun limiter_after :: "RateLimiter \<Rightarrow> request list \<Rightarrow> RateLimiter" where
  "limiter_after rl [] = rl"
| "limiter_after rl ((mc, w, mok, ip) # rs) = limiter_after (snd (rate_limiter_allow id mc w mok rl ip)) rs"

lemma limiter_after_append: "limiter_after rl (rs @ qs) = limiter_after (limiter_after rl rs) qs"
  by (induction rl rs rule: limiter_after.induct) simp_all

lemma allowed_count_append: "allowed_count a rl (rs @ qs) = allowed_count a rl rs + allowed_count a (limiter_after rl rs) qs"
proof (induction rl rs rule: limiter_after.induct)
  case (2 rl mc w mok ip rs)
  then show ?case by (cases "rate_limiter_allow id mc w mok rl ip") simp
qed simp

text \<open>An accept callback asks at most once, and opens a connection only if it was allowed or not asked.\<close>

definition opens :: "addr \<Rightarrow> accept_result \<Rightarrow> sockaddr \<Rightarrow> nat" where
  "opens a r sa = (if fst (snd r) \<noteq> None \<and> map_option key_addr (parse_ip (get_ip_string sa)) = Some a then 1 else 0)"

lemma connection_init_limiter: "w_rate_limiter (fst (connection_init_common env w sa)) = w_rate_limiter w"
  by (simp add: connection_init_common_def Let_def)

lemma admit_limiter:
  assumes "e_rnd env = id"
  shows "case accept_admit env w sa of
      Inl (w1, sent) \<Rightarrow> w_rate_limiter w1 = limiter_after (w_rate_limiter w) (ask env w sa)
    | Inr w1 \<Rightarrow> w_rate_limiter w1 = limiter_after (w_rate_limiter w) (ask env w sa)
        \<and> (consulted w sa \<longrightarrow> fst (rate_limiter_allow id (e_now env) (e_wall env) (e_malloc env 12) (w_rate_limiter w) (get_ip_string sa)))
        \<and> (\<not> consulted w sa \<longrightarrow> ip_acl_check (Some (w_ip_acl w)) (get_ip_string sa) = IP_ACL_ALLOW)"
proof -
  obtain ok rl where r: "rate_limiter_allow id (e_now env) (e_wall env) (e_malloc env 12) (w_rate_limiter w) (get_ip_string sa) = (ok, rl)" by force
  obtain b sm where s: "slot_manager_acquire (w_slots w) TIER_NORMAL = (b, sm)" by force
  show ?thesis
    using assms r s
    by (cases "draining w"; cases "ip_acl_check (Some (w_ip_acl w)) (get_ip_string sa)"; cases ok; cases b)
      (simp_all add: accept_admit_def ask_def consulted_def Let_def)
qed

lemma admitted_result:
  assumes "\<And>w1 sent. accept_admit env w sa = Inl (w1, sent) \<Longrightarrow> r = (w1, None, sent)"
    and "\<And>w1. accept_admit env w sa = Inr w1 \<Longrightarrow> r = (accept_undo w1, None, []) \<or>
        (\<exists>w2 c b. connection_init_common env w1 sa = (w2, c) \<and> r = (w2, Some (tls_conn b c), []))"
    and "e_rnd env = id"
  shows "w_rate_limiter (fst r) = limiter_after (w_rate_limiter w) (ask env w sa)
    \<and> (ip_acl_check (Some (w_ip_acl w)) (get_ip_string sa) = IP_ACL_ALLOW
       \<or> opens a r sa \<le> allowed_count a (w_rate_limiter w) (ask env w sa))"
proof -
  obtain ok rl where al: "rate_limiter_allow id (e_now env) (e_wall env) (e_malloc env 12) (w_rate_limiter w) (get_ip_string sa) = (ok, rl)" by force
  show ?thesis
  proof (cases "accept_admit env w sa")
    case (Inl p)
    obtain w1 sent where p: "p = (w1, sent)" by force
    then have "r = (w1, None, sent)" using assms(1) Inl by simp
    then show ?thesis using admit_limiter [OF assms(3), of w sa] Inl p by (simp add: opens_def)
  next
    case (Inr w1)
    have lim: "w_rate_limiter w1 = limiter_after (w_rate_limiter w) (ask env w sa)" "consulted w sa \<longrightarrow> ok"
        "\<not> consulted w sa \<longrightarrow> ip_acl_check (Some (w_ip_acl w)) (get_ip_string sa) = IP_ACL_ALLOW"
      using admit_limiter [OF assms(3), of w sa] Inr al by simp_all
    have "w_rate_limiter (fst r) = w_rate_limiter w1"
      using assms(2) [OF Inr] connection_init_limiter [of env w1 sa] by (auto simp: accept_undo_def)
    moreover have "consulted w sa \<Longrightarrow> opens a r sa \<le> allowed_count a (w_rate_limiter w) (ask env w sa)"
      using lim(2) al by (simp add: ask_def opens_def)
    ultimately show ?thesis using lim(1,3) by auto
  qed
qed

lemma accept_limiter:
  assumes "e_rnd env = id" "r = accept_cb env w sa \<or> r = tls_accept_cb env w sa"
  shows "w_rate_limiter (fst r) = limiter_after (w_rate_limiter w) (ask env w sa)"
    "ip_acl_check (Some (w_ip_acl w)) (get_ip_string sa) \<noteq> IP_ACL_ALLOW \<Longrightarrow> opens a r sa \<le> allowed_count a (w_rate_limiter w) (ask env w sa)"
proof -
  have "w_rate_limiter (fst r) = limiter_after (w_rate_limiter w) (ask env w sa)
    \<and> (ip_acl_check (Some (w_ip_acl w)) (get_ip_string sa) = IP_ACL_ALLOW
       \<or> opens a r sa \<le> allowed_count a (w_rate_limiter w) (ask env w sa))"
    using assms(2) admitted_result [OF accept_rejected(1) accept_cb_result assms(1)]
      admitted_result [OF accept_rejected(2) tls_accept_cb_result assms(1)] by blast
  then show "w_rate_limiter (fst r) = limiter_after (w_rate_limiter w) (ask env w sa)"
    "ip_acl_check (Some (w_ip_acl w)) (get_ip_string sa) \<noteq> IP_ACL_ALLOW \<Longrightarrow> opens a r sa \<le> allowed_count a (w_rate_limiter w) (ask env w sa)"
    by auto
qed

lemma add_conn_worker: "sv_worker (add_conn r s) = fst r"
  by (cases r) (simp add: add_conn_def)

text \<open>The limiter of a reachable worker is in order and has the configured rate and burst.\<close>

definition limiter_ok :: "RateLimiter \<Rightarrow> RateLimiter \<Rightarrow> bool" where
  "limiter_ok rl0 rl \<longleftrightarrow> rl_ok id rl \<and> rl_same rl0 rl"

lemma limiter_ok_after: "limiter_ok rl0 rl \<Longrightarrow> limiter_ok rl0 (limiter_after rl rs)"
proof (induction rl rs rule: limiter_after.induct)
  case (2 rl mc w mok ip rs)
  obtain ok rl1 where r: "rate_limiter_allow id mc w mok rl ip = (ok, rl1)" by force
  have "rl_ok id rl1" using 2(2) rl_allow_ok [OF fp_rounding_id _ r] by (simp add: limiter_ok_def)
  moreover have "rl_same rl0 rl1" using 2(2) allow_same [of rl id mc w mok ip] r by (simp add: limiter_ok_def rl_same_def)
  ultimately show ?case using 2(1) r by (simp add: limiter_ok_def)
qed simp

lemma limiter_ok_cleanup: "limiter_ok rl0 rl \<Longrightarrow> limiter_ok rl0 (rate_limiter_cleanup wall rl)"
  using rl_cleanup_ok [of id rl wall] cleanup_same [of rl wall] by (simp add: limiter_ok_def rl_same_def)

lemma put_conn_limiter:
  assumes "\<And>rest n k. conn_keeps m rest n k (sv_worker s) (sv_conns s ! i) r"
  shows "w_rate_limiter (sv_worker (put_conn i r s)) = w_rate_limiter (sv_worker s)"
  using assms by (cases r) (simp add: put_conn_def conn_keeps_def w_kept_def)

lemma step_limiter:
  assumes "worker_step id s s'" "limiter_ok rl0 (w_rate_limiter (sv_worker s))"
  shows "limiter_ok rl0 (w_rate_limiter (sv_worker s'))"
  using assms
proof (induction rule: worker_step.induct)
  case (accept env s sa)
  then show ?case using accept_limiter(1) [of env "accept_cb env (sv_worker s) sa" "sv_worker s" sa] limiter_ok_after by (simp add: add_conn_worker)
next
  case (tls_accept env s sa)
  then show ?case using accept_limiter(1) [of env "tls_accept_cb env (sv_worker s) sa" "sv_worker s" sa] limiter_ok_after by (simp add: add_conn_worker)
next
  case (received i s data)
  then show ?case by (simp add: put_conn_def)
next
  case (flushed i s k)
  then show ?case by (simp add: put_conn_def)
next
  case (readable env i s ri)
  then show ?case by (simp add: put_conn_limiter [OF read_cb_keeps])
next
  case (writable env i s)
  then show ?case by (simp add: put_conn_limiter [OF write_cb_keeps])
next
  case (event i s ev)
  then show ?case by (simp add: put_conn_limiter [OF event_cb_keeps])
next
  case (drain s)
  then show ?case using check_drain_kept by (simp add: signal_cb_def w_kept_def)
next
  case (timer s env)
  then show ?case by (simp add: cleanup_timer_cb_def limiter_ok_cleanup)
qed (simp_all add: accept_error_cb_def signal_reload_cb_def)

text \<open>
  A token is the price of a connection, not of a request: reading and answering requests on an open
  connection, however many, leaves the limiter as it is.
\<close>

lemma requests_cost_no_token:
  shows "w_rate_limiter (sv_worker (put_conn i (conn_read_cb env ri (sv_worker s) (sv_conns s ! i)) s)) = w_rate_limiter (sv_worker s)"
    "w_rate_limiter (sv_worker (put_conn i (conn_write_cb env (sv_worker s) (sv_conns s ! i)) s)) = w_rate_limiter (sv_worker s)"
  by (rule put_conn_limiter [OF read_cb_keeps], rule put_conn_limiter [OF write_cb_keeps])

lemma reach_limiter:
  assumes "worker_reach id bo wid config s"
  shows "limiter_ok (snd (rate_limiter_init (bo_rl_calloc bo) (rate_limit_rps config) (rate_limit_burst config))) (w_rate_limiter (sv_worker s))"
  using assms
proof (induction rule: worker_reach.induct)
  case (start w)
  then show ?case using rl_init_ok [of id] by (simp add: start_parts(2) limiter_ok_def rl_same_def)
qed (rule step_limiter)

subsection \<open>A window\<close>

text \<open>
  A stretch of a run without a cleanup: accept callbacks, each with what it asks the limiter and
  whether it opens a connection for the address, and other steps that leave the limiter alone and
  open no connection. The requests are those put to the limiter; the number counts the connections
  opened.
\<close>

inductive window :: "addr \<Rightarrow> Server \<Rightarrow> request list \<Rightarrow> nat \<Rightarrow> Server \<Rightarrow> bool" for a s where
  none: "window a s [] 0 s"
| accept: "\<lbrakk>window a s reqs n s1; e_rnd env = id; w_listener (sv_worker s1)\<rbrakk>
    \<Longrightarrow> window a s (reqs @ ask env (sv_worker s1) sa) (n + opens a (accept_cb env (sv_worker s1) sa) sa)
          (add_conn (accept_cb env (sv_worker s1) sa) s1)"
| tls_accept: "\<lbrakk>window a s reqs n s1; e_rnd env = id; w_tls_listener (sv_worker s1)\<rbrakk>
    \<Longrightarrow> window a s (reqs @ ask env (sv_worker s1) sa) (n + opens a (tls_accept_cb env (sv_worker s1) sa) sa)
          (add_conn (tls_accept_cb env (sv_worker s1) sa) s1)"
| other: "\<lbrakk>window a s reqs n s1; worker_step id s1 s2; w_rate_limiter (sv_worker s2) = w_rate_limiter (sv_worker s1);
     length (sv_conns s2) \<le> length (sv_conns s1)\<rbrakk> \<Longrightarrow> window a s reqs n s2"

definition unlisted :: "addr \<Rightarrow> Server \<Rightarrow> bool" where
  "unlisted a s \<longleftrightarrow> (\<forall>ip. map_option key_addr (parse_ip ip) = Some a \<longrightarrow> ip_acl_check (Some (w_ip_acl (sv_worker s))) ip \<noteq> IP_ACL_ALLOW)"

lemma window_count:
  assumes "window a s reqs n s'" "server_inv m s" "unlisted a s"
  shows "n \<le> allowed_count a (w_rate_limiter (sv_worker s)) reqs
     \<and> w_rate_limiter (sv_worker s') = limiter_after (w_rate_limiter (sv_worker s)) reqs
     \<and> server_inv m s' \<and> w_ip_acl (sv_worker s') = w_ip_acl (sv_worker s)"
proof -
  have opened: "n + opens a r sa \<le> allowed_count a rl (reqs @ ask env w sa)
      \<and> w_rate_limiter (fst r) = limiter_after rl (reqs @ ask env w sa)"
    if "n \<le> allowed_count a rl reqs" "w_rate_limiter w = limiter_after rl reqs" "w_ip_acl w = w_ip_acl (sv_worker s)"
      "e_rnd env = id" "r = accept_cb env w sa \<or> r = tls_accept_cb env w sa" for n r sa rl reqs env w
  proof -
    have "opens a r sa \<le> allowed_count a (w_rate_limiter w) (ask env w sa)"
    proof (cases "map_option key_addr (parse_ip (get_ip_string sa)) = Some a")
      case True
      then show ?thesis using assms(3) that(3) accept_limiter(2) [OF that(4,5)] by (simp add: unlisted_def)
    qed (auto simp: opens_def)
    then show ?thesis using that(1,2) accept_limiter(1) [OF that(4,5)]
      by (simp add: allowed_count_append limiter_after_append)
  qed
  show ?thesis using assms(1)
  proof (induction rule: window.induct)
    case (accept reqs n s1 env sa)
    have "worker_step id s1 (add_conn (accept_cb env (sv_worker s1) sa) s1)" by (rule worker_step.accept) (use accept in auto)
    from step_inv [OF this, of m] show ?case using accept opened [of n "w_rate_limiter (sv_worker s)" reqs "sv_worker s1" env "accept_cb env (sv_worker s1) sa" sa]
      by (simp add: add_conn_worker w_fixed_def)
  next
    case (tls_accept reqs n s1 env sa)
    have "worker_step id s1 (add_conn (tls_accept_cb env (sv_worker s1) sa) s1)" by (rule worker_step.tls_accept) (use tls_accept in auto)
    from step_inv [OF this, of m] show ?case using tls_accept opened [of n "w_rate_limiter (sv_worker s)" reqs "sv_worker s1" env "tls_accept_cb env (sv_worker s1) sa" sa]
      by (simp add: add_conn_worker w_fixed_def)
  next
    case (other reqs n s1 s2)
    then show ?case using step_inv [OF other(2), of m] by (simp add: w_fixed_def)
  qed (use assms(2) in simp)
qed


definition rate_config :: Config where
  "rate_config = config_default\<lparr>rate_limit_rps := 2, rate_limit_burst := 5\<rparr>"

definition rate_worker :: WorkerProcess where
  "rate_worker = the (worker_start demo_boot 0 rate_config)"


end
