(* ===== verification/Links.thy ===== *)
theory Links
  imports RpcAsync EventLoop "HOL-Library.Monad_Syntax"
begin

text \<open>
  The intrusive lists: a worker's connections (\<^verbatim>\<open>src/src/connection.c\<close>), the streams of an HTTP/2
  session (\<^verbatim>\<open>src/src/http2.c\<close>) and the requests of the RPC manager (\<^verbatim>\<open>src/src/rpc.c\<close>) are linked through
  the fields \<open>next\<close> and \<open>prev\<close> of their elements. The rest of the development has them as lists. Here the
  pointer code is run on a heap of nodes, in which an access to a node that is not allocated is
  \<open>None\<close>, and shown to implement the operations on lists: it never touches a freed node, its loops
  end, and its traversals see the elements in the order of the list.
\<close>

record Node =
  nd_next :: "nat option"
  nd_prev :: "nat option"

record Links =
  l_head :: "nat option"
  l_nodes :: "nat \<rightharpoonup> Node"

subsection \<open>Operations\<close>

definition set_next :: "nat \<Rightarrow> nat option \<Rightarrow> Links \<Rightarrow> Links option" where
  "set_next a v l = map_option (\<lambda>n. l\<lparr>l_nodes := (l_nodes l)(a \<mapsto> n\<lparr>nd_next := v\<rparr>)\<rparr>) (l_nodes l a)"

definition set_prev :: "nat \<Rightarrow> nat option \<Rightarrow> Links \<Rightarrow> Links option" where
  "set_prev a v l = map_option (\<lambda>n. l\<lparr>l_nodes := (l_nodes l)(a \<mapsto> n\<lparr>nd_prev := v\<rparr>)\<rparr>) (l_nodes l a)"

text \<open>A new node is put in front.\<close>

definition list_add :: "nat \<Rightarrow> Links \<Rightarrow> Links option" where
  "list_add x l =
    (let l1 = l\<lparr>l_nodes := (l_nodes l)(x \<mapsto> \<lparr>nd_next = l_head l, nd_prev = None\<rparr>)\<rparr> in
     do {
       l2 \<leftarrow> (case l_head l1 of Some a \<Rightarrow> set_prev a (Some x) l1 | None \<Rightarrow> Some l1);
       Some (l2\<lparr>l_head := Some x\<rparr>)
     })"

definition list_unlink :: "nat \<Rightarrow> Links \<Rightarrow> Links option" where
  "list_unlink x l = do {
     n \<leftarrow> l_nodes l x;
     l1 \<leftarrow> (case nd_prev n of Some p \<Rightarrow> set_next p (nd_next n) l | None \<Rightarrow> Some (l\<lparr>l_head := nd_next n\<rparr>));
     n1 \<leftarrow> l_nodes l1 x;
     (case nd_next n1 of Some q \<Rightarrow> set_prev q (nd_prev n1) l1 | None \<Rightarrow> Some l1)
   }"

text \<open>The element is freed after it has been taken off the list.\<close>

definition list_remove :: "nat \<Rightarrow> Links \<Rightarrow> Links option" where
  "list_remove x l = map_option (\<lambda>l1. l1\<lparr>l_nodes := (l_nodes l1)(x := None)\<rparr>) (list_unlink x l)"

text \<open>
  The loops: looking for the first element with a property, and freeing the head until the list is
  empty. A loop that does not end, or reads a freed node, is \<open>None\<close>.
\<close>

partial_function (option) list_find :: "(nat \<Rightarrow> bool) \<Rightarrow> (nat \<rightharpoonup> Node) \<Rightarrow> nat option \<Rightarrow> nat option option" where
  "list_find P ns p = (case p of
     None \<Rightarrow> Some None
   | Some a \<Rightarrow> if P a then Some (Some a) else Option.bind (ns a) (\<lambda>n. list_find P ns (nd_next n)))"

partial_function (option) list_drain :: "Links \<Rightarrow> Links option" where
  "list_drain l = (case l_head l of
     None \<Rightarrow> Some l
   | Some a \<Rightarrow> Option.bind (list_remove a l) list_drain)"

subsection \<open>The heap of a list\<close>

definition first :: "nat list \<Rightarrow> nat option" where
  "first xs = (case xs of [] \<Rightarrow> None | x # _ \<Rightarrow> Some x)"

lemma first_simps [simp]:
  "first [] = None" "first (x # xs) = Some x" "xs \<noteq> [] \<Longrightarrow> first (xs @ ys) = first xs" "first xs = None \<longleftrightarrow> xs = []"
  by (auto simp: first_def split: list.split)

fun nodes_of :: "nat option \<Rightarrow> nat list \<Rightarrow> (nat \<rightharpoonup> Node)" where
  "nodes_of p [] = Map.empty"
| "nodes_of p (x # xs) = (nodes_of (Some x) xs)(x \<mapsto> \<lparr>nd_next = first xs, nd_prev = p\<rparr>)"

text \<open>The state of the pointers that stands for a list of addresses.\<close>

definition links_of :: "nat list \<Rightarrow> Links" where
  "links_of xs = \<lparr>l_head = first xs, l_nodes = nodes_of None xs\<rparr>"

lemma nodes_of_None: "nodes_of p xs y = None \<longleftrightarrow> y \<notin> set xs"
  by (induction xs arbitrary: p) auto

lemma nodes_of_at:
  "distinct (as @ x # bs)
     \<Longrightarrow> nodes_of p (as @ x # bs) x = Some \<lparr>nd_next = first bs, nd_prev = (if as = [] then p else Some (last as))\<rparr>"
  by (induction as arbitrary: p) auto

lemma add_refines: "x \<notin> set xs \<Longrightarrow> list_add x (links_of xs) = Some (links_of (x # xs))"
  by (cases xs) (auto simp: list_add_def links_of_def set_prev_def fun_upd_twist)

text \<open>The nodes around a removed element.\<close>

lemma nodes_of_removed:
  assumes "distinct (as @ x # bs)"
  defines "ns \<equiv> nodes_of None (as @ x # bs)"
  defines "ns1 \<equiv> (if as = [] then ns else ns(last as \<mapsto> (the (ns (last as)))\<lparr>nd_next := first bs\<rparr>))"
  defines "ns2 \<equiv> (if bs = [] then ns1 else ns1(hd bs \<mapsto> (the (ns1 (hd bs)))\<lparr>nd_prev := (if as = [] then None else Some (last as))\<rparr>))"
  shows "ns2(x := None) = nodes_of None (as @ bs)"
proof
  fix y
  have d: "distinct (as @ bs)" "x \<notin> set (as @ bs)" using assms(1) by auto
  consider "y = x" | as1 as2 where "as = as1 @ y # as2" | bs1 bs2 where "bs = bs1 @ y # bs2" | "y \<notin> set (as @ x # bs)"
  proof -
    have "y = x \<or> y \<in> set as \<or> y \<in> set bs \<or> y \<notin> set (as @ x # bs)" by auto
    then show thesis using that split_list [of y as] split_list [of y bs] by blast
  qed
  then show "(ns2(x := None)) y = nodes_of None (as @ bs) y"
  proof cases
    case 1
    then show ?thesis using d(2) nodes_of_None [of None "as @ bs" x] by simp
  next
    case (2 as1 as2)
    let ?P = "if as1 = [] then None else Some (last as1)"
    have yx: "y \<noteq> x" "as \<noteq> []" using assms(1) 2 by auto
    have e1: "ns y = Some \<lparr>nd_next = first (as2 @ x # bs), nd_prev = ?P\<rparr>"
      using nodes_of_at [of as1 y "as2 @ x # bs" None] assms(1) 2 by (simp add: ns_def)
    have e2: "nodes_of None (as @ bs) y = Some \<lparr>nd_next = first (as2 @ bs), nd_prev = ?P\<rparr>"
      using nodes_of_at [of as1 y "as2 @ bs" None] d(1) 2 by simp
    have "bs \<noteq> [] \<Longrightarrow> hd bs \<noteq> y" using assms(1) 2 hd_in_set [of bs] by auto
    then have "(ns2(x := None)) y = ns1 y" using yx(1) by (auto simp: ns2_def)
    also have "ns1 y = nodes_of None (as @ bs) y"
    proof (cases "as2 = []")
      case True
      then have "last as = y" using 2 by simp
      then show ?thesis using e1 e2 yx(2) True unfolding ns1_def by simp
    next
      case False
      then have "last as \<in> set as2" using 2 by simp
      then have "last as \<noteq> y" using assms(1) 2 by auto
      then show ?thesis using e1 e2 False unfolding ns1_def by simp
    qed
    finally show ?thesis .
  next
    case (3 bs1 bs2)
    let ?P = "\<lambda>zs. if zs = [] then None else Some (last zs)"
    have yx: "y \<noteq> x" "bs \<noteq> []" using assms(1) 3 by auto
    have e1: "ns y = Some \<lparr>nd_next = first bs2, nd_prev = ?P (as @ x # bs1)\<rparr>"
      using nodes_of_at [of "as @ x # bs1" y bs2 None] assms(1) 3 by (simp add: ns_def)
    have e2: "nodes_of None (as @ bs) y = Some \<lparr>nd_next = first bs2, nd_prev = ?P (as @ bs1)\<rparr>"
      using nodes_of_at [of "as @ bs1" y bs2 None] d(1) 3 by simp
    have "as \<noteq> [] \<Longrightarrow> last as \<noteq> y" using assms(1) 3 last_in_set [of as] by auto
    then have n1: "ns1 y = ns y" by (auto simp: ns1_def)
    show ?thesis
    proof (cases "bs1 = []")
      case True
      then have "hd bs = y" using 3 by simp
      then show ?thesis using n1 e1 e2 yx True unfolding ns2_def by simp
    next
      case False
      then have "hd bs \<in> set bs1" using 3 by (cases bs1) simp_all
      then have "hd bs \<noteq> y" using assms(1) 3 by auto
      then show ?thesis using n1 e1 e2 yx False unfolding ns2_def by simp
    qed
  next
    case 4
    have "as \<noteq> [] \<Longrightarrow> last as \<noteq> y" using 4 last_in_set [of as] by auto
    then have n1: "ns1 y = ns y" by (auto simp: ns1_def)
    have "bs \<noteq> [] \<Longrightarrow> hd bs \<noteq> y" using 4 hd_in_set [of bs] by auto
    then have n2: "ns2 y = ns1 y" by (auto simp: ns2_def)
    have "ns y = None" "nodes_of None (as @ bs) y = None"
      using 4 nodes_of_None [of None "as @ x # bs" y] nodes_of_None [of None "as @ bs" y] by (simp_all add: ns_def)
    then show ?thesis using n1 n2 by simp
  qed
qed

lemma remove_at:
  assumes "distinct (as @ x # bs)"
  shows "list_remove x (links_of (as @ x # bs)) = Some (links_of (as @ bs))"
proof -
  let ?ns = "nodes_of None (as @ x # bs)"
  let ?ns1 = "if as = [] then ?ns else ?ns(last as \<mapsto> (the (?ns (last as)))\<lparr>nd_next := first bs\<rparr>)"
  let ?ns2 = "if bs = [] then ?ns1 else ?ns1(hd bs \<mapsto> (the (?ns1 (hd bs)))\<lparr>nd_prev := (if as = [] then None else Some (last as))\<rparr>)"
  let ?head = "if as = [] then first bs else first as"
  have x: "?ns x = Some \<lparr>nd_next = first bs, nd_prev = (if as = [] then None else Some (last as))\<rparr>"
    by (rule nodes_of_at [OF assms])
  have l: "as \<noteq> [] \<Longrightarrow> ?ns (last as) \<noteq> None \<and> last as \<noteq> x" using assms last_in_set [of as] by (auto simp: nodes_of_None)
  have h: "bs \<noteq> [] \<Longrightarrow> ?ns (hd bs) \<noteq> None" using hd_in_set [of bs] by (auto simp: nodes_of_None)
  have "list_unlink x (links_of (as @ x # bs)) = Some \<lparr>l_head = ?head, l_nodes = ?ns2\<rparr>"
    using x l h by (cases "as = []"; cases bs) (auto simp: list_unlink_def links_of_def set_next_def set_prev_def)
  then show ?thesis
    using nodes_of_removed [OF assms] by (simp add: list_remove_def links_of_def)
qed

lemma remove_refines:
  assumes "distinct xs" "x \<in> set xs"
  shows "list_remove x (links_of xs) = Some (links_of (remove1 x xs))"
proof -
  obtain as bs where xs: "xs = as @ x # bs" using assms(2) by (auto simp: in_set_conv_decomp)
  then have "remove1 x xs = as @ bs" using assms(1) by (simp add: remove1_append)
  then show ?thesis using remove_at [of as x bs] assms(1) xs by simp
qed

lemma find_refines_from:
  "distinct (as @ xs) \<Longrightarrow> list_find P (nodes_of p (as @ xs)) (first xs) = Some (find P xs)"
proof (induction xs arbitrary: as)
  case (Cons x xs)
  then show ?case using Cons.IH [of "as @ [x]"] nodes_of_at [OF Cons.prems, of p]
    by (simp add: list_find.simps [of P "nodes_of p (as @ x # xs)" "Some x"])
qed (simp add: list_find.simps)

lemma find_refines:
  "distinct xs \<Longrightarrow> list_find P (l_nodes (links_of xs)) (l_head (links_of xs)) = Some (find P xs)"
  using find_refines_from [of "[]" xs P None] by (simp add: links_of_def)

lemma drain_refines: "distinct xs \<Longrightarrow> list_drain (links_of xs) = Some (links_of [])"
proof (induction xs)
  case Nil
  then show ?case by (subst list_drain.simps) (simp add: links_of_def)
next
  case (Cons x xs)
  then show ?case using remove_refines [OF Cons.prems, of x]
    by (subst list_drain.simps) (simp add: links_of_def)
qed

subsection \<open>The lists of the program\<close>

text \<open>The pointers stand for a list of elements: \<open>content\<close> is what is stored at an address.\<close>

definition linked :: "Links \<Rightarrow> (nat \<Rightarrow> 'a) \<Rightarrow> nat list \<Rightarrow> 'a list \<Rightarrow> bool" where
  "linked l content addrs xs \<longleftrightarrow> l = links_of addrs \<and> distinct addrs \<and> map content addrs = xs"

text \<open>
  The interface between the pointers and a component that keeps a list: what the component calls
  adding an element and removing the element at a position.
\<close>

locale intrusive_list =
  fixes items :: "'s \<Rightarrow> 'a list"
    and ok :: "'s \<Rightarrow> bool"
    and add :: "'a \<Rightarrow> 's \<Rightarrow> 's"
    and del :: "nat \<Rightarrow> 's \<Rightarrow> 's"
  assumes items_add: "items (add x s) = x # items s"
    and items_del: "ok s \<Longrightarrow> i < length (items s) \<Longrightarrow> items (del i s) = take i (items s) @ drop (Suc i) (items s)"
begin

lemma linked_add:
  assumes "linked l content addrs (items s)" "a \<notin> set addrs"
  shows "\<exists>l'. list_add a l = Some l' \<and> linked l' (content(a := x)) (a # addrs) (items (add x s))"
  using assms add_refines [OF assms(2)] by (auto simp: linked_def items_add)

lemma linked_del:
  assumes "linked l content addrs (items s)" "ok s" "i < length (items s)"
  shows "\<exists>l'. list_remove (addrs ! i) l = Some l' \<and> linked l' content (take i addrs @ drop (Suc i) addrs) (items (del i s))"
proof -
  have c: "map content addrs = items s" using assms(1) by (simp add: linked_def)
  then have i: "i < length addrs" using assms(3) by (metis length_map)
  have e: "addrs = take i addrs @ addrs ! i # drop (Suc i) addrs" using i by (rule id_take_nth_drop)
  have d: "distinct (take i addrs @ addrs ! i # drop (Suc i) addrs)" using assms(1) e by (simp add: linked_def)
  have "list_remove (addrs ! i) l = Some (links_of (take i addrs @ drop (Suc i) addrs))"
    using remove_at [OF d] e assms(1) by (simp add: linked_def)
  moreover have "map content (take i addrs @ drop (Suc i) addrs) = items (del i s)"
    using items_del [OF assms(2,3)] c by (auto simp: take_map [symmetric] drop_map [symmetric])
  ultimately show ?thesis using d by (auto simp: linked_def)
qed

lemma linked_find:
  assumes "linked l content addrs (items s)"
  shows "\<exists>r. list_find (\<lambda>a. P (content a)) (l_nodes l) (l_head l) = Some r \<and> map_option content r = find P (items s)"
proof -
  have "find P (map content addrs) = map_option content (find (\<lambda>a. P (content a)) addrs)"
    by (induction addrs) simp_all
  then show ?thesis using find_refines [of addrs "\<lambda>a. P (content a)"] assms by (auto simp: linked_def)
qed

end

lemma filter_key_nth:
  assumes "distinct (map f xs)" "i < length xs"
  shows "filter (\<lambda>x. f x \<noteq> f (xs ! i)) xs = take i xs @ drop (Suc i) xs"
proof -
  have e: "xs = take i xs @ xs ! i # drop (Suc i) xs" using assms(2) by (rule id_take_nth_drop)
  have "distinct (map f (take i xs @ xs ! i # drop (Suc i) xs))" using assms(1) e by simp
  then have "\<forall>x \<in> set (take i xs) \<union> set (drop (Suc i) xs). f x \<noteq> f (xs ! i)" by (auto simp: image_iff)
  then have "filter (\<lambda>x. f x \<noteq> f (xs ! i)) (take i xs) = take i xs" "filter (\<lambda>x. f x \<noteq> f (xs ! i)) (drop (Suc i) xs) = drop (Suc i) xs"
    by (auto simp: filter_id_conv)
  then show ?thesis by (subst (2) e) simp
qed

lemma del_first_nth:
  assumes "distinct (map f xs)" "i < length xs"
  shows "del_first (\<lambda>x. f x = f (xs ! i)) xs = take i xs @ drop (Suc i) xs"
  using assms
proof (induction xs arbitrary: i)
  case (Cons x xs)
  then show ?case by (cases i) auto
qed simp

interpretation requests: intrusive_list mg_active "\<lambda>mgr. distinct (map rq_id (mg_active mgr))"
    "\<lambda>req mgr. rpc_request_list_add mgr req" "\<lambda>i mgr. rpc_request_list_remove mgr (mg_active mgr ! i)"
  by unfold_locales (simp_all add: rpc_request_list_add_def rpc_request_list_remove_def filter_key_nth)

interpretation streams: intrusive_list h2_streams "\<lambda>h2. distinct (map stream_id (h2_streams h2))"
    h2_list_add "\<lambda>i h2. snd (h2_stream_free w h2 (h2_streams h2 ! i))"
  for w
  by unfold_locales (simp_all add: h2_stream_free_def Let_def del_first_nth)

interpretation conns: intrusive_list sv_conns "\<lambda>s. True"
    "\<lambda>c s. add_conn (w, Some c, sent) s" "\<lambda>i s. put_conn i (w, None) s"
  for w sent
  by unfold_locales (simp_all add: add_conn_def put_conn_def)

text \<open>
  C11. The request list of the RPC manager is implemented by its pointers: when the links stand for the
  list of the manager, with each request stored at its address, then adding a request at a fresh
  address, removing one that is on the list and freeing it, and the loop that cancels all requests
  touch no node that is not allocated, come to an end, and leave the links standing for the list
  that the model computes.
\<close>

theorem request_list_refined:
  assumes "linked l content (map rq_id (mg_active mgr)) (mg_active mgr)"
  shows "(rq_id req \<notin> rq_id ` set (mg_active mgr) \<longrightarrow>
      (\<exists>l'. list_add (rq_id req) l = Some l' \<and> linked l' (content(rq_id req := req))
         (map rq_id (mg_active (rpc_request_list_add mgr req))) (mg_active (rpc_request_list_add mgr req))))
    \<and> (req \<in> set (mg_active mgr) \<longrightarrow>
      (\<exists>l'. list_remove (rq_id req) l = Some l' \<and> linked l' content
         (map rq_id (mg_active (rpc_request_list_remove mgr req))) (mg_active (rpc_request_list_remove mgr req))))
    \<and> (\<exists>l'. list_drain l = Some l' \<and> linked l' content
         (map rq_id (mg_active (rpc_manager_cancel_all mgr))) (mg_active (rpc_manager_cancel_all mgr)))"
proof (intro conjI impI)
  assume "rq_id req \<notin> rq_id ` set (mg_active mgr)"
  then show "\<exists>l'. list_add (rq_id req) l = Some l' \<and> linked l' (content(rq_id req := req))
     (map rq_id (mg_active (rpc_request_list_add mgr req))) (mg_active (rpc_request_list_add mgr req))"
    using requests.linked_add [OF assms, of "rq_id req" req] by (simp add: requests.items_add)
next
  assume "req \<in> set (mg_active mgr)"
  then obtain i where i: "i < length (mg_active mgr)" "mg_active mgr ! i = req" by (auto simp: in_set_conv_nth)
  have d: "distinct (map rq_id (mg_active mgr))" using assms by (simp add: linked_def)
  show "\<exists>l'. list_remove (rq_id req) l = Some l' \<and> linked l' content
     (map rq_id (mg_active (rpc_request_list_remove mgr req))) (mg_active (rpc_request_list_remove mgr req))"
    using requests.linked_del [OF assms d i(1)] requests.items_del [OF d i(1)] i
    by (simp add: take_map [symmetric] drop_map [symmetric])
next
  show "\<exists>l'. list_drain l = Some l' \<and> linked l' content
     (map rq_id (mg_active (rpc_manager_cancel_all mgr))) (mg_active (rpc_manager_cancel_all mgr))"
    using assms drain_refines [of "map rq_id (mg_active mgr)"] by (simp add: linked_def cancel_all_empty)
qed

theorem request_list_refined_witness:
  "\<exists>l'. list_remove 5 (links_of [3, 5, 7]) = Some l'
     \<and> linked l' (\<lambda>a. new_request a CHAIN_REGTEST ''00'' None) [3, 7] [new_request 3 CHAIN_REGTEST ''00'' None, new_request 7 CHAIN_REGTEST ''00'' None]"
proof -
  let ?r = "\<lambda>a. new_request a CHAIN_REGTEST ''00'' None"
  let ?mgr = "demo_mgr\<lparr>mg_active := [?r 3, ?r 5, ?r 7]\<rparr>"
  have "linked (links_of [3, 5, 7]) ?r (map rq_id (mg_active ?mgr)) (mg_active ?mgr)"
    by (simp add: linked_def new_request_def)
  from request_list_refined [OF this, of "?r 5"] show ?thesis
    by (simp add: rpc_request_list_remove_def new_request_def)
qed

text \<open>The streams of a session and the connections of a worker, likewise.\<close>

lemma stream_find_refined:
  assumes "linked l content addrs (h2_streams h2)"
  shows "\<exists>r. list_find (\<lambda>a. stream_id (content a) = sid) (l_nodes l) (l_head l) = Some r
    \<and> map_option content r = h2_stream_find h2 sid"
  using streams.linked_find [OF assms, of "\<lambda>s. stream_id s = sid"] by (simp add: h2_stream_find_def)

lemma stream_new_refined:
  assumes "linked l content addrs (h2_streams h2)" "a \<notin> set addrs" "h2_stream_new env w h2 sid = Some (w', h2')"
  shows "\<exists>l' stream. list_add a l = Some l' \<and> linked l' (content(a := stream)) (a # addrs) (h2_streams h2') \<and> stream_id stream = sid"
proof -
  obtain stream where "h2' = h2_list_add stream h2" "stream_id stream = sid"
    using assms(3) by (auto simp: h2_stream_new_def Let_def simp del: h2_list_add_def split: if_splits)
  then show ?thesis using streams.linked_add [OF assms(1,2), of stream] by (auto simp del: h2_list_add_def)
qed

lemma stream_free_refined:
  assumes "linked l content addrs (h2_streams h2)" "distinct (map stream_id (h2_streams h2))" "i < length (h2_streams h2)"
  shows "\<exists>l'. list_remove (addrs ! i) l = Some l'
    \<and> linked l' content (take i addrs @ drop (Suc i) addrs) (h2_streams (snd (h2_stream_free w h2 (h2_streams h2 ! i))))"
  using assms by (rule streams.linked_del)

lemma conn_accept_refined:
  assumes "linked l content addrs (sv_conns s)" "a \<notin> set addrs"
  shows "\<exists>l'. list_add a l = Some l' \<and> linked l' (content(a := c)) (a # addrs) (sv_conns (add_conn (w, Some c, sent) s))"
  using assms by (rule conns.linked_add)

lemma conn_free_refined:
  assumes "linked l content addrs (sv_conns s)" "i < length (sv_conns s)"
  shows "\<exists>l'. list_remove (addrs ! i) l = Some l'
    \<and> linked l' content (take i addrs @ drop (Suc i) addrs) (sv_conns (put_conn i (w, None) s))"
  using assms(1) TrueI assms(2) by (rule conns.linked_del)

end
