(* ===== verification/Buffer.thy ===== *)
theory Buffer
  imports Prelude
begin

text \<open>
  \<^verbatim>\<open>src/src/buffer.c\<close>: growable byte buffers with a limit and a global count of the bytes allocated. A
  buffer is its bytes and its capacity; a null pointer is \<open>None\<close>. The outcomes of \<open>malloc\<close> and
  \<open>realloc\<close> are parameters. An operation is \<open>None\<close> when it does not return.
\<close>

definition GROWTH_THRESHOLD :: nat where "GROWTH_THRESHOLD = 64 * 1024"

record BufferGlobals =
  g_total_allocated :: nat
  s_max_buffer_size :: nat

record Buffer =
  b_data :: string
  b_cap :: nat

definition buffer_globals :: BufferGlobals where
  "buffer_globals = \<lparr>g_total_allocated = 0, s_max_buffer_size = 16 * 1024 * 1024\<rparr>"

definition buffer_set_max_size :: "BufferGlobals \<Rightarrow> nat \<Rightarrow> BufferGlobals \<times> nat" where
  "buffer_set_max_size g max_size = (g\<lparr>s_max_buffer_size := max_size\<rparr>, s_max_buffer_size g)"

definition buffer_new :: "BufferGlobals \<Rightarrow> bool \<Rightarrow> bool \<Rightarrow> nat \<Rightarrow> BufferGlobals \<times> Buffer option" where
  "buffer_new g malloc_struct malloc_data initial_cap =
    (let cap = (if initial_cap = 0 then 4096 else initial_cap) in
     if cap > s_max_buffer_size g then (g, None)
     else if \<not> malloc_struct then (g, None)
     else if \<not> malloc_data then (g, None)
     else (g\<lparr>g_total_allocated := (g_total_allocated g + cap) mod 2 ^ 64\<rparr>, Some \<lparr>b_data = [], b_cap = cap\<rparr>))"

text \<open>The loop that computes the new capacity; the inner \<open>None\<close> is its failure.\<close>

partial_function (option) grow_loop :: "nat \<Rightarrow> nat \<Rightarrow> nat \<Rightarrow> nat option option" where
  "grow_loop limit min_cap new_cap =
    (if \<not> new_cap < min_cap then Some (Some new_cap)
     else if new_cap > (if new_cap < GROWTH_THRESHOLD then SIZE_MAX div 2 else SIZE_MAX div 3 * 2) then Some None
     else let growth = (if new_cap < GROWTH_THRESHOLD then new_cap else new_cap div 2) in
       if new_cap > SIZE_MAX - growth then Some None
       else if new_cap + growth > limit then Some (if limit < min_cap then None else Some limit)
       else grow_loop limit min_cap (new_cap + growth))"

definition buffer_grow :: "BufferGlobals \<Rightarrow> Buffer option \<Rightarrow> nat \<Rightarrow> bool \<Rightarrow> (BufferGlobals \<times> Buffer option \<times> int) option" where
  "buffer_grow g bp min_cap realloc_ok = (case bp of
     None \<Rightarrow> Some (g, bp, -1)
   | Some b \<Rightarrow>
      if b_cap b \<ge> min_cap then Some (g, bp, 0)
      else if min_cap > s_max_buffer_size g then Some (g, bp, -1)
      else map_option (\<lambda>r. case r of
          None \<Rightarrow> (g, bp, -1)
        | Some new_cap \<Rightarrow>
           if \<not> realloc_ok then (g, bp, -1)
           else (g\<lparr>g_total_allocated := (g_total_allocated g + (new_cap - b_cap b)) mod 2 ^ 64\<rparr>, Some (b\<lparr>b_cap := new_cap\<rparr>), 0))
        (grow_loop (s_max_buffer_size g) min_cap (b_cap b)))"

definition buffer_append :: "BufferGlobals \<Rightarrow> Buffer option \<Rightarrow> string option \<Rightarrow> nat \<Rightarrow> bool
    \<Rightarrow> (BufferGlobals \<times> Buffer option \<times> int) option" where
  "buffer_append g bp dp len realloc_ok = (case bp of
     None \<Rightarrow> Some (g, bp, -1)
   | Some b \<Rightarrow>
      if dp = None \<and> len > 0 then Some (g, bp, -1)
      else if len = 0 then Some (g, bp, 0)
      else if length (b_data b) > SIZE_MAX - len then Some (g, bp, -1)
      else let required = length (b_data b) + len in
        map_option (\<lambda>(g1, bp1, rc).
            if rc \<noteq> 0 then (g1, bp1, -1)
            else (g1, map_option (\<lambda>b1. b1\<lparr>b_data := b_data b1 @ take len (the dp)\<rparr>) bp1, 0))
          (if required > b_cap b then buffer_grow g bp required realloc_ok else Some (g, bp, 0)))"

definition buffer_free :: "BufferGlobals \<Rightarrow> Buffer option \<Rightarrow> BufferGlobals" where
  "buffer_free g bp = (case bp of
     None \<Rightarrow> g
   | Some b \<Rightarrow> g\<lparr>g_total_allocated := (g_total_allocated g + 2 ^ 64 - b_cap b mod 2 ^ 64) mod 2 ^ 64\<rparr>)"

definition buffer_reset :: "Buffer option \<Rightarrow> Buffer option" where
  "buffer_reset bp = map_option (\<lambda>b. b\<lparr>b_data := []\<rparr>) bp"

subsection \<open>Growth\<close>

text \<open>A limit below which the overflow tests never fail.\<close>

abbreviation sane_limit :: "nat \<Rightarrow> bool" where "sane_limit limit \<equiv> limit \<le> SIZE_MAX div 3 * 2"

lemma grow_loop_result:
  assumes "0 < c" "min_cap \<le> limit" "c \<le> limit"
  shows "\<exists>r. grow_loop limit min_cap c = Some r
    \<and> (case r of None \<Rightarrow> \<not> sane_limit limit | Some n \<Rightarrow> c \<le> n \<and> min_cap \<le> n \<and> n \<le> limit)"
  using assms
proof (induction "min_cap - c" arbitrary: c rule: less_induct)
  case less
  let ?growth = "if c < GROWTH_THRESHOLD then c else c div 2"
  let ?bound = "if c < GROWTH_THRESHOLD then SIZE_MAX div 2 else SIZE_MAX div 3 * 2"
  consider "\<not> c < min_cap" | "c < min_cap" "c > ?bound \<or> c > SIZE_MAX - ?growth"
    | "c < min_cap" "\<not> c > ?bound" "\<not> c > SIZE_MAX - ?growth" "c + ?growth > limit"
    | "c < min_cap" "\<not> c > ?bound" "\<not> c > SIZE_MAX - ?growth" "c + ?growth \<le> limit" by linarith
  then show ?case
  proof cases
    case 1
    then show ?thesis using less.prems by (subst grow_loop.simps) simp
  next
    case 2
    have "grow_loop limit min_cap c = Some None" using 2 by (subst grow_loop.simps) (auto simp: Let_def)
    moreover have "\<not> sane_limit limit"
      using 2 less.prems(3) by (auto simp: GROWTH_THRESHOLD_def split: if_splits)
    ultimately show ?thesis by simp
  next
    case 3
    have "grow_loop limit min_cap c = Some (Some limit)" using 3 less.prems(2) by (subst grow_loop.simps) (simp add: Let_def)
    then show ?thesis using less.prems by simp
  next
    case 4
    have "grow_loop limit min_cap c = grow_loop limit min_cap (c + ?growth)" using 4 by (subst grow_loop.simps) (simp add: Let_def)
    moreover have "0 < ?growth" using less.prems(1) by (simp add: GROWTH_THRESHOLD_def)
    ultimately show ?thesis using less.hyps [of "c + ?growth"] 4 less.prems(2) by (fastforce split: option.splits)
  qed
qed

text \<open>A capacity of 0, which \<open>buffer_new\<close> never makes, would keep the loop from ending.\<close>

lemma grow_loop_zero:
  assumes "0 < min_cap" "limit > 0"
  shows "grow_loop limit min_cap 0 = None"
proof -
  have "c = 0 \<Longrightarrow> m = min_cap \<Longrightarrow> False" if "grow_loop l m c = Some r" for l m c r
    using that
  proof (induction rule: grow_loop.raw_induct [rotated, consumes 1, case_names step])
    case (step f l m c r)
    then show ?case using assms by (auto simp: GROWTH_THRESHOLD_def Let_def split: if_splits)
  qed
  then show ?thesis by (metis not_None_eq)
qed

text \<open>A well-formed buffer: room for at least one byte, and the bytes fit.\<close>

definition buffer_wf :: "BufferGlobals \<Rightarrow> Buffer \<Rightarrow> bool" where
  "buffer_wf g b \<longleftrightarrow> 0 < b_cap b \<and> length (b_data b) \<le> b_cap b \<and> b_cap b \<le> s_max_buffer_size g"

lemma buffer_new_wf: "buffer_new g m1 m2 cap = (g', Some b) \<Longrightarrow> buffer_wf g' b \<and> b_data b = []"
  by (auto simp: buffer_new_def buffer_wf_def Let_def split: if_splits)

lemma buffer_reset_wf: "buffer_wf g b \<Longrightarrow> \<exists>b'. buffer_reset (Some b) = Some b' \<and> buffer_wf g b' \<and> b_data b' = []"
  by (simp add: buffer_reset_def buffer_wf_def)

lemma buffer_grow_result:
  assumes "buffer_wf g b" "sane_limit (s_max_buffer_size g)" "b_cap b < n"
  shows "\<exists>cap. buffer_grow g (Some b) n realloc_ok =
      (if n \<le> s_max_buffer_size g \<and> realloc_ok
       then Some (g\<lparr>g_total_allocated := (g_total_allocated g + (cap - b_cap b)) mod 2 ^ 64\<rparr>, Some (b\<lparr>b_cap := cap\<rparr>), 0)
       else Some (g, Some b, -1))
    \<and> (n \<le> s_max_buffer_size g \<longrightarrow> n \<le> cap \<and> cap \<le> s_max_buffer_size g)"
proof (cases "n \<le> s_max_buffer_size g")
  case True
  then obtain cap where "grow_loop (s_max_buffer_size g) n (b_cap b) = Some (Some cap)" "n \<le> cap" "cap \<le> s_max_buffer_size g"
    using grow_loop_result [of "b_cap b" n "s_max_buffer_size g"] assms by (auto simp: buffer_wf_def split: option.splits)
  then show ?thesis using True assms(3) by (intro exI [of _ cap]) (simp add: buffer_grow_def)
qed (use assms(3) in \<open>simp add: buffer_grow_def\<close>)

lemma append_result:
  assumes "buffer_wf g b" "s_max_buffer_size g \<le> SIZE_MAX div 3 * 2" "length d = n"
  shows "\<exists>g' b' rc. buffer_append g (Some b) (Some d) n realloc_ok = Some (g', Some b', rc)
     \<and> buffer_wf g' b' \<and> s_max_buffer_size g' = s_max_buffer_size g
     \<and> (rc = 0 \<longleftrightarrow> length (b_data b) + n \<le> b_cap b \<or> (length (b_data b) + n \<le> s_max_buffer_size g \<and> realloc_ok))
     \<and> (if rc = 0 then b_data b' = b_data b @ d else g' = g \<and> b' = b)
     \<and> g_total_allocated g' mod 2 ^ 64 = (g_total_allocated g + (b_cap b' - b_cap b)) mod 2 ^ 64"
proof -
  let ?n = "length (b_data b) + n"
  have lim: "\<not> length (b_data b) > SIZE_MAX - n" if "?n \<le> s_max_buffer_size g"
    using that assms(2) by linarith
  show ?thesis
  proof (cases "?n \<le> b_cap b")
    case True
    then have "?n \<le> s_max_buffer_size g" using assms(1) by (simp add: buffer_wf_def)
    then show ?thesis using lim True assms(1,3) by (auto simp: buffer_append_def buffer_wf_def)
  next
    case False
    then obtain cap where c: "buffer_grow g (Some b) ?n realloc_ok =
        (if ?n \<le> s_max_buffer_size g \<and> realloc_ok
         then Some (g\<lparr>g_total_allocated := (g_total_allocated g + (cap - b_cap b)) mod 2 ^ 64\<rparr>, Some (b\<lparr>b_cap := cap\<rparr>), 0)
         else Some (g, Some b, -1))" "?n \<le> s_max_buffer_size g \<longrightarrow> ?n \<le> cap \<and> cap \<le> s_max_buffer_size g"
      using buffer_grow_result [OF assms(1,2), of ?n realloc_ok] by auto
    have n: "n > 0" using False assms(1) by (simp add: buffer_wf_def)
    show ?thesis
    proof (cases "?n \<le> s_max_buffer_size g \<and> realloc_ok")
      case True
      then have "buffer_append g (Some b) (Some d) n realloc_ok =
          Some (g\<lparr>g_total_allocated := (g_total_allocated g + (cap - b_cap b)) mod 2 ^ 64\<rparr>, Some (b\<lparr>b_cap := cap, b_data := b_data b @ d\<rparr>), 0)"
        using lim c(1) False n assms(3) by (simp add: buffer_append_def Let_def)
      then show ?thesis using True c(2) n assms(1,3) by (auto simp: buffer_wf_def)
    next
      case fail: False
      then have "buffer_append g (Some b) (Some d) n realloc_ok = Some (g, Some b, -1)"
        using c(1) False n by (auto simp: buffer_append_def Let_def)
      then show ?thesis using fail False assms(1) by auto
    qed
  qed
qed

text \<open>
  C24. Appending to a buffer always returns, whatever the sizes: the growth loop ends for every buffer
  that has room for a byte, which all have. It succeeds exactly when the bytes fit the capacity, or
  fit the limit and memory can be had; then the bytes are appended and the capacity covers them
  within the limit, and the count of allocated bytes grows by the growth of the capacity; on failure
  nothing changes. (The limit is at most two thirds of the address space; the default is 16 MB.)
\<close>

theorem buffer_append_total:
  assumes "buffer_wf g b" "s_max_buffer_size g \<le> SIZE_MAX div 3 * 2" "length d = n"
  shows "\<exists>g' b' rc. buffer_append g (Some b) (Some d) n realloc_ok = Some (g', Some b', rc)
     \<and> buffer_wf g' b' \<and> s_max_buffer_size g' = s_max_buffer_size g
     \<and> (rc = 0 \<longleftrightarrow> length (b_data b) + n \<le> b_cap b \<or> (length (b_data b) + n \<le> s_max_buffer_size g \<and> realloc_ok))
     \<and> (if rc = 0 then b_data b' = b_data b @ d else g' = g \<and> b' = b)
     \<and> g_total_allocated g' mod 2 ^ 64 = (g_total_allocated g + (b_cap b' - b_cap b)) mod 2 ^ 64"
  using assms by (rule append_result)

theorem buffer_append_total_witness:
  "\<exists>g' b'. buffer_append buffer_globals (Some \<lparr>b_data = ''ab'', b_cap = 3\<rparr>) (Some ''cd'') 2 True = Some (g', Some b', 0)
     \<and> b_data b' = ''abcd'' \<and> buffer_wf g' b'"
proof -
  have "buffer_wf buffer_globals \<lparr>b_data = ''ab'', b_cap = 3\<rparr>" by (simp add: buffer_wf_def buffer_globals_def)
  from buffer_append_total [OF this, of "''cd''" 2 True] show ?thesis by (auto simp: buffer_globals_def)
qed

text \<open>A buffer that is made and freed leaves the count as it was.\<close>

lemma buffer_free_new:
  assumes "buffer_new g True True cap = (g', Some b)" "g_total_allocated g < 2 ^ 64"
  shows "buffer_free g' (Some b) = g"
proof -
  let ?c = "if cap = 0 then 4096 else cap"
  have e: "g' = g\<lparr>g_total_allocated := (g_total_allocated g + ?c) mod 2 ^ 64\<rparr>" "b_cap b = ?c"
    using assms(1) by (auto simp: buffer_new_def Let_def split: if_splits)
  have "((t + c) mod m + m - c mod m) mod m = t mod m" if "0 < m" for t c m :: nat
  proof -
    have "((t + c) mod m + m - c mod m) mod m = (t + c mod m + (m - c mod m)) mod m"
      using mod_less_divisor [OF that, of c] by (metis Nat.add_diff_assoc less_imp_le mod_add_left_eq mod_add_right_eq)
    then show ?thesis using mod_less_divisor [OF that, of c] by simp
  qed
  from this [of "2 ^ 64" "g_total_allocated g" ?c] show ?thesis
    using e assms(2) by (simp add: buffer_free_def)
qed

end
