(* ===== verification/Reader.thy ===== *)
theory Reader
  imports Buffer Config "HOL-Library.Sublist"
begin

text \<open>
  \<^verbatim>\<open>src/src/reader.c\<close>: the blocking reader of a request line. Each round of its loop meets one event of
  the descriptor: a timeout, an interruption or a failure of \<open>select\<close>, a failure of \<open>read\<close>, or a
  \<open>read\<close> for which the kernel has some bytes ready (none at the end of the stream). The bytes that the
  client sends are the pending string. The callback on a change of tier is a parameter, and the
  calls that are made are recorded. \<open>tier_name\<close> is in \<open>Slots\<close> and \<open>size_to_tier\<close> in \<open>Config\<close>.
\<close>

definition NORMAL_CHUNK_SIZE :: nat where "NORMAL_CHUNK_SIZE = 4096"
definition THRESHOLD_APPROACH_ZONE :: nat where "THRESHOLD_APPROACH_ZONE = 4096"

datatype ReadResult = READ_OK | READ_ERROR | READ_TOO_LARGE | READ_TIMEOUT | READ_TIER_EXCEEDED | READ_INCOMPLETE

definition approaching_threshold :: "nat \<Rightarrow> Config \<Rightarrow> nat" where
  "approaching_threshold current_size cfg =
    (if current_size < tier_large_threshold cfg \<and> current_size + THRESHOLD_APPROACH_ZONE \<ge> tier_large_threshold cfg
     then tier_large_threshold cfg
     else if current_size < tier_huge_threshold cfg \<and> current_size + THRESHOLD_APPROACH_ZONE \<ge> tier_huge_threshold cfg
     then tier_huge_threshold cfg
     else 0)"

definition calculate_read_size :: "nat \<Rightarrow> Config \<Rightarrow> nat" where
  "calculate_read_size current_size cfg =
    (let threshold = approaching_threshold current_size cfg in
     if threshold > 0 \<and> threshold - current_size \<le> THRESHOLD_APPROACH_ZONE
     then (if threshold - current_size > 1 then threshold - current_size - 1 else 1)
     else NORMAL_CHUNK_SIZE)"

definition find_newline :: "string \<Rightarrow> nat option" where
  "find_newline data = (let i = length (takeWhile (\<lambda>c. c \<noteq> LF) data) in if i < length data then Some i else None)"

datatype ReadEvent = Wait_timeout | Wait_interrupted | Wait_failed | Read_again | Read_failed | Read_bytes nat bool

record ReaderState =
  rd_globals :: BufferGlobals
  rd_buf :: Buffer
  rd_tier :: RequestTier
  rd_pending :: string
  rd_calls :: "(RequestTier \<times> nat) list"

text \<open>The tests at the head of the loop, and the number of bytes asked for.\<close>

definition read_head :: "Config \<Rightarrow> ReaderState \<Rightarrow> ReadResult option" where
  "read_head cfg st =
    (if find_newline (b_data (rd_buf st)) \<noteq> None then Some READ_OK
     else if length (b_data (rd_buf st)) \<ge> max_buffer_size cfg then Some READ_TOO_LARGE
     else None)"

definition read_amount :: "Config \<Rightarrow> nat \<Rightarrow> nat" where
  "read_amount cfg len =
    (let to_read = calculate_read_size len cfg;
         to_read1 = (if to_read > NORMAL_CHUNK_SIZE then NORMAL_CHUNK_SIZE else to_read) in
     if len + to_read1 > max_buffer_size cfg then max_buffer_size cfg - len else to_read1)"

text \<open>The bytes have been appended: has the tier changed?\<close>

definition read_tier :: "Config \<Rightarrow> (RequestTier \<Rightarrow> nat \<Rightarrow> int) option \<Rightarrow> ReaderState \<Rightarrow> ReadResult option \<times> ReaderState" where
  "read_tier cfg on_tier_change st =
    (let len = length (b_data (rd_buf st)); new_tier = size_to_tier len cfg in
     if new_tier = rd_tier st then (None, st)
     else case on_tier_change of
       None \<Rightarrow> (None, st\<lparr>rd_tier := new_tier\<rparr>)
     | Some cb \<Rightarrow>
        let st1 = st\<lparr>rd_calls := rd_calls st @ [(new_tier, len)]\<rparr> in
        if cb new_tier len \<noteq> 0 then (Some READ_TIER_EXCEEDED, st1) else (None, st1\<lparr>rd_tier := new_tier\<rparr>))"

text \<open>One event. The result is \<open>None\<close> when appending does not return.\<close>

definition read_event :: "Config \<Rightarrow> (RequestTier \<Rightarrow> nat \<Rightarrow> int) option \<Rightarrow> ReadEvent \<Rightarrow> ReaderState
    \<Rightarrow> (ReadResult option \<times> ReaderState) option" where
  "read_event cfg on_tier_change ev st = (case ev of
     Wait_timeout \<Rightarrow> Some (Some READ_TIMEOUT, st)
   | Wait_interrupted \<Rightarrow> Some (None, st)
   | Wait_failed \<Rightarrow> Some (Some READ_ERROR, st)
   | Read_again \<Rightarrow> Some (None, st)
   | Read_failed \<Rightarrow> Some (Some READ_ERROR, st)
   | Read_bytes ready realloc_ok \<Rightarrow>
      let n = min ready (read_amount cfg (length (b_data (rd_buf st))));
          chunk = take n (rd_pending st) in
      if chunk = [] then Some (Some READ_INCOMPLETE, st)
      else (case buffer_append (rd_globals st) (Some (rd_buf st)) (Some chunk) (length chunk) realloc_ok of
          None \<Rightarrow> None
        | Some (g, bp, rc) \<Rightarrow>
           let st1 = st\<lparr>rd_globals := g, rd_buf := the bp, rd_pending := drop n (rd_pending st)\<rparr> in
           if rc \<noteq> 0 then Some (Some READ_TOO_LARGE, st1) else Some (read_tier cfg on_tier_change st1)))"

text \<open>The loop; a result \<open>None\<close> inside is a reader that still waits when the events are over.\<close>

primrec read_loop :: "Config \<Rightarrow> (RequestTier \<Rightarrow> nat \<Rightarrow> int) option \<Rightarrow> ReadEvent list \<Rightarrow> ReaderState
    \<Rightarrow> (ReadResult option \<times> ReaderState) option" where
  "read_loop cfg cb [] st = Some (read_head cfg st, st)"
| "read_loop cfg cb (ev # evs) st = (case read_head cfg st of
     Some r \<Rightarrow> Some (Some r, st)
   | None \<Rightarrow> (case read_event cfg cb ev st of
        None \<Rightarrow> None
      | Some (Some r, st1) \<Rightarrow> Some (Some r, st1)
      | Some (None, st1) \<Rightarrow> read_loop cfg cb evs st1))"

definition read_request_line :: "Config \<Rightarrow> (RequestTier \<Rightarrow> nat \<Rightarrow> int) option \<Rightarrow> BufferGlobals \<Rightarrow> Buffer \<Rightarrow> string \<Rightarrow> ReadEvent list
    \<Rightarrow> (ReadResult option \<times> ReaderState) option" where
  "read_request_line cfg on_tier_change g buf input evs =
    read_loop cfg on_tier_change evs \<lparr>rd_globals = g, rd_buf = buf, rd_tier = TIER_NORMAL, rd_pending = input, rd_calls = []\<rparr>"

subsection \<open>The amount read\<close>

lemma read_amount_bounds:
  assumes "len < max_buffer_size cfg"
  shows "0 < read_amount cfg len" "len + read_amount cfg len \<le> max_buffer_size cfg" "read_amount cfg len \<le> NORMAL_CHUNK_SIZE"
  using assms
  by (auto simp: read_amount_def calculate_read_size_def approaching_threshold_def Let_def NORMAL_CHUNK_SIZE_def THRESHOLD_APPROACH_ZONE_def)

text \<open>A read never crosses a threshold: it ends at it at the latest.\<close>

lemma read_amount_threshold:
  assumes "tier_large_threshold cfg < tier_huge_threshold cfg"
  shows "len < tier_large_threshold cfg \<Longrightarrow> len + read_amount cfg len \<le> tier_large_threshold cfg"
    and "len < tier_huge_threshold cfg \<Longrightarrow> len + read_amount cfg len \<le> tier_huge_threshold cfg"
  using assms
  by (auto simp: read_amount_def calculate_read_size_def approaching_threshold_def Let_def NORMAL_CHUNK_SIZE_def THRESHOLD_APPROACH_ZONE_def)

subsection \<open>The loop\<close>

lemma find_newline_iff: "find_newline data \<noteq> None \<longleftrightarrow> LF \<in> set data"
proof -
  have "length (takeWhile (\<lambda>c. c \<noteq> LF) data) < length data \<longleftrightarrow> LF \<in> set data" by (induction data) auto
  then show ?thesis by (simp add: find_newline_def Let_def)
qed

text \<open>The calls that a buffer of a given length must have caused.\<close>

definition calls_upto :: "Config \<Rightarrow> nat \<Rightarrow> (RequestTier \<times> nat) list" where
  "calls_upto cfg len =
    (if tier_large_threshold cfg \<le> len then [(TIER_LARGE, tier_large_threshold cfg)] else [])
    @ (if tier_huge_threshold cfg \<le> len then [(TIER_HUGE, tier_huge_threshold cfg)] else [])"

text \<open>What holds of every state of the reader, and of those in which it goes on.\<close>

definition reader_ok :: "Config \<Rightarrow> string \<Rightarrow> ReaderState \<Rightarrow> bool" where
  "reader_ok cfg input st \<longleftrightarrow>
     buffer_wf (rd_globals st) (rd_buf st) \<and> sane_limit (s_max_buffer_size (rd_globals st))
     \<and> length (b_data (rd_buf st)) \<le> max_buffer_size cfg \<and> prefix (b_data (rd_buf st)) input
     \<and> rd_calls st = calls_upto cfg (length (b_data (rd_buf st)))"

definition reader_live :: "Config \<Rightarrow> string \<Rightarrow> ReaderState \<Rightarrow> bool" where
  "reader_live cfg input st \<longleftrightarrow> reader_ok cfg input st
     \<and> rd_tier st = size_to_tier (length (b_data (rd_buf st))) cfg \<and> b_data (rd_buf st) @ rd_pending st = input"

text \<open>Appending a chunk that ends at the thresholds at the latest.\<close>

lemma read_tier_ok:
  assumes "0 < tier_large_threshold cfg" "tier_large_threshold cfg < tier_huge_threshold cfg"
    and "len < tier_large_threshold cfg \<Longrightarrow> len' \<le> tier_large_threshold cfg"
    and "len < tier_huge_threshold cfg \<Longrightarrow> len' \<le> tier_huge_threshold cfg" "len < len'"
    and "length (b_data (rd_buf st)) = len'" "rd_tier st = size_to_tier len cfg" "rd_calls st = calls_upto cfg len"
    and "read_tier cfg (Some cb) st = (r, st')"
  shows "rd_calls st' = calls_upto cfg len'" "rd_buf st' = rd_buf st" "rd_globals st' = rd_globals st" "rd_pending st' = rd_pending st"
    "r = None \<or> r = Some READ_TIER_EXCEEDED"
    "r = None \<Longrightarrow> rd_tier st' = size_to_tier len' cfg" "(\<And>t n. cb t n = 0) \<Longrightarrow> r = None"
proof -
  have "if size_to_tier len' cfg = size_to_tier len cfg then calls_upto cfg len' = calls_upto cfg len
    else calls_upto cfg len' = calls_upto cfg len @ [(size_to_tier len' cfg, len')]"
  proof (cases "len < tier_large_threshold cfg")
    case True
    then have "len' < tier_large_threshold cfg \<or> len' = tier_large_threshold cfg" using assms(3) by auto
    then show ?thesis using True assms(2) by (auto simp: size_to_tier_def calls_upto_def)
  next
    case False
    then have "len' < tier_huge_threshold cfg \<or> len' = tier_huge_threshold cfg \<or> tier_huge_threshold cfg \<le> len" using assms(4) by auto
    then show ?thesis using False assms(2,5) by (auto simp: size_to_tier_def calls_upto_def)
  qed
  then consider "size_to_tier len' cfg = size_to_tier len cfg" "calls_upto cfg len' = calls_upto cfg len"
    | "size_to_tier len' cfg \<noteq> size_to_tier len cfg" "calls_upto cfg len' = calls_upto cfg len @ [(size_to_tier len' cfg, len')]"
    by (auto split: if_splits)
  then show "rd_calls st' = calls_upto cfg len'" "rd_buf st' = rd_buf st" "rd_globals st' = rd_globals st" "rd_pending st' = rd_pending st"
    "r = None \<or> r = Some READ_TIER_EXCEEDED"
    "r = None \<Longrightarrow> rd_tier st' = size_to_tier len' cfg" "(\<And>t n. cb t n = 0) \<Longrightarrow> r = None"
    using assms(6-9) by (cases; auto simp: read_tier_def Let_def split: if_splits)+
qed

text \<open>One event: the reader stays in order, and makes progress when bytes can be had.\<close>

lemma read_bytes_ok:
  assumes "0 < tier_large_threshold cfg" "tier_large_threshold cfg < tier_huge_threshold cfg"
    and "reader_live cfg input st" "read_head cfg st = None"
  shows "\<exists>r st'. read_event cfg (Some cb) (Read_bytes ready realloc_ok) st = Some (r, st') \<and> reader_ok cfg input st'
     \<and> r \<noteq> Some READ_OK \<and> (r = None \<longrightarrow> reader_live cfg input st')
     \<and> s_max_buffer_size (rd_globals st') = s_max_buffer_size (rd_globals st)
     \<and> (0 < ready \<and> realloc_ok \<and> (\<forall>t n. cb t n = 0) \<and> rd_pending st \<noteq> [] \<and> max_buffer_size cfg \<le> s_max_buffer_size (rd_globals st)
         \<longrightarrow> r = None \<and> length (b_data (rd_buf st)) < length (b_data (rd_buf st')))"
proof -
  let ?len = "length (b_data (rd_buf st))"
  let ?n = "min ready (read_amount cfg ?len)"
  let ?chunk = "take ?n (rd_pending st)"
  have len: "?len < max_buffer_size cfg" using assms(4) by (auto simp: read_head_def split: if_splits)
  note amount = read_amount_bounds [OF len]
  have live: "buffer_wf (rd_globals st) (rd_buf st)" "sane_limit (s_max_buffer_size (rd_globals st))"
      "rd_calls st = calls_upto cfg ?len" "rd_tier st = size_to_tier ?len cfg" "b_data (rd_buf st) @ rd_pending st = input"
    using assms(3) by (simp_all add: reader_live_def reader_ok_def)
  show ?thesis
  proof (cases "?chunk = []")
    case True
    then have "read_event cfg (Some cb) (Read_bytes ready realloc_ok) st = Some (Some READ_INCOMPLETE, st)"
      by (simp add: read_event_def Let_def del: take_eq_Nil take_eq_Nil2)
    moreover have "\<not> (0 < ready \<and> rd_pending st \<noteq> [])" using True amount(1) by auto
    ultimately show ?thesis using assms(3) by (auto simp: reader_live_def)
  next
    case False
    obtain g b rc where app: "buffer_append (rd_globals st) (Some (rd_buf st)) (Some ?chunk) (length ?chunk) realloc_ok = Some (g, Some b, rc)"
        "buffer_wf g b" "s_max_buffer_size g = s_max_buffer_size (rd_globals st)"
        "rc = 0 \<longleftrightarrow> ?len + length ?chunk \<le> b_cap (rd_buf st) \<or> (?len + length ?chunk \<le> s_max_buffer_size (rd_globals st) \<and> realloc_ok)"
        "if rc = 0 then b_data b = b_data (rd_buf st) @ ?chunk else g = rd_globals st \<and> b = rd_buf st"
      using append_result [OF live(1,2) refl, of ?chunk realloc_ok] by blast
    let ?st = "st\<lparr>rd_globals := g, rd_buf := b, rd_pending := drop ?n (rd_pending st)\<rparr>"
    have ev: "read_event cfg (Some cb) (Read_bytes ready realloc_ok) st =
        (if rc \<noteq> 0 then Some (Some READ_TOO_LARGE, ?st) else Some (read_tier cfg (Some cb) ?st))"
      using False app(1) by (simp add: read_event_def Let_def del: take_eq_Nil take_eq_Nil2 length_take)
    have cl: "length ?chunk \<le> read_amount cfg ?len" "0 < length ?chunk" using False by auto
    show ?thesis
    proof (cases "rc = 0")
      case False
      then have "reader_ok cfg input ?st" using app(5) assms(3) by (simp add: reader_live_def reader_ok_def)
      moreover have "\<not> (realloc_ok \<and> max_buffer_size cfg \<le> s_max_buffer_size (rd_globals st))"
        using False app(4) cl(1) amount(2) by linarith
      ultimately show ?thesis using ev False app(3) by auto
    next
      case True
      then have bd: "b_data b = b_data (rd_buf st) @ ?chunk" using app(5) by simp
      let ?len' = "?len + length ?chunk"
      obtain r st' where rt: "read_tier cfg (Some cb) ?st = (r, st')" by force
      have th: "?len < tier_large_threshold cfg \<Longrightarrow> ?len' \<le> tier_large_threshold cfg"
          "?len < tier_huge_threshold cfg \<Longrightarrow> ?len' \<le> tier_huge_threshold cfg" "?len < ?len'"
        using read_amount_threshold [OF assms(2), of ?len] cl by linarith+
      have "length (b_data (rd_buf ?st)) = ?len'" "rd_tier ?st = size_to_tier ?len cfg" "rd_calls ?st = calls_upto cfg ?len"
        using bd live by simp_all
      note t = read_tier_ok [OF assms(1,2) th this rt]
      have st': "rd_buf st' = b" "rd_globals st' = g" "rd_pending st' = drop ?n (rd_pending st)" "rd_calls st' = calls_upto cfg ?len'"
        using t(1-4) by simp_all
      have "?len' \<le> max_buffer_size cfg" using amount(2) cl(1) by linarith
      moreover have in_eq: "b_data b @ drop ?n (rd_pending st) = input" using bd live(5) by simp
      ultimately have ok: "reader_ok cfg input st'" using app(2,3) live(2) bd st' by (auto simp: reader_ok_def take_is_prefix)
      moreover have "r = None \<Longrightarrow> reader_live cfg input st'" using ok t(6) st' bd in_eq by (simp add: reader_live_def)
      moreover have "read_event cfg (Some cb) (Read_bytes ready realloc_ok) st = Some (r, st')" using ev True rt by simp
      moreover have "?len < length (b_data (rd_buf st'))" using st'(1) bd cl(2) by simp
      ultimately show ?thesis using t(5,7) app(3) st'(2) by auto
    qed
  qed
qed

lemma read_event_ok:
  assumes "0 < tier_large_threshold cfg" "tier_large_threshold cfg < tier_huge_threshold cfg"
    and "reader_live cfg input st" "read_head cfg st = None"
  shows "\<exists>r st'. read_event cfg (Some cb) ev st = Some (r, st') \<and> reader_ok cfg input st'
     \<and> r \<noteq> Some READ_OK \<and> (r = None \<longrightarrow> reader_live cfg input st')"
proof (cases ev)
  case (Read_bytes ready realloc_ok)
  show ?thesis unfolding Read_bytes using read_bytes_ok [OF assms, of cb ready realloc_ok] by blast
qed (use assms(3) in \<open>auto simp: read_event_def reader_live_def\<close>)

lemma read_loop_ok:
  assumes "0 < tier_large_threshold cfg" "tier_large_threshold cfg < tier_huge_threshold cfg" "reader_live cfg input st"
  shows "\<exists>r st'. read_loop cfg (Some cb) evs st = Some (r, st') \<and> reader_ok cfg input st'
     \<and> (r = Some READ_OK \<longrightarrow> LF \<in> set (b_data (rd_buf st')))"
  using assms(3)
proof (induction evs arbitrary: st)
  case Nil
  then show ?case using find_newline_iff [of "b_data (rd_buf st)"] by (simp add: read_head_def reader_live_def)
next
  case (Cons ev evs)
  show ?case
  proof (cases "read_head cfg st")
    case (Some r)
    then show ?thesis using Cons.prems find_newline_iff [of "b_data (rd_buf st)"]
      by (simp add: read_head_def reader_live_def split: if_splits)
  next
    case None
    obtain r st' where r: "read_event cfg (Some cb) ev st = Some (r, st')" "reader_ok cfg input st'" "r \<noteq> Some READ_OK"
        "r = None \<longrightarrow> reader_live cfg input st'"
      using read_event_ok [OF assms(1,2) Cons.prems None] by blast
    show ?thesis
    proof (cases r)
      case None
      then show ?thesis using Cons.IH [of st'] r \<open>read_head cfg st = None\<close> by simp
    qed (use r \<open>read_head cfg st = None\<close> in simp)
  qed
qed

text \<open>Every event brings bytes, there is memory, and the callback agrees: a line that fits is read.\<close>

lemma read_loop_line:
  assumes "0 < tier_large_threshold cfg" "tier_large_threshold cfg < tier_huge_threshold cfg"
    and "\<forall>ev \<in> set evs. \<exists>n. ev = Read_bytes (Suc n) True" "\<forall>t n. cb t n = 0"
    and "LF \<in> set (take (max_buffer_size cfg) input)"
    and "reader_live cfg input st" "max_buffer_size cfg \<le> s_max_buffer_size (rd_globals st)"
    and "max_buffer_size cfg \<le> length (b_data (rd_buf st)) + length evs"
  shows "\<exists>st'. read_loop cfg (Some cb) evs st = Some (Some READ_OK, st')"
  using assms(3,6-8)
proof (induction evs arbitrary: st)
  case Nil
  then have l: "length (b_data (rd_buf st)) = max_buffer_size cfg" "prefix (b_data (rd_buf st)) input"
    by (auto simp: reader_live_def reader_ok_def)
  then have "b_data (rd_buf st) = take (max_buffer_size cfg) input" by (auto simp: prefix_def)
  then show ?case using assms(5) find_newline_iff [of "b_data (rd_buf st)"] by (simp add: read_head_def)
next
  case (Cons ev evs)
  show ?case
  proof (cases "read_head cfg st")
    case None
    have len: "length (b_data (rd_buf st)) < max_buffer_size cfg" "LF \<notin> set (b_data (rd_buf st))"
      using None find_newline_iff [of "b_data (rd_buf st)"] by (auto simp: read_head_def split: if_splits)
    have p: "rd_pending st \<noteq> []"
      using len(2) assms(5) Cons.prems(2) in_set_takeD [of LF "max_buffer_size cfg" input] by (auto simp: reader_live_def)
    obtain n where n: "ev = Read_bytes (Suc n) True" using Cons.prems(1) by auto
    obtain st' where "read_event cfg (Some cb) ev st = Some (None, st')" "reader_live cfg input st'"
        "s_max_buffer_size (rd_globals st') = s_max_buffer_size (rd_globals st)"
        "length (b_data (rd_buf st)) < length (b_data (rd_buf st'))"
      using read_bytes_ok [OF assms(1,2) Cons.prems(2) None, of cb "Suc n" True] n assms(4) p Cons.prems(3) by auto
    then show ?thesis using Cons.IH [of st'] Cons.prems None by simp
  next
    case (Some r)
    have "r = READ_OK"
    proof (rule ccontr)
      assume "r \<noteq> READ_OK"
      then have "length (b_data (rd_buf st)) \<ge> max_buffer_size cfg" "LF \<notin> set (b_data (rd_buf st))"
        using Some find_newline_iff [of "b_data (rd_buf st)"] by (auto simp: read_head_def split: if_splits)
      moreover have "prefix (b_data (rd_buf st)) input" using Cons.prems(2) by (simp add: reader_live_def reader_ok_def)
      ultimately show False using assms(5) by (auto simp: prefix_def dest: in_set_takeD)
    qed
    then show ?thesis using Some by simp
  qed
qed

text \<open>
  C25. The reader of request lines, whatever the descriptor delivers and whatever the callback answers:
  it returns or waits for more, the buffer holds a prefix of what the client sent, never more than
  the configured maximum, and every tier change is announced exactly once, in order, at the byte
  that reaches the threshold. When each event brings some byte, memory can be had and the callback
  agrees, then a line that ends within the maximum is read, after at most as many events as the
  maximum has bytes.
\<close>

theorem reader_exact_thresholds:
  assumes "0 < tier_large_threshold cfg" "tier_large_threshold cfg < tier_huge_threshold cfg"
    and "buffer_wf g buf" "b_data buf = []" "s_max_buffer_size g \<le> SIZE_MAX div 3 * 2"
  shows "(\<exists>r st. read_request_line cfg (Some cb) g buf input evs = Some (r, st)
      \<and> prefix (b_data (rd_buf st)) input \<and> length (b_data (rd_buf st)) \<le> max_buffer_size cfg
      \<and> rd_calls st = calls_upto cfg (length (b_data (rd_buf st))) \<and> (r = Some READ_OK \<longrightarrow> LF \<in> set (b_data (rd_buf st))))
    \<and> ((\<forall>ev \<in> set evs. \<exists>n. ev = Read_bytes (Suc n) True) \<and> (\<forall>t n. cb t n = 0) \<and> max_buffer_size cfg \<le> length evs
        \<and> max_buffer_size cfg \<le> s_max_buffer_size g \<and> LF \<in> set (take (max_buffer_size cfg) input)
       \<longrightarrow> (\<exists>st. read_request_line cfg (Some cb) g buf input evs = Some (Some READ_OK, st)))"
proof -
  let ?st = "\<lparr>rd_globals = g, rd_buf = buf, rd_tier = TIER_NORMAL, rd_pending = input, rd_calls = []\<rparr>"
  have live: "reader_live cfg input ?st"
    using assms by (simp add: reader_live_def reader_ok_def calls_upto_def size_to_tier_def)
  show ?thesis
    using read_loop_ok [OF assms(1,2) live, of cb evs] read_loop_line [OF assms(1,2) _ _ _ live, of evs cb] assms(4)
    by (auto simp: read_request_line_def reader_ok_def)
qed

definition small_config :: Config where
  "small_config = config_default\<lparr>tier_large_threshold := 2, tier_huge_threshold := 4, max_buffer_size := 6\<rparr>"

theorem reader_exact_thresholds_witness:
  "\<exists>st. read_request_line small_config (Some (\<lambda>_ _. 0)) buffer_globals \<lparr>b_data = [], b_cap = 1\<rparr> (''GET /'' @ [LF])
       (replicate 6 (Read_bytes (Suc 2) True)) = Some (Some READ_OK, st)"
proof -
  have c: "tier_large_threshold small_config = 2" "tier_huge_threshold small_config = 4" "max_buffer_size small_config = 6"
    by (simp_all add: small_config_def)
  have b: "buffer_wf buffer_globals \<lparr>b_data = [], b_cap = 1\<rparr>" "s_max_buffer_size buffer_globals = 16777216"
    by (simp_all add: buffer_wf_def buffer_globals_def)
  have "LF \<in> set (take 6 (''GET /'' @ [LF]))" by simp
  then show ?thesis
    using reader_exact_thresholds [of small_config buffer_globals "\<lparr>b_data = [], b_cap = 1\<rparr>" "\<lambda>_ _. 0" "''GET /'' @ [LF]"
        "replicate 6 (Read_bytes (Suc 2) True)"] c b
    by simp
qed

end
