(* ===== verification/Log.thy ===== *)
theory Log
  imports Prelude
begin

text \<open>
  \<^verbatim>\<open>src/src/log.c\<close>: what is written to the standard error stream. The globals are a record. The texts
  that \<open>strftime\<close> makes, the microseconds of the clock and whether the stream is a terminal come from
  the environment; a message comes as the text its format and arguments give.
\<close>

subsection \<open>Levels and settings\<close>

datatype LogLevel = LOG_DEBUG | LOG_INFO | LOG_WARN | LOG_ERROR

fun level_no :: "LogLevel \<Rightarrow> nat" where
  "level_no LOG_DEBUG = 0"
| "level_no LOG_INFO = 1"
| "level_no LOG_WARN = 2"
| "level_no LOG_ERROR = 3"

lemma level_no_inj: "level_no a = level_no b \<Longrightarrow> a = b"
  by (cases a; cases b) simp_all

instantiation LogLevel :: linorder
begin

definition less_eq_LogLevel :: "LogLevel \<Rightarrow> LogLevel \<Rightarrow> bool" where
  "less_eq_LogLevel a b = (level_no a \<le> level_no b)"

definition less_LogLevel :: "LogLevel \<Rightarrow> LogLevel \<Rightarrow> bool" where
  "less_LogLevel a b = (level_no a < level_no b)"

instance
  by standard (auto simp: less_eq_LogLevel_def less_LogLevel_def dest: level_no_inj)

end

record LogState =
  g_log_level :: LogLevel
  g_identity :: string
  g_json_mode :: int
  g_verbose :: int

definition log_start :: LogState where
  "log_start = \<lparr>g_log_level = LOG_INFO, g_identity = ''main'', g_json_mode = 0, g_verbose = 0\<rparr>"

fun level_name :: "LogLevel \<Rightarrow> string" where
  "level_name LOG_DEBUG = ''DEBUG''"
| "level_name LOG_INFO = ''INFO''"
| "level_name LOG_WARN = ''WARN''"
| "level_name LOG_ERROR = ''ERROR''"

fun level_color :: "LogLevel \<Rightarrow> string" where
  "level_color LOG_DEBUG = CHR 0x1B # ''[36m''"
| "level_color LOG_INFO = CHR 0x1B # ''[32m''"
| "level_color LOG_WARN = CHR 0x1B # ''[33m''"
| "level_color LOG_ERROR = CHR 0x1B # ''[31m''"

definition color_reset :: string where "color_reset = CHR 0x1B # ''[0m''"

definition log_init :: "LogLevel \<Rightarrow> LogState \<Rightarrow> LogState" where
  "log_init level st = st\<lparr>g_log_level := level\<rparr>"

definition log_set_level :: "LogLevel \<Rightarrow> LogState \<Rightarrow> LogState" where
  "log_set_level level st = st\<lparr>g_log_level := level\<rparr>"

definition log_set_identity :: "string \<Rightarrow> LogState \<Rightarrow> LogState" where
  "log_set_identity identity st = st\<lparr>g_identity := strncpy_buf 32 identity\<rparr>"

definition log_set_json_mode :: "int \<Rightarrow> LogState \<Rightarrow> LogState" where
  "log_set_json_mode json_mode st = st\<lparr>g_json_mode := json_mode\<rparr>"

definition log_set_verbose :: "int \<Rightarrow> LogState \<Rightarrow> LogState" where
  "log_set_verbose verbose st =
    (let st1 = st\<lparr>g_verbose := verbose\<rparr> in
     if verbose \<noteq> 0 then st1\<lparr>g_log_level := LOG_DEBUG\<rparr> else st1\<lparr>g_log_level := LOG_INFO\<rparr>)"

definition log_is_verbose :: "LogState \<Rightarrow> int" where
  "log_is_verbose st = g_verbose st"

definition log_format_ip :: "LogState \<Rightarrow> string option \<Rightarrow> string" where
  "log_format_ip st ip = (case ip of
     None \<Rightarrow> ''client''
   | Some s \<Rightarrow> if s = [] then ''client'' else if g_verbose st \<noteq> 0 then s else ''client'')"

subsection \<open>Lines\<close>

record LogEnv =
  le_timestamp :: string
  le_display :: string
  le_access_time :: string
  le_usec :: nat
  le_tty :: bool

text \<open>A name padded with blanks.\<close>

definition pad :: "nat \<Rightarrow> string \<Rightarrow> string" where
  "pad n s = s @ replicate (n - length s) SP"

definition json_escape_char :: "char \<Rightarrow> string" where
  "json_escape_char c =
    (if c = DQUOTE then [BSLASH, DQUOTE]
     else if c = BSLASH then [BSLASH, BSLASH]
     else if c = LF then [BSLASH, CHR ''n'']
     else if c = CR then [BSLASH, CHR ''r'']
     else if c = TAB then [BSLASH, CHR ''t'']
     else if of_char c < (0x20 :: nat) then [BSLASH, CHR ''u''] @ zero_pad 4 (fmt_x (of_char c))
     else [c])"

definition json_escape_string :: "string \<Rightarrow> string" where
  "json_escape_string str = concat (map json_escape_char str)"

definition log_write :: "LogState \<Rightarrow> LogEnv \<Rightarrow> LogLevel \<Rightarrow> string \<Rightarrow> string" where
  "log_write st env level text =
    (if level < g_log_level st then []
     else if g_json_mode st \<noteq> 0 then
       ''{'' @ quoted ''timestamp'' @ '':'' @ quoted (le_timestamp env @ ''.'' @ zero_pad 6 (fmt_u (le_usec env)) @ ''Z'') @ '',''
       @ quoted ''level'' @ '':'' @ quoted (level_name level) @ '','' @ quoted ''worker'' @ '':'' @ quoted (g_identity st) @ '',''
       @ quoted ''message'' @ '':'' @ [DQUOTE] @ json_escape_string (snprintf_buf 1024 text) @ [DQUOTE] @ ''}'' @ [LF]
     else
       (if le_tty env
        then color_reset @ ''['' @ le_display env @ ''] '' @ level_color level @ ''['' @ pad 5 (level_name level) @ '']'' @ color_reset
             @ '' ['' @ g_identity st @ ''] ''
        else ''['' @ le_display env @ ''] ['' @ pad 5 (level_name level) @ ''] ['' @ g_identity st @ ''] '')
       @ text @ [LF])"

definition log_debug :: "LogState \<Rightarrow> LogEnv \<Rightarrow> string \<Rightarrow> string" where "log_debug st env text = log_write st env LOG_DEBUG text"
definition log_info :: "LogState \<Rightarrow> LogEnv \<Rightarrow> string \<Rightarrow> string" where "log_info st env text = log_write st env LOG_INFO text"
definition log_warn :: "LogState \<Rightarrow> LogEnv \<Rightarrow> string \<Rightarrow> string" where "log_warn st env text = log_write st env LOG_WARN text"
definition log_error :: "LogState \<Rightarrow> LogEnv \<Rightarrow> string \<Rightarrow> string" where "log_error st env text = log_write st env LOG_ERROR text"

definition log_access :: "LogState \<Rightarrow> LogEnv \<Rightarrow> string \<Rightarrow> string \<Rightarrow> string \<Rightarrow> int \<Rightarrow> nat \<Rightarrow> rat \<Rightarrow> string \<Rightarrow> string" where
  "log_access st env client_ip method path status bytes_sent duration_ms request_id =
    (if g_verbose st = 0 then []
     else if g_json_mode st \<noteq> 0 then
       ''{'' @ quoted ''timestamp'' @ '':'' @ quoted (le_timestamp env @ ''.'' @ zero_pad 6 (fmt_u (le_usec env)) @ ''Z'') @ '',''
       @ quoted ''type'' @ '':'' @ quoted ''access'' @ '','' @ quoted ''client_ip'' @ '':'' @ quoted client_ip @ '',''
       @ quoted ''method'' @ '':'' @ quoted method @ '','' @ quoted ''path'' @ '':'' @ quoted (json_escape_string path) @ '',''
       @ quoted ''status'' @ '':'' @ fmt_d status @ '','' @ quoted ''bytes'' @ '':'' @ fmt_u bytes_sent @ '',''
       @ quoted ''duration_ms'' @ '':'' @ fmt_f 3 duration_ms @ '','' @ quoted ''request_id'' @ '':'' @ quoted request_id @ '',''
       @ quoted ''worker'' @ '':'' @ quoted (g_identity st) @ ''}'' @ [LF]
     else
       client_ip @ '' - - ['' @ le_access_time env @ ''] '' @ quoted (method @ [SP] @ path @ '' HTTP/1.1'') @ [SP] @ fmt_d status
       @ [SP] @ fmt_u bytes_sent @ [SP] @ fmt_f 3 duration_ms @ ''ms '' @ request_id @ [LF])"

subsection \<open>Reading a JSON string\<close>

text \<open>
  The string syntax of JSON (RFC 8259) on bytes: the text after the opening quote is read up to the
  closing one; control characters must be escaped. The result is the value and the rest.
\<close>

definition hex_value :: "char \<Rightarrow> nat option" where
  "hex_value c =
    (let v = of_char c :: nat in
     if 48 \<le> v \<and> v \<le> 57 then Some (v - 48)
     else if 97 \<le> v \<and> v \<le> 102 then Some (v - 87)
     else if 65 \<le> v \<and> v \<le> 70 then Some (v - 55)
     else None)"

definition json_unicode :: "string \<Rightarrow> (char \<times> string) option" where
  "json_unicode r = (case r of
     a # b # c # d # r1 \<Rightarrow>
       (case (hex_value a, hex_value b, hex_value c, hex_value d) of
          (Some w, Some x, Some y, Some z) \<Rightarrow>
            let v = ((w * 16 + x) * 16 + y) * 16 + z in if v < 256 then Some (char_of v, r1) else None
        | _ \<Rightarrow> None)
   | _ \<Rightarrow> None)"

definition json_unescape :: "string \<Rightarrow> (char \<times> string) option" where
  "json_unescape s = (case s of
     [] \<Rightarrow> None
   | e # r \<Rightarrow>
      if e = DQUOTE \<or> e = BSLASH \<or> e = CHR ''/'' then Some (e, r)
      else if e = CHR ''b'' then Some (CHR 0x08, r)
      else if e = CHR ''f'' then Some (CHR 0x0C, r)
      else if e = CHR ''n'' then Some (LF, r)
      else if e = CHR ''r'' then Some (CR, r)
      else if e = CHR ''t'' then Some (TAB, r)
      else if e = CHR ''u'' then json_unicode r
      else None)"

lemma json_unicode_shorter: "json_unicode r = Some (c, r1) \<Longrightarrow> length r1 < length r"
  by (auto simp: json_unicode_def Let_def split: list.splits option.splits if_splits)

lemma json_unescape_shorter: "json_unescape s = Some (c, r) \<Longrightarrow> length r < length s"
  by (auto simp: json_unescape_def split: list.splits if_splits dest: json_unicode_shorter)

function json_read_string :: "string \<Rightarrow> (string \<times> string) option" where
  "json_read_string [] = None"
| "json_read_string (c # s) =
    (if c = DQUOTE then Some ([], s)
     else if c = BSLASH then
       (case json_unescape s of
          None \<Rightarrow> None
        | Some (d, r) \<Rightarrow> map_option (\<lambda>(value, rest). (d # value, rest)) (json_read_string r))
     else if of_char c < (0x20 :: nat) then None
     else map_option (\<lambda>(value, rest). (c # value, rest)) (json_read_string s))"
  by pat_completeness auto
termination
  by (relation "measure length") (auto dest: json_unescape_shorter)

lemma hex_value_digit: "d < 16 \<Longrightarrow> hex_value (hex_digit d) = Some d"
  by (auto simp: hex_value_def hex_digit_def Let_def)

lemma hex_value_zero: "hex_value (CHR ''0'') = Some 0"
  by (simp add: hex_value_def)

lemma json_unicode_control:
  assumes "n < 32"
  shows "json_unicode (zero_pad 4 (fmt_x n) @ s) = Some (char_of n, s)"
proof (cases "n < 16")
  case True
  then have "zero_pad 4 (fmt_x n) = [CHR ''0'', CHR ''0'', CHR ''0'', hex_digit n]"
    by (subst fmt_x.simps) (simp add: zero_pad_def numeral_3_eq_3)
  then show ?thesis using True by (simp add: json_unicode_def hex_value_digit hex_value_zero)
next
  case False
  then have d: "n div 16 = 1" "n mod 16 = n - 16" using assms by (simp_all add: le_mod_geq)
  have "zero_pad 4 (fmt_x n) = [CHR ''0'', CHR ''0'', hex_digit 1, hex_digit (n - 16)]"
    using False d by (subst fmt_x.simps, simp, subst fmt_x.simps) (simp add: zero_pad_def numeral_2_eq_2)
  then show ?thesis using False assms by (simp add: json_unicode_def hex_value_digit hex_value_zero)
qed

lemma json_read_escaped:
  "json_read_string (json_escape_char c @ s) = map_option (\<lambda>(value, rest). (c # value, rest)) (json_read_string s)"
proof (cases "c \<in> {DQUOTE, BSLASH, LF, CR, TAB}")
  case True
  then show ?thesis by (auto simp: json_escape_char_def json_unescape_def)
next
  case False
  then show ?thesis using json_unicode_control [of "of_char c" s]
    by (cases "of_char c < (0x20 :: nat)") (auto simp: json_escape_char_def json_unescape_def)
qed

lemma json_read_back: "json_read_string (json_escape_string m @ DQUOTE # rest) = Some (m, rest)"
  by (induction m) (simp_all add: json_escape_string_def json_read_escaped)

lemma hex_digit_not_LF: "d < 16 \<Longrightarrow> hex_digit d \<noteq> LF"
  using hex_value_digit [of d] by (auto simp: hex_value_def)

lemma fmt_x_not_LF: "LF \<notin> set (fmt_x n)"
proof (induction n rule: fmt_x.induct)
  case (1 n)
  show ?case
  proof (cases "n < 16")
    case True
    then have "fmt_x n = [hex_digit n]" by (subst fmt_x.simps) simp
    then show ?thesis using hex_digit_not_LF [OF True] by auto
  next
    case False
    then have "fmt_x n = fmt_x (n div 16) @ [hex_digit (n mod 16)]" by (subst fmt_x.simps) simp
    then show ?thesis using 1 [OF False] hex_digit_not_LF [of "n mod 16"] by auto
  qed
qed

lemma fmt_u_not_LF: "LF \<notin> set (fmt_u n)"
  using fmt_u_digits [of LF n] by (auto simp: isdigit_def)

lemma escaped_not_LF: "LF \<notin> set (json_escape_string m)"
proof -
  have "LF \<notin> set (json_escape_char c)" for c using fmt_x_not_LF by (auto simp: json_escape_char_def zero_pad_def)
  then show ?thesis by (simp add: json_escape_string_def)
qed

lemma level_name_not_LF: "LF \<notin> set (level_name level)"
  by (cases level) simp_all

text \<open>
  C23. Log lines in JSON cannot be forged through the message: whatever bytes a message has, its line is
  one line, and a JSON reader that reads the message field from its opening quote gets exactly the
  first 1023 bytes of the message back and then meets the end of the object.
\<close>

theorem json_log_line_roundtrip:
  assumes "g_json_mode st \<noteq> 0" "g_log_level st \<le> level" "LF \<notin> set (g_identity st)" "LF \<notin> set (le_timestamp env)"
  shows "\<exists>pre field. log_write st env level text = pre @ quoted ''message'' @ '':'' @ [DQUOTE] @ field @ [LF]
     \<and> LF \<notin> set (pre @ field) \<and> json_read_string field = Some (take 1023 text, ''}'')"
proof -
  let ?pre = "''{'' @ quoted ''timestamp'' @ '':'' @ quoted (le_timestamp env @ ''.'' @ zero_pad 6 (fmt_u (le_usec env)) @ ''Z'') @ '',''
       @ quoted ''level'' @ '':'' @ quoted (level_name level) @ '','' @ quoted ''worker'' @ '':'' @ quoted (g_identity st) @ '',''"
  let ?field = "json_escape_string (take 1023 text) @ DQUOTE # ''}''"
  have "log_write st env level text = ?pre @ quoted ''message'' @ '':'' @ [DQUOTE] @ ?field @ [LF]"
    using assms(1,2) by (simp add: log_write_def snprintf_buf_def not_less)
  moreover have "LF \<notin> set (?pre @ ?field)"
    using assms(3,4) fmt_u_not_LF level_name_not_LF escaped_not_LF by (simp add: quoted_def zero_pad_def)
  moreover have "json_read_string ?field = Some (take 1023 text, ''}'')" by (rule json_read_back)
  ultimately show ?thesis by blast
qed

theorem json_log_line_roundtrip_witness:
  "\<exists>pre field. log_write (log_set_json_mode 1 log_start) \<lparr>le_timestamp = ''t'', le_display = [], le_access_time = [], le_usec = 7, le_tty = False\<rparr>
      LOG_WARN [DQUOTE, LF, CHR 0x01] = pre @ quoted ''message'' @ '':'' @ [DQUOTE] @ field @ [LF]
     \<and> LF \<notin> set (pre @ field) \<and> json_read_string field = Some ([DQUOTE, LF, CHR 0x01], ''}'')"
  using json_log_line_roundtrip [of "log_set_json_mode 1 log_start" LOG_WARN
      "\<lparr>le_timestamp = ''t'', le_display = [], le_access_time = [], le_usec = 7, le_tty = False\<rparr>" "[DQUOTE, LF, CHR 0x01]"]
  by (simp add: log_set_json_mode_def log_start_def less_eq_LogLevel_def)

subsection \<open>Minimal mode\<close>

text \<open>When verbose logging is off, neither function lets anything about a client through.\<close>

lemma minimal_mode_hides_clients:
  "log_format_ip (log_set_verbose 0 st) ip = log_format_ip (log_set_verbose 0 st) ip'"
  "log_access (log_set_verbose 0 st) env client_ip method path status bytes duration rid = []"
  by (simp_all add: log_format_ip_def log_set_verbose_def log_access_def split: option.split)

text \<open>
  The method of a JSON access line is not escaped: of a method that contains a quote a reader gets
  the part before it, and what follows is taken as further fields.
\<close>

lemma json_read_plain:
  "list_all (\<lambda>c. c \<noteq> DQUOTE \<and> c \<noteq> BSLASH \<and> of_char c \<ge> (0x20 :: nat)) p \<Longrightarrow> json_read_string (p @ DQUOTE # rest) = Some (p, rest)"
  by (induction p) (auto simp: not_less)

lemma access_method_cut_at_quote:
  assumes "g_json_mode st \<noteq> 0" "g_verbose st \<noteq> 0" "list_all (\<lambda>c. c \<noteq> DQUOTE \<and> c \<noteq> BSLASH \<and> of_char c \<ge> (0x20 :: nat)) p"
  shows "\<exists>pre rest. log_access st env ip (p @ DQUOTE # q) path status bytes duration rid = pre @ quoted ''method'' @ '':'' @ [DQUOTE] @ rest
     \<and> (\<exists>r. json_read_string rest = Some (p, q @ DQUOTE # r))"
proof -
  let ?pre = "''{'' @ quoted ''timestamp'' @ '':'' @ quoted (le_timestamp env @ ''.'' @ zero_pad 6 (fmt_u (le_usec env)) @ ''Z'') @ '',''
       @ quoted ''type'' @ '':'' @ quoted ''access'' @ '','' @ quoted ''client_ip'' @ '':'' @ quoted ip @ '',''"
  let ?r = "'','' @ quoted ''path'' @ '':'' @ quoted (json_escape_string path) @ '',''
       @ quoted ''status'' @ '':'' @ fmt_d status @ '','' @ quoted ''bytes'' @ '':'' @ fmt_u bytes @ '',''
       @ quoted ''duration_ms'' @ '':'' @ fmt_f 3 duration @ '','' @ quoted ''request_id'' @ '':'' @ quoted rid @ '',''
       @ quoted ''worker'' @ '':'' @ quoted (g_identity st) @ ''}'' @ [LF]"
  have "log_access st env ip (p @ DQUOTE # q) path status bytes duration rid =
      ?pre @ quoted ''method'' @ '':'' @ [DQUOTE] @ (p @ DQUOTE # (q @ DQUOTE # ?r))"
    using assms(1,2) by (simp add: log_access_def quoted_def)
  then show ?thesis using json_read_plain [OF assms(3), of "q @ DQUOTE # ?r"] by blast
qed

end
