(* ===== verification/Delivery.thy ===== *)
theory Delivery
  imports ConnectionFacts
begin

text \<open>
  A request as the network delivers it: in pieces, each of which runs the read callback
  (\<open>src/connection.c\<close>). How the pieces are cut does not change what the connection does.
\<close>

subsection \<open>Deliveries\<close>

text \<open>Each piece is added to the input buffer and the read callback runs, until the connection is freed.\<close>

fun deliver :: "(Env \<times> ReadInput \<times> string) list \<Rightarrow> WorkerProcess \<Rightarrow> Connection \<Rightarrow> conn_result" where
  "deliver [] w conn = (w, Some conn)"
| "deliver ((env, ri, data) # ds) w conn =
     conn_then (conn_read_cb env ri w (conn\<lparr>inbuf := inbuf conn @ data\<rparr>)) (deliver ds)"

definition delivered :: "(Env \<times> ReadInput \<times> string) list \<Rightarrow> string" where
  "delivered ds = concat (map (\<lambda>(env, ri, data). data) ds)"

text \<open>A connection without its record of how far the input was searched and checked.\<close>

definition settled :: "Connection \<Rightarrow> Connection" where
  "settled c = c\<lparr>headers_scanned := 0, headers_end := 0, path_validated := False\<rparr>"

definition settled_result :: "conn_result \<Rightarrow> conn_result" where
  "settled_result r = map_prod id (map_option settled) r"

text \<open>The clock has not reached a throughput check for this connection.\<close>

definition in_time :: "Connection \<Rightarrow> Env \<Rightarrow> bool" where
  "in_time c env \<longleftrightarrow> elapsed_sec (e_rnd env) (e_now env) (c_start_time c) \<le> MAX_REQUEST_TIME_SEC
     \<and> elapsed_sec (e_rnd env) (e_now env) (last_progress_time c) < THROUGHPUT_CHECK_INTERVAL_SEC"

definition plain_http1 :: "Connection \<Rightarrow> bool" where
  "plain_http1 c \<longleftrightarrow> (c_ssl c \<longrightarrow> tls_handshake_done c) \<and> c_h2 c = None"

lemma read_cb_http1:
  assumes "plain_http1 c" "in_time c env"
  shows "conn_read_cb env ri w c = read_http1 env (ri_beyond ri) w c"
  using assms by (auto simp: plain_http1_def in_time_def conn_read_cb_def read_tls_handshake_def read_slowloris_def conn_then_def
      split: ProtocolType.splits)

subsection \<open>The marks of the search do not change the answer\<close>

definition marked :: "nat \<Rightarrow> bool \<Rightarrow> Connection \<Rightarrow> Connection" where
  "marked k b c = c\<lparr>headers_scanned := k, path_validated := b\<rparr>"

lemma settled_marked [simp]: "settled (marked k b c) = settled c"
  by (simp add: settled_def marked_def)

lemma finish_marked [simp]: "finish_response t code n s (marked k b c) = marked k b (finish_response t code n s c)"
  by (simp add: finish_response_def marked_def)

lemma send_error_marked [simp]: "connection_send_error code txt (marked k b c) = marked k b (connection_send_error code txt c)"
  by (simp add: connection_send_error_def connection_send_response_def finish_response_def conn_option_def marked_def Let_def)

lemma marked_fields [simp]:
  "conn_option (marked k b c) = conn_option c" "conn_path (marked k b c) = conn_path c"
  "probe_headers t n opt (marked k b c) = probe_headers t n opt c"
  "keep_alive (marked k b c) = keep_alive c" "request_id (marked k b c) = request_id c"
  "inbuf (marked k b c) = inbuf c" "content_length (marked k b c) = content_length c"
  "body_received (marked k b c) = body_received c"
  "validation_failed (marked k b c) = validation_failed c"
  "(marked k b c)\<lparr>c_state := s\<rparr> = marked k b (c\<lparr>c_state := s\<rparr>)"
  "(marked k b c)\<lparr>headers_end := n\<rparr> = marked k b (c\<lparr>headers_end := n\<rparr>)"
  "(marked k b c)\<lparr>inbuf := i, body_received := n\<rparr> = marked k b (c\<lparr>inbuf := i, body_received := n\<rparr>)"
  "(marked k b c)\<lparr>validation_failed := v\<rparr> = marked k b (c\<lparr>validation_failed := v\<rparr>)"
  by (simp_all add: marked_def conn_option_def conn_path_def probe_headers_def)

lemma serve_marked [simp]:
  "serve_health env w (marked k b c) = marked k b (serve_health env w c)"
  "serve_ready w (marked k b c) = marked k b (serve_ready w c)"
  "serve_version (marked k b c) = marked k b (serve_version c)"
  "serve_alive (marked k b c) = marked k b (serve_alive c)"
  "serve_metrics env w (marked k b c) = marked k b (serve_metrics env w c)"
  "serve_acme_challenge env cfg (marked k b c) = marked k b (serve_acme_challenge env cfg c)"
  "serve_static_file cfg f code txt (marked k b c) = marked k b (serve_static_file cfg f code txt c)"
  by (simp_all add: serve_health_def serve_ready_def serve_version_def serve_alive_def serve_metrics_def
      serve_acme_challenge_def serve_static_file_def Let_def split: prod.splits option.splits)

lemma process_request_marked:
  "process_request env (w, marked k b c) = apsnd (marked k b) (process_request env (w, c))"
  by (simp add: process_request_def Let_def split: RouteType.splits)

lemma downgrade_marked:
  "downgrade_tier_to_normal (w, marked k b c) = apsnd (marked k b) (downgrade_tier_to_normal (w, c))"
  by (auto simp: downgrade_tier_to_normal_def marked_def Let_def split: prod.splits bool.splits)

lemma request_complete_marked:
  "settled_result (request_complete env w (marked k b c)) = settled_result (request_complete env w c)"
proof -
  obtain w1 c1 where d: "downgrade_tier_to_normal (w, c) = (w1, c1)" by force
  obtain w2 c2 where p: "process_request env (w1, c1) = (w2, c2)" by force
  show ?thesis by (simp add: request_complete_def downgrade_marked d process_request_marked p conn_stay_def settled_result_def)
qed

text \<open>What the early check finds depends on the data only.\<close>

lemma validate_early_cases:
  "(\<forall>c. \<not> validation_failed c \<longrightarrow> validate_path_early c s = (c, True))
   \<or> (\<forall>c. \<not> validation_failed c \<longrightarrow> validate_path_early c s = (c\<lparr>path_validated := True\<rparr>, True))
   \<or> (\<forall>c. \<not> validation_failed c \<longrightarrow> validate_path_early c s = (c\<lparr>validation_failed := True\<rparr>, False))"
proof -
  have pick: "(\<forall>c. P c \<longrightarrow> (if b then f c else g c) = x c) = (if b then \<forall>c. P c \<longrightarrow> f c = x c else \<forall>c. P c \<longrightarrow> g c = x c)"
    for P b and f g x :: "Connection \<Rightarrow> Connection \<times> bool" by simp
  show ?thesis unfolding validate_path_early_def Let_def
    by (cases "memchr SP s") (simp_all only: option.case if_False pick cong: if_cong imp_cong, simp_all)
qed

lemma validate_early_marked:
  assumes "validate_path_early c s = (c1, v)"
  shows "\<exists>b'. validate_path_early (marked k b c) s = (marked k b' c1, v)"
proof (cases "validation_failed c")
  case True
  then show ?thesis using assms by (auto simp: validate_path_early_def)
next
  case False
  have "(marked k b c)\<lparr>path_validated := True\<rparr> = marked k True (c\<lparr>path_validated := True\<rparr>)"
    by (simp add: marked_def)
  then show ?thesis using validate_early_cases [of s] False assms by (elim disjE) auto
qed

lemma parse_headers_marked:
  "parse_request_headers env (marked k b c) h y = apfst (marked k b) (parse_request_headers env c h y)"
  by (simp add: parse_request_headers_def marked_def Let_def split: option.splits)

lemma header_block_marked:
  "settled_result (read_header_block env y n w (marked k b c)) = settled_result (read_header_block env y n w c)"
proof -
  let ?h = "take (n + 4) (inbuf c)"
  obtain c2 v where val: "validate_path_early (c\<lparr>headers_end := n + 4\<rparr>) ?h = (c2, v)" by force
  obtain b' where val': "validate_path_early (marked k b (c\<lparr>headers_end := n + 4\<rparr>)) ?h = (marked k b' c2, v)"
    using validate_early_marked [OF val] by blast
  obtain c3 ok where par: "parse_request_headers env c2 ?h y = (c3, ok)" by force
  show ?thesis
  proof (cases "e_malloc env 6 \<and> v \<and> ok \<and> content_length c3 \<le> max_buffer_size (w_config w)
      \<and> \<not> (content_length c3 > 0 \<and> length (inbuf c3) - (n + 4) < content_length c3)")
    case True
    then show ?thesis
      by (auto simp: read_header_block_def Let_def val val' parse_headers_marked par request_complete_marked)
  next
    case False
    then show ?thesis
      by (auto simp: read_header_block_def Let_def val val' parse_headers_marked par settled_result_def split: bool.splits)
  qed
qed

subsection \<open>A path that is refused early would be refused at the end\<close>

lemma memchr_append: "memchr c s = Some n \<Longrightarrow> memchr c (s @ t) = Some n"
  by (simp add: memchr_Some_iff nth_append)

lemma takeWhile_prefix: "\<exists>u. takeWhile P (s @ t) = takeWhile P s @ u"
  by (induction s) auto

lemma validate_early_reject:
  assumes "\<not> validation_failed c" "validate_path_early c s = (c1, False)"
  shows "c1 = c\<lparr>validation_failed := True\<rparr>"
  using assms by (auto simp: validate_path_early_def Let_def split: if_splits option.splits)

lemma validate_early_accept:
  assumes "validate_path_early c s = (c1, True)"
  shows "c1 = c \<or> c1 = c\<lparr>path_validated := True\<rparr>"
  using assms by (auto simp: validate_path_early_def Let_def split: if_splits option.splits)

lemma validate_early_reject_extends:
  assumes ok: "\<not> validation_failed c" and r: "\<not> snd (validate_path_early c s)"
  shows "validate_path_early c (s @ t) = (c\<lparr>validation_failed := True\<rparr>, False)"
proof -
  let ?ends = "\<lambda>c. \<not> (c = SP \<or> c = CR \<or> c = LF)"
  let ?start = "\<lambda>a. if hd a = CHR ''/'' then tl a else a"
  let ?rest = "\<lambda>p. if 3 < length p \<and> has_prefix ''tx/'' p then drop 3 p else p"
  obtain i where i: "memchr SP s = Some i" and a: "drop (Suc i) s \<noteq> []" and st: "?start (drop (Suc i) s) \<noteq> []"
    and len: "\<not> length (takeWhile ?ends (?start (drop (Suc i) s))) < 64"
    and bad: "\<not> list_all is_hex_char (?rest (takeWhile ?ends (?start (drop (Suc i) s))))"
    using ok r by (auto simp: validate_path_early_def Let_def split: if_splits option.splits)
  have a': "drop (Suc i) (s @ t) = drop (Suc i) s @ t" using a by simp
  have st': "?start (drop (Suc i) s @ t) = ?start (drop (Suc i) s) @ t" using a by simp
  obtain u where u: "takeWhile ?ends (?start (drop (Suc i) s) @ t) = takeWhile ?ends (?start (drop (Suc i) s)) @ u"
    using takeWhile_prefix by blast
  define p where "p = takeWhile ?ends (?start (drop (Suc i) s))"
  have lp: "64 \<le> length p" and bp: "\<not> list_all is_hex_char (?rest p)" using len bad unfolding p_def by (simp_all only: not_less not_False_eq_True)
  have "?rest (p @ u) = ?rest p @ u" using lp by (simp add: has_prefix_def)
  then have bad': "\<not> list_all is_hex_char (?rest (p @ u))" using bp by simp
  show ?thesis
    using ok bad' lp st a unfolding validate_path_early_def memchr_append [OF i] Let_def a' st' u option.case p_def [symmetric]
    by simp
qed

subsection \<open>Pieces before the end of the headers\<close>

abbreviation end_mark :: string where "end_mark \<equiv> CRLF @ CRLF"

text \<open>The answer to a path with an invalid character.\<close>

definition refused :: "Connection \<Rightarrow> Connection" where
  "refused c = connection_send_error 400 ''Bad Request - Invalid Characters'' (c\<lparr>validation_failed := True\<rparr>)"

text \<open>The connection waits for headers, and nothing that may still arrive was searched already.\<close>

definition scanning :: "Connection \<Rightarrow> bool" where
  "scanning c \<longleftrightarrow> plain_http1 c \<and> c_state c = CONN_STATE_READING_HEADERS \<and> \<not> validation_failed c
     \<and> (\<forall>t. scan_ok (c\<lparr>inbuf := inbuf c @ t\<rparr>))"

text \<open>So much data needs neither a larger tier nor more than the largest buffer.\<close>

definition fits :: "WorkerProcess \<Rightarrow> Connection \<Rightarrow> nat \<Rightarrow> bool" where
  "fits w c n \<longleftrightarrow> n \<le> max_buffer_size (w_config w) \<and> size_to_tier n (w_config w) \<le> current_tier c"

lemma size_to_tier_mono: "m \<le> n \<Longrightarrow> size_to_tier m cfg \<le> size_to_tier n cfg"
  by (auto simp: size_to_tier_def less_eq_RequestTier_def)

lemma fits_mono: "fits w c n \<Longrightarrow> m \<le> n \<Longrightarrow> fits w c m"
  using size_to_tier_mono by (fastforce simp: fits_def intro: order_trans)

lemma memmem_prefix_None:
  assumes "memmem p (s @ t) = None"
  shows "memmem p s = None"
proof (rule ccontr)
  assume "memmem p s \<noteq> None"
  then obtain n where n: "n \<le> length s" "take (length p) (drop n s) = p"
    unfolding memmem_def by (auto simp: find_suffix_None_iff has_prefix_def)
  then have "length p \<le> length s - n" by (metis length_drop length_take min.cobounded1)
  then have "n \<le> length (s @ t)" "has_prefix p (drop n (s @ t))" using n by (auto simp: has_prefix_def)
  then show False using assms by (auto simp: memmem_def find_suffix_None_iff)
qed

text \<open>The check of the path so far fails.\<close>

definition refuses :: "Env \<Rightarrow> Connection \<Rightarrow> bool" where
  "refuses env c \<longleftrightarrow> inbuf c \<noteq> [] \<and> e_malloc env 5 \<and> \<not> snd (validate_path_early c (inbuf c))"

lemma scanning_scan_ok:
  assumes "scanning c"
  shows "scan_ok c"
proof -
  have "scan_ok (c\<lparr>inbuf := inbuf c @ []\<rparr>)" using assms unfolding scanning_def by blast
  then show ?thesis by simp
qed

lemma read_partial:
  assumes "scanning c" "memmem end_mark (inbuf c) = None" "fits w c (length (inbuf c))"
  shows "if refuses env c
    then \<exists>k b. read_headers env y w c = (bump Errors_parse w, Some (marked k b (refused c)))
    else \<exists>k b. read_headers env y w c = (w, Some (marked k b c)) \<and> scanning (marked k b c)"
proof -
  define k where "k = (if length (inbuf c) > 3 then length (inbuf c) - 3 else 0)"
  note ok = scanning_scan_ok [OF assms(1)]
  have none: "memmem end_mark (drop (headers_scanned c) (inbuf c)) = None" using scan_resume [OF ok] assms(2) by simp
  have promote: "try_promote_tier w c (length (inbuf c)) = ((w, c), True)"
    using assms(3) by (simp add: try_promote_tier_def fits_def)
  have m: "c\<lparr>headers_scanned := k\<rparr> = marked k (path_validated c) c" by (simp add: marked_def)
  have scan: "scanning (marked k b c)" for b
    using assms(1,2) scan_ok_advance [of "inbuf c"] by (auto simp: scanning_def marked_def plain_http1_def k_def)
  obtain c1 v where val: "validate_path_early c (inbuf c) = (c1, v)" by force
  obtain b' where v': "validate_path_early (marked k (path_validated c) c) (inbuf c) = (marked k b' c1, v)"
    using validate_early_marked [OF val] by blast
  have read: "read_headers env y w c =
      (if length (inbuf c) > 0 \<and> e_malloc env 5 then
         if v then (w, Some (marked k b' c1))
         else (bump Errors_parse w,
           Some (connection_send_error 400 ''Bad Request - Invalid Characters'' (marked k b' c1)))
       else (w, Some (marked k (path_validated c) c)))"
    using assms(3) unfolding read_headers_def Let_def promote prod.case bool.case none option.case k_def [symmetric] m
    by (simp add: v' fits_def)
  show ?thesis
  proof (cases "refuses env c")
    case True
    then have no: "\<not> v" by (simp add: refuses_def val)
    then have "c1 = c\<lparr>validation_failed := True\<rparr>"
      using validate_early_reject [of c "inbuf c" c1] assms(1) val by (simp add: scanning_def)
    then have "read_headers env y w c = (bump Errors_parse w, Some (marked k b' (refused c)))"
      using True no by (simp add: read refused_def refuses_def)
    then show ?thesis using True by auto
  next
    case False
    then have "read_headers env y w c = (w, Some (marked k (path_validated c) c))
        \<or> v \<and> read_headers env y w c = (w, Some (marked k b' c1))"
      by (auto simp: read refuses_def val)
    moreover have "marked k b' c1 = marked k b' c" if v
      using validate_early_accept [of c "inbuf c" c1] val that by (auto simp: marked_def)
    ultimately obtain b where "read_headers env y w c = (w, Some (marked k b c))" by metis
    then show ?thesis using False scan by auto
  qed
qed

lemma refused_marked [simp]: "refused (marked k b c) = marked k b (refused c)"
  by (simp add: refused_def)

lemma refused_fields [simp]:
  "c_state (refused c) = CONN_STATE_CLOSING" "plain_http1 (refused c) = plain_http1 c" "in_time (refused c) = in_time c"
  "inbuf (refused c) = inbuf c" "refused (c\<lparr>inbuf := i\<rparr>) = (refused c)\<lparr>inbuf := i\<rparr>"
  by (simp_all add: refused_def connection_send_error_def connection_send_response_def finish_response_def conn_option_def
      plain_http1_def in_time_def fun_eq_iff Let_def)

lemma marked_keeps [simp]:
  "c_state (marked k b c) = c_state c" "plain_http1 (marked k b c) = plain_http1 c" "in_time (marked k b c) = in_time c"
  "fits w (marked k b c) = fits w c" "(marked k b c)\<lparr>inbuf := i\<rparr> = marked k b (c\<lparr>inbuf := i\<rparr>)"
  "marked k b (marked k' b' c) = marked k b c"
  by (simp_all add: marked_def plain_http1_def in_time_def fits_def fun_eq_iff)

lemma inbuf_keeps [simp]:
  "plain_http1 (c\<lparr>inbuf := i\<rparr>) = plain_http1 c" "in_time (c\<lparr>inbuf := i\<rparr>) = in_time c"
  "fits w (c\<lparr>inbuf := i\<rparr>) = fits w c"
  by (simp_all add: plain_http1_def in_time_def fits_def fun_eq_iff)

lemma delivered_simps [simp]:
  "delivered [] = []" "delivered ((env, ri, data) # ds) = data @ delivered ds" "delivered (ds @ es) = delivered ds @ delivered es"
  by (simp_all add: delivered_def)

text \<open>Once the response that closes the connection is queued, further data only fills the buffer.\<close>

lemma deliver_closing:
  assumes "c_state c = CONN_STATE_CLOSING" "plain_http1 c" "\<forall>(env, ri, data) \<in> set ds. in_time c env"
  shows "deliver ds w c = (w, Some (c\<lparr>inbuf := inbuf c @ delivered ds\<rparr>))"
  using assms
proof (induction ds arbitrary: c)
  case Nil
  then show ?case by simp
next
  case (Cons d ds)
  obtain env ri data where d: "d = (env, ri, data)" by (metis prod.exhaust)
  let ?c = "c\<lparr>inbuf := inbuf c @ data\<rparr>"
  have "conn_read_cb env ri w ?c = (w, Some ?c)"
    using Cons.prems d by (simp add: read_cb_http1 read_http1_def)
  then show ?case using Cons.IH [of ?c] Cons.prems d by (simp add: conn_then_def)
qed

lemma validate_early_cong:
  assumes "validation_failed c = validation_failed c'"
  shows "snd (validate_path_early c s) = snd (validate_path_early c' s)"
  using assms by (simp add: validate_path_early_def Let_def split: option.splits)

lemma scanning_append: "scanning c \<Longrightarrow> scanning (c\<lparr>inbuf := inbuf c @ t\<rparr>)"
  by (simp add: scanning_def)

lemma deliver_partial:
  assumes "scanning c" "memmem end_mark (inbuf c @ delivered ds) = None" "fits w c (length (inbuf c @ delivered ds))"
    "\<forall>(env, ri, data) \<in> set ds. in_time c env"
  shows "(\<exists>k b. deliver ds w c = (w, Some (marked k b (c\<lparr>inbuf := inbuf c @ delivered ds\<rparr>)))
        \<and> scanning (marked k b (c\<lparr>inbuf := inbuf c @ delivered ds\<rparr>)))
    \<or> (\<exists>k b. deliver ds w c = (bump Errors_parse w, Some (marked k b (refused (c\<lparr>inbuf := inbuf c @ delivered ds\<rparr>))))
        \<and> \<not> snd (validate_path_early c (inbuf c @ delivered ds)))"
  using assms
proof (induction ds arbitrary: c)
  case Nil
  have "marked (headers_scanned c) (path_validated c) (c\<lparr>inbuf := inbuf c @ delivered []\<rparr>) = c" by (simp add: marked_def)
  then show ?case using Nil.prems(1)
    by (intro disjI1 exI [of _ "headers_scanned c"] exI [of _ "path_validated c"]) (simp only: deliver.simps simp_thms)
next
  case (Cons d ds)
  obtain env ri data where d: "d = (env, ri, data)" by (metis prod.exhaust)
  let ?c = "c\<lparr>inbuf := inbuf c @ data\<rparr>" and ?all = "inbuf c @ delivered (d # ds)"
  have scan: "scanning ?c" by (rule scanning_append [OF Cons.prems(1)])
  have none: "memmem end_mark (inbuf ?c) = None" using Cons.prems(2) memmem_prefix_None d by simp
  have room: "fits w ?c (length (inbuf ?c))" using Cons.prems(3) by (auto simp: d elim: fits_mono)
  have cb: "conn_read_cb env ri w ?c = read_headers env (ri_beyond ri) w ?c"
    using Cons.prems(4) scan by (simp add: d scanning_def read_cb_http1 read_http1_def)
  consider (more) k b where "read_headers env (ri_beyond ri) w ?c = (w, Some (marked k b ?c))" "scanning (marked k b ?c)"
    | (refuse) k b where "read_headers env (ri_beyond ri) w ?c = (bump Errors_parse w, Some (marked k b (refused ?c)))"
        "\<not> snd (validate_path_early ?c (inbuf ?c))"
    using read_partial [OF scan none room, of env "ri_beyond ri"] by (auto simp: refuses_def split: if_splits)
  then show ?case
  proof cases
    case more
    have "deliver (d # ds) w c = deliver ds w (marked k b ?c)" using more(1) by (simp add: d cb conn_then_def)
    moreover have "snd (validate_path_early (marked k b ?c) ?all) = snd (validate_path_early c ?all)"
      by (rule validate_early_cong) simp
    ultimately show ?thesis using Cons.IH [OF more(2)] Cons.prems(2,3,4) by (simp add: d)
  next
    case refuse
    have "deliver ds (bump Errors_parse w) (marked k b (refused ?c))
        = (bump Errors_parse w, Some (marked k b (refused (c\<lparr>inbuf := ?all\<rparr>))))"
      using deliver_closing [of "marked k b (refused ?c)" ds "bump Errors_parse w"] Cons.prems(4) scan
      by (simp add: d scanning_def)
    then have "deliver (d # ds) w c = (bump Errors_parse w, Some (marked k b (refused (c\<lparr>inbuf := ?all\<rparr>))))"
      using refuse(1) by (simp add: d cb conn_then_def)
    moreover have "\<not> snd (validate_path_early c ?all)"
      using validate_early_reject_extends [of ?c "inbuf ?c" "delivered ds"] refuse(2) scan
        validate_early_cong [of ?c c ?all] by (simp add: d scanning_def)
    ultimately show ?thesis by blast
  qed
qed

subsection \<open>The last piece\<close>

lemma read_complete:
  assumes "scanning c" "memmem end_mark (inbuf c) = Some n" "fits w c (length (inbuf c))"
  shows "read_headers env y w c = read_header_block env y n w c"
proof -
  have "map_option (\<lambda>n. headers_scanned c + n) (memmem end_mark (drop (headers_scanned c) (inbuf c))) = Some n"
    using scan_resume [OF scanning_scan_ok [OF assms(1)]] assms(2) by simp
  then obtain m where m: "memmem end_mark (drop (headers_scanned c) (inbuf c)) = Some m" "headers_scanned c + m = n" by auto
  have promote: "try_promote_tier w c (length (inbuf c)) = ((w, c), True)"
    using assms(3) by (simp add: try_promote_tier_def fits_def)
  show ?thesis using assms(3) unfolding read_headers_def Let_def promote prod.case bool.case m option.case
    by (simp add: fits_def)
qed

lemma read_waiting:
  assumes "scanning c" "memmem end_mark (inbuf c) = None" "fits w c (length (inbuf c))"
  shows "settled_result (read_headers env y w c)
    = settled_result (if refuses env c then (bump Errors_parse w, Some (refused c)) else (w, Some c))"
  using read_partial [OF assms, of env y] by (auto simp: settled_result_def split: if_splits)

lemma read_headers_marked:
  assumes "scanning c" "scanning (marked k b c)" "fits w c (length (inbuf c))"
  shows "settled_result (read_headers env y w (marked k b c)) = settled_result (read_headers env y w c)"
proof (cases "memmem end_mark (inbuf c)")
  case None
  have "refuses env (marked k b c) = refuses env c"
    using validate_early_cong [of "marked k b c" c "inbuf c"] by (simp add: refuses_def)
  then show ?thesis using None read_waiting [of c w env y] read_waiting [of "marked k b c" w env y] assms
    by (simp add: settled_result_def)
next
  case (Some n)
  then show ?thesis using read_complete [of c n w env y] read_complete [of "marked k b c" n w env y] assms
    by (simp add: header_block_marked)
qed

text \<open>What the early check refuses, the check of the complete headers refuses as well.\<close>

lemma read_refused:
  assumes "scanning c" "inbuf c = s @ t" "memmem end_mark s = None" "fits w c (length (inbuf c))"
    and bad: "\<not> snd (validate_path_early c s)" and "e_malloc env 5" "e_malloc env 6"
  shows "settled_result (read_headers env y w c) = settled_result (bump Errors_parse w, Some (refused c))"
proof (cases "memmem end_mark (inbuf c)")
  case None
  have ok: "\<not> validation_failed c" using assms(1) by (simp add: scanning_def)
  have "\<not> snd (validate_path_early c (inbuf c))" using validate_early_reject_extends [OF ok bad] assms(2) by simp
  moreover have "inbuf c \<noteq> []" using bad ok assms(2) by (auto simp: validate_path_early_def memchr_def)
  ultimately show ?thesis using read_waiting [OF assms(1) None assms(4)] assms(6) by (simp add: refuses_def)
next
  case (Some n)
  let ?c = "c\<lparr>headers_end := n + 4\<rparr>"
  have ok: "\<not> validation_failed ?c" using assms(1) by (simp add: scanning_def)
  have n: "n \<le> length (inbuf c)" "has_prefix end_mark (drop n (inbuf c))"
    using find_suffix_SomeD [of "has_prefix end_mark" "inbuf c" n] Some by (auto simp: memmem_def)
  have "length s < n + 4"
  proof (rule ccontr)
    assume "\<not> length s < n + 4"
    then have "n + length end_mark \<le> length s" by simp
    then have "has_prefix end_mark (drop n s)" using has_prefix_drop_append n(2) assms(2) by metis
    then show False using assms(3) \<open>\<not> length s < n + 4\<close> by (auto simp: memmem_def find_suffix_None_iff)
  qed
  then have h: "take (n + 4) (inbuf c) = s @ take (n + 4 - length s) t" using assms(2) by simp
  have "\<not> snd (validate_path_early ?c s)" using bad validate_early_cong [of ?c c s] by simp
  then have "validate_path_early ?c (take (n + 4) (inbuf c)) = (?c\<lparr>validation_failed := True\<rparr>, False)"
    unfolding h by (rule validate_early_reject_extends [OF ok])
  then have "read_headers env y w c = (bump Errors_parse w, Some (refused ?c))"
    unfolding read_complete [OF assms(1) Some assms(4)]
    using assms(7) by (simp add: read_header_block_def Let_def refused_def)
  moreover have "settled (refused ?c) = settled (refused c)"
    by (simp add: settled_def refused_def connection_send_error_def connection_send_response_def finish_response_def
        conn_option_def Let_def)
  ultimately show ?thesis by (simp add: settled_result_def)
qed

lemma deliver_append: "deliver (ds @ es) w c = conn_then (deliver ds w c) (deliver es)"
  by (induction ds w c rule: deliver.induct) (auto simp: conn_then_def split: prod.splits option.splits)



end
