(* ===== verification/Protocols.thy ===== *)
theory Protocols
  imports ConnectionFacts
begin

text \<open>
  The two request processors, \<open>process_request\<close> of \<^verbatim>\<open>src/src/connection.c\<close> for HTTP/1.1 and
  \<open>h2_process_stream_request\<close> of \<^verbatim>\<open>src/src/http2.c\<close> for HTTP/2, against one specification of the
  answer to a path.
\<close>

subsection \<open>The answer to a path\<close>

text \<open>Status, content type and body, by the route of the path. The request itself is counted first.\<close>

definition route_answer :: "Env \<Rightarrow> WorkerProcess \<Rightarrow> string \<Rightarrow> RouteType \<Rightarrow> int \<times> string \<times> string" where
  "route_answer env w path route = (case route of
     ROUTE_HEALTH \<Rightarrow> (200, ''application/json'', fst (generate_health_body env w 1024))
   | ROUTE_READY \<Rightarrow> (if draining w then 503 else 200, ''text/plain'', [])
   | ROUTE_ALIVE \<Rightarrow> (200, ''text/plain'', [])
   | ROUTE_VERSION \<Rightarrow> (200, ''application/json'', version_body)
   | ROUTE_METRICS \<Rightarrow> (200, ''text/plain; version=0.0.4; charset=utf-8'', fst (generate_metrics_body env w 16384))
   | ROUTE_ACME_CHALLENGE \<Rightarrow> (case acme_challenge_h1 env (w_config w) path of
        Some content \<Rightarrow> (200, ''text/plain'', content)
      | None \<Rightarrow> (404, ''text/plain'', ''Not Found''))
   | _ \<Rightarrow> (let file = static_file_for (w_static_files w) route in
        (if route = ROUTE_ERROR then 404 else 200, sf_content_type file, take (sf_length file) (sf_content file))))"

definition answer :: "Env \<Rightarrow> WorkerProcess \<Rightarrow> string \<Rightarrow> int \<times> string \<times> string" where
  "answer env w path = (let route = route_request path in route_answer env (update_endpoint_counter route w) path route)"

text \<open>The response text that HTTP/1.1 adds carries the answer with its type and length.\<close>

definition h1_carries :: "int \<times> string \<times> string \<Rightarrow> Connection \<Rightarrow> Connection \<Rightarrow> bool" where
  "h1_carries ans c c' \<longleftrightarrow> (case ans of (code, ctype, body) \<Rightarrow>
     \<exists>reason hs. outbuf c' = outbuf c @ response_text code reason hs body \<and> response_status c' = code
       \<and> (''Content-Type'', ctype) \<in> set hs \<and> (''Content-Length'', fmt_u (length body)) \<in> set hs)"

lemma h1_carries_finish:
  assumes "(''Content-Type'', ctype) \<in> set hs" "(''Content-Length'', fmt_u (length body)) \<in> set hs"
  shows "h1_carries (code, ctype, body) c (finish_response (response_text code reason hs body) code n stay c)"
  using assms by (auto simp: h1_carries_def finish_response_def)

lemma h1_carries_state: "h1_carries ans (c\<lparr>c_state := s\<rparr>) c' = h1_carries ans c c'"
  by (simp add: h1_carries_def split: prod.splits)

lemma probe_headers_carry [simp]:
  "(''Content-Type'', t) \<in> set (probe_headers t n opt c)" "(''Content-Length'', fmt_u n) \<in> set (probe_headers t n opt c)"
  by (simp_all add: probe_headers_def)

lemma static_carries:
  "file_ok f \<Longrightarrow> h1_carries (code, sf_content_type f, take (sf_length f) (sf_content f)) c (serve_static_file cfg f code txt c)"
  unfolding serve_static_file_def by (rule h1_carries_finish) (simp_all add: file_ok_def)

lemma serve_carries:
  "h1_carries (200, ''application/json'', fst (generate_health_body env w 1024)) c (serve_health env w c)"
  "h1_carries (if draining w then 503 else 200, ''text/plain'', []) c (serve_ready w c)"
  "h1_carries (200, ''application/json'', version_body) c (serve_version c)"
  "h1_carries (200, ''text/plain'', []) c (serve_alive c)"
  "h1_carries (200, ''text/plain; version=0.0.4; charset=utf-8'', fst (generate_metrics_body env w 16384)) c (serve_metrics env w c)"
proof -
  obtain hb hl where h: "generate_health_body env w 1024 = (hb, hl)" by force
  have hl: "hl = length hb" using generate_health_length [OF h] by simp
  show "h1_carries (200, ''application/json'', fst (generate_health_body env w 1024)) c (serve_health env w c)"
    unfolding serve_health_def h prod.case fst_conv hl by (rule h1_carries_finish) simp_all
  obtain mb ml where m: "generate_metrics_body env w 16384 = (mb, ml)" by force
  note ml = generate_metrics_length [OF m]
  show "h1_carries (200, ''text/plain; version=0.0.4; charset=utf-8'', fst (generate_metrics_body env w 16384)) c (serve_metrics env w c)"
    unfolding serve_metrics_def m prod.case fst_conv ml by (rule h1_carries_finish) simp_all
  show "h1_carries (if draining w then 503 else 200, ''text/plain'', []) c (serve_ready w c)"
    unfolding serve_ready_def Let_def by (rule h1_carries_finish) (simp_all add: probe_headers_def)
  show "h1_carries (200, ''application/json'', version_body) c (serve_version c)"
    unfolding serve_version_def by (rule h1_carries_finish) simp_all
  show "h1_carries (200, ''text/plain'', []) c (serve_alive c)"
    unfolding serve_alive_def by (rule h1_carries_finish) (simp_all add: probe_headers_def)
qed

lemma acme_carries:
  "h1_carries (case acme_challenge_h1 env cfg (conn_path c) of
      Some content \<Rightarrow> (200, ''text/plain'', content) | None \<Rightarrow> (404, ''text/plain'', ''Not Found'')) c (serve_acme_challenge env cfg c)"
proof (cases "acme_challenge_h1 env cfg (conn_path c)")
  case None
  show ?thesis unfolding serve_acme_challenge_def None option.case
    by (rule h1_carries_finish) (simp_all add: probe_headers_def numeral_eq_Suc)
next
  case (Some content)
  show ?thesis unfolding serve_acme_challenge_def Some option.case by (rule h1_carries_finish) simp_all
qed

lemma process_request_carries:
  assumes "files_ok (w_static_files w)"
  shows "h1_carries (answer env w (conn_path c)) c (snd (process_request env (w, c)))"
proof -
  let ?c = "c\<lparr>c_state := CONN_STATE_PROCESSING\<rparr>"
  define r where "r = route_request (conn_path c)"
  define w1 where "w1 = update_endpoint_counter r w"
  have path: "conn_path ?c = conn_path c" by (simp add: conn_path_def)
  have files: "files_ok (w_static_files w1)" using assms by (simp add: w1_def)
  have "h1_carries (route_answer env w1 (conn_path c) r) ?c (snd (process_request env (w, c)))"
    using files serve_carries(1,5) [of env w1 ?c] serve_carries(2) [of w1 ?c] serve_carries(3,4) [of ?c]
      acme_carries [of env "w_config w1" ?c]
    unfolding process_request_def prod.case Let_def path r_def [symmetric] w1_def [symmetric]
    by (cases r) (auto simp: route_answer_def path files_ok_def Let_def intro!: static_carries)
  then show ?thesis by (simp add: h1_carries_state answer_def Let_def r_def w1_def)
qed

subsection \<open>HTTP/2\<close>

lemma stream_upd_submitted [simp]: "h2_submitted (h2_stream_upd sid f h2) = h2_submitted h2"
  by (simp add: h2_stream_upd_def)

lemma close_submitted: "h2_submitted (snd (h2_on_stream_close_callback env sid st)) = h2_submitted (snd st)"
  by (cases st) (simp add: h2_on_stream_close_callback_def h2_stream_free_def Let_def split: option.split)

lemma closes_submitted: "h2_submitted (snd (fold (h2_on_stream_close_callback env) closes st)) = h2_submitted (snd st)"
  by (induction closes arbitrary: st) (simp_all add: close_submitted)

lemma downgrade_submitted [simp]: "h2_submitted (snd (h2_downgrade_tier_to_normal w h2 sid)) = h2_submitted h2"
  by (simp add: h2_downgrade_tier_to_normal_def Let_def split: option.split prod.split bool.split)

definition stream_request_id :: "H2Connection \<Rightarrow> int \<Rightarrow> string" where
  "stream_request_id h2 sid = (case h2_stream_find h2 sid of None \<Rightarrow> [] | Some s \<Rightarrow> hs_request_id s)"

lemma send_response_submitted:
  assumes "e_malloc env 1" "e_malloc env 2" "e_malloc env 3"
  shows "h2_submitted (snd (fst (h2_send_response env closes sid code ctype body (w, h2)))) =
    \<lparr>h2r_stream = sid, h2r_headers = h2_response_headers (w_config w) (stream_request_id h2 sid) code ctype (length body),
      h2r_body = body\<rparr> # h2_submitted h2"
  using assms by (simp add: h2_send_response_def h2_send_pending_def closes_submitted stream_request_id_def Let_def)

definition h2_carries :: "Config \<Rightarrow> int \<Rightarrow> int \<times> string \<times> string \<Rightarrow> H2Connection \<Rightarrow> H2Connection \<Rightarrow> bool" where
  "h2_carries cfg sid ans h2 h2' \<longleftrightarrow> (case ans of (code, ctype, body) \<Rightarrow>
     h2_submitted h2' = \<lparr>h2r_stream = sid, h2r_headers = h2_response_headers cfg (stream_request_id h2 sid) code ctype (length body),
       h2r_body = body\<rparr> # h2_submitted h2)"

lemma respond_carries:
  assumes "e_malloc env 1" "e_malloc env 2" "e_malloc env 3"
  shows "h2_carries (w_config w) sid (route_answer env w path r) h2 (snd (fst (h2_respond env closes sid path r (w, h2))))"
  by (cases r) (simp_all add: h2_carries_def h2_respond_def route_answer_def Let_def send_response_submitted [OF assms]
      serve_acme_challenge_h2_def acme_lookup_same case_prod_unfold split: option.split)

lemma process_stream_carries:
  assumes "e_malloc env 1" "e_malloc env 2" "e_malloc env 3"
  shows "h2_carries (w_config w) sid (answer env w (stream_path s)) h2
    (snd (h2_process_stream_request env closes sid s (w, h2)))"
proof -
  let ?r = "route_request (stream_path s)"
  let ?w = "update_endpoint_counter ?r w"
  obtain w2 h2b code n where r: "h2_respond env closes sid (stream_path s) ?r (?w, h2) = ((w2, h2b), code, n)"
    by (metis prod.exhaust)
  have "h2_submitted (snd (h2_process_stream_request env closes sid s (w, h2))) = h2_submitted h2b"
    by (simp add: h2_process_stream_request_def Let_def r)
  then show ?thesis
    using respond_carries [OF assms, of ?w sid "stream_path s" ?r h2 closes] r
    by (simp add: h2_carries_def answer_def Let_def split: prod.splits)
qed

text \<open>
  C10. HTTP/1.1 and HTTP/2 answer alike: for the same path in the same state of the worker, the
  response that HTTP/1.1 writes and the response that HTTP/2 submits have the status,
  the content type, the content length and the body of one specification of the answer, on every
  route: the probes, the metrics, challenges found or not, the pages and the error page. (The lengths of the static files are those of
  their contents; HTTP/2 has memory for the response.)
\<close>

theorem protocols_answer_alike:
  assumes "files_ok (w_static_files w)" "e_malloc env 1" "e_malloc env 2" "e_malloc env 3"
    and "conn_path c = stream_path s" "answer env w (stream_path s) = (code, ctype, body)"
  shows "(\<exists>reason hs. outbuf (snd (process_request env (w, c))) = outbuf c @ response_text code reason hs body
      \<and> (''Content-Type'', ctype) \<in> set hs \<and> (''Content-Length'', fmt_u (length body)) \<in> set hs)
    \<and> (\<exists>cc. hd (h2_submitted (snd (h2_process_stream_request env closes sid s (w, h2)))) =
        \<lparr>h2r_stream = sid, h2r_headers = [('':status'', fmt_d code), (''content-type'', ctype), (''content-length'', fmt_u (length body)),
            (''x-request-id'', stream_request_id h2 sid), (''cache-control'', cc)], h2r_body = body\<rparr>)"
  using process_request_carries [OF assms(1), of env c] process_stream_carries [OF assms(2-4), of w sid s h2 closes] assms(5,6)
  by (auto simp: h1_carries_def h2_carries_def h2_response_headers_def)

theorem protocols_answer_alike_witness:
  "\<forall>env0 w0 c0 s0 h2. let env = env0\<lparr>e_malloc := (\<lambda>_. True)\<rparr>;
      f = \<lparr>sf_content = ''hi'', sf_length = 2, sf_content_type = ''text/html; charset=utf-8''\<rparr>;
      w = w0\<lparr>w_static_files := \<lparr>sf_index = f, sf_broadcast = f, sf_result = f, sf_error = f, sf_docs = f, sf_status = f,
        sf_logos = f\<rparr>\<rparr>;
      c = c0\<lparr>c_path := Some ''/'', c_path_len := 1\<rparr>; s = s0\<lparr>hs_path := Some ''/'', hs_path_len := 1\<rparr> in
    (\<exists>reason hs. outbuf (snd (process_request env (w, c))) = outbuf c @ response_text 200 reason hs ''hi'')
    \<and> h2r_body (hd (h2_submitted (snd (h2_process_stream_request env [] 1 s (w, h2))))) = ''hi''"
proof (intro allI)
  fix env0 :: Env and w0 :: WorkerProcess and c0 :: Connection and s0 :: H2Stream and h2 :: H2Connection
  let ?f = "\<lparr>sf_content = ''hi'', sf_length = 2, sf_content_type = ''text/html; charset=utf-8''\<rparr>"
  let ?w = "w0\<lparr>w_static_files := \<lparr>sf_index = ?f, sf_broadcast = ?f, sf_result = ?f, sf_error = ?f, sf_docs = ?f, sf_status = ?f,
      sf_logos = ?f\<rparr>\<rparr>"
  let ?env = "env0\<lparr>e_malloc := (\<lambda>_. True)\<rparr>" and ?c = "c0\<lparr>c_path := Some ''/'', c_path_len := 1\<rparr>"
  let ?s = "s0\<lparr>hs_path := Some ''/'', hs_path_len := 1\<rparr>"
  have "answer ?env ?w (stream_path ?s) = (200, ''text/html; charset=utf-8'', ''hi'')"
    by (simp add: answer_def route_answer_def stream_path_def route_request_def Let_def)
  from protocols_answer_alike [of ?w ?env ?c ?s, OF _ _ _ _ _ this, of "[]" 1 h2]
  show "let env = ?env; f = ?f; w = w0\<lparr>w_static_files := \<lparr>sf_index = f, sf_broadcast = f, sf_result = f, sf_error = f, sf_docs = f,
        sf_status = f, sf_logos = f\<rparr>\<rparr>; c = ?c; s = ?s in
    (\<exists>reason hs. outbuf (snd (process_request env (w, c))) = outbuf c @ response_text 200 reason hs ''hi'')
    \<and> h2r_body (hd (h2_submitted (snd (h2_process_stream_request env [] 1 s (w, h2))))) = ''hi''"
    unfolding Let_def by (auto simp: files_ok_def file_ok_def conn_path_def stream_path_def)
qed

end
