(* ===== verification/Master.thy ===== *)
theory Master
  imports Config
begin

text \<open>
  \<^verbatim>\<open>src/src/master.c\<close> and \<^verbatim>\<open>src/src/main.c\<close>: the process that forks the workers, restarts them, reloads
  the configuration and shuts down. The arrays of process ids are lists of their allocated length;
  an access behind the end of an array, and a store through the null pointer, is \<open>None\<close>. The
  array of the draining workers is the list of its used entries. The results of \<open>fork\<close>, \<open>waitpid\<close>, \<open>getrlimit\<close> and the allocations are parameters; a worker is
  only known by its process id here.
\<close>

record MasterProcess =
  m_config :: "Config option"
  num_workers :: nat
  worker_pids :: "int list"
  draining_pids :: "int list option"
  shutdown_requested :: bool
  reload_requested :: bool

subsection \<open>Initialisation\<close>

text \<open>The soft and hard limits, whether raising succeeds, and the soft limit read again if not.\<close>

record FdLimits =
  fl_get :: "(u64 \<times> u64) option"
  fl_set :: bool
  fl_again :: u64

definition check_fd_limits :: "FdLimits \<Rightarrow> nat \<Rightarrow> int \<Rightarrow> int" where
  "check_fd_limits fl workers slots_per_worker = (case fl_get fl of
     None \<Rightarrow> 0
   | Some (rlim_cur, rlim_max) \<Rightarrow>
      let per_worker = of_int slots_per_worker + 15 :: u64;
          required = of_nat workers * per_worker + 50;
          minimum = of_nat workers * 20 + 20;
          cur = (if rlim_cur < required then
                   (let new_limit = (if required < rlim_max then required else rlim_max) in
                    if fl_set fl then new_limit else fl_again fl)
                 else rlim_cur) in
      if cur < minimum then -1 else 0)"

text \<open>Between 1 and 64 workers: the configured number, or one per processor.\<close>

definition worker_count :: "int \<Rightarrow> Config \<Rightarrow> nat" where
  "worker_count cpus config =
    (let n = (if max_connections config \<le> 0 then cpus else max_connections config);
         n1 = (if n < 1 then 1 else n) in
     nat (if n1 > 64 then 64 else n1))"

definition master_init :: "Config option \<Rightarrow> int \<Rightarrow> FdLimits \<Rightarrow> bool \<Rightarrow> MasterProcess option" where
  "master_init loaded cpus fl calloc_ok = (case loaded of
     None \<Rightarrow> None
   | Some config \<Rightarrow>
      let n = worker_count cpus config;
          total_slots = slots_normal_max config + slots_large_max config + slots_huge_max config in
      if check_fd_limits fl n total_slots < 0 then None
      else if \<not> calloc_ok then None
      else Some \<lparr>m_config = Some config, num_workers = n, worker_pids = replicate n 0, draining_pids = None,
                 shutdown_requested = False, reload_requested = False\<rparr>)"

subsection \<open>Workers\<close>

text \<open>The loop over the workers; \<open>forks i\<close> is the result of forking worker \<open>i\<close>.\<close>

fun start_loop :: "(nat \<Rightarrow> int) \<Rightarrow> int list \<Rightarrow> nat \<Rightarrow> nat \<Rightarrow> int list option" where
  "start_loop forks pids i 0 = Some pids"
| "start_loop forks pids i (Suc n) =
    (if i < length pids then start_loop forks (pids[i := forks i]) (Suc i) n else None)"

definition start_workers :: "(nat \<Rightarrow> int) \<Rightarrow> MasterProcess \<Rightarrow> MasterProcess option" where
  "start_workers forks m =
    map_option (\<lambda>pids. m\<lparr>worker_pids := pids\<rparr>) (start_loop forks (worker_pids m) 0 (num_workers m))"

fun pid_index :: "int \<Rightarrow> int list \<Rightarrow> nat \<Rightarrow> nat option" where
  "pid_index pid [] i = None"
| "pid_index pid (p # ps) i = (if p = pid then Some i else pid_index pid ps (Suc i))"

definition find_worker_by_pid :: "MasterProcess \<Rightarrow> int \<Rightarrow> nat option" where
  "find_worker_by_pid m pid = pid_index pid (take (num_workers m) (worker_pids m)) 0"

text \<open>The entry is overwritten by the last one and the list is shortened.\<close>

definition remove_draining_worker :: "MasterProcess \<Rightarrow> int \<Rightarrow> MasterProcess \<times> bool" where
  "remove_draining_worker m pid = (case draining_pids m of
     None \<Rightarrow> (m, False)
   | Some ds \<Rightarrow> (case pid_index pid ds 0 of
        None \<Rightarrow> (m, False)
      | Some i \<Rightarrow> (m\<lparr>draining_pids := Some (butlast (ds[i := last ds]))\<rparr>, True)))"

definition handle_worker_exit :: "(nat \<Rightarrow> int) \<Rightarrow> MasterProcess \<Rightarrow> int \<Rightarrow> MasterProcess" where
  "handle_worker_exit forks m pid = (case remove_draining_worker m pid of
     (m1, True) \<Rightarrow> m1
   | (m1, False) \<Rightarrow> (case find_worker_by_pid m1 pid of
        None \<Rightarrow> m1
      | Some worker_id \<Rightarrow>
         if \<not> shutdown_requested m1 then m1\<lparr>worker_pids := (worker_pids m1)[worker_id := forks worker_id]\<rparr>
         else m1\<lparr>worker_pids := (worker_pids m1)[worker_id := 0]\<rparr>))"

text \<open>The processes that get \<open>SIGUSR1\<close>.\<close>

definition master_shutdown_workers :: "MasterProcess \<Rightarrow> int list" where
  "master_shutdown_workers m = filter (\<lambda>p. p > 0) (take (num_workers m) (worker_pids m))"

text \<open>
  Waiting: the results of \<open>waitpid\<close> until the deadline. Another error than \<open>EINTR\<close> ends the loop.
  The result is the process table, the number still counted and the processes reaped.
\<close>

datatype WaitResult = Reaped int | No_child | Wait_EINTR | Wait_error

fun wait_loop :: "WaitResult list \<Rightarrow> int list \<Rightarrow> nat \<Rightarrow> int list \<times> nat" where
  "wait_loop [] pids remaining = (pids, remaining)"
| "wait_loop (r # rs) pids remaining =
    (if remaining = 0 then (pids, remaining)
     else case r of
       Reaped pid \<Rightarrow>
         if pid > 0 then
           (case pid_index pid pids 0 of
              Some i \<Rightarrow> wait_loop rs (pids[i := 0]) (remaining - 1)
            | None \<Rightarrow> wait_loop rs pids remaining)
         else wait_loop rs pids remaining
     | No_child \<Rightarrow> wait_loop rs pids remaining
     | Wait_EINTR \<Rightarrow> wait_loop rs pids remaining
     | Wait_error \<Rightarrow> (pids, remaining))"

text \<open>The second component is the list of processes that get \<open>SIGKILL\<close>.\<close>

definition wait_for_workers :: "WaitResult list \<Rightarrow> MasterProcess \<Rightarrow> MasterProcess \<times> int list" where
  "wait_for_workers rs m =
    (let pids = take (num_workers m) (worker_pids m);
         remaining = length (filter (\<lambda>p. p > 0) pids) in
     case wait_loop rs pids remaining of (pids1, remaining1) \<Rightarrow>
       if remaining1 > 0 then
         (m\<lparr>worker_pids := map (\<lambda>p. if p > 0 then 0 else p) pids1 @ drop (num_workers m) (worker_pids m)\<rparr>,
          filter (\<lambda>p. p > 0) pids1)
       else (m\<lparr>worker_pids := pids1 @ drop (num_workers m) (worker_pids m)\<rparr>, []))"

text \<open>
  Reload: the new configuration or \<open>None\<close>, the outcome of allocating the array of draining workers
  and the forks. The result is the state and the processes that get \<open>SIGUSR1\<close>.
\<close>

definition master_reload :: "Config option \<Rightarrow> bool \<Rightarrow> (nat \<Rightarrow> int) \<Rightarrow> MasterProcess \<Rightarrow> (MasterProcess \<times> int list) option" where
  "master_reload loaded calloc_ok forks m = (case loaded of
     None \<Rightarrow> Some (m, [])
   | Some new_config \<Rightarrow>
      let old = filter (\<lambda>p. p > 0) (take (num_workers m) (worker_pids m)) in
      if draining_pids m = None \<and> \<not> calloc_ok \<and> old \<noteq> [] then None
      else Some
        (m\<lparr>draining_pids := (if draining_pids m = None \<and> \<not> calloc_ok then None else Some old), m_config := Some new_config,
           worker_pids := map (\<lambda>(i, p). if i < num_workers m \<and> p > 0 then forks i else p) (enumerate 0 (worker_pids m))\<rparr>,
         master_shutdown_workers m))"

subsection \<open>The main loop\<close>

text \<open>
  What happens in a round: the results of a reload, the signals (\<open>SIGTERM\<close>, \<open>SIGHUP\<close>) that come before
  \<open>waitpid\<close>, its result, the forks, and the signals that come while the master sleeps.
\<close>

record MasterEnv =
  me_loaded :: "Config option"
  me_calloc :: bool
  me_reload_forks :: "nat \<Rightarrow> int"
  me_before :: "bool \<times> bool"
  me_wait :: WaitResult
  me_forks :: "nat \<Rightarrow> int"
  me_after :: "bool \<times> bool"

text \<open>The signal handlers only set flags.\<close>

definition sigterm_handler :: "MasterProcess \<Rightarrow> MasterProcess" where
  "sigterm_handler m = m\<lparr>shutdown_requested := True\<rparr>"

definition sighup_handler :: "MasterProcess \<Rightarrow> MasterProcess" where
  "sighup_handler m = m\<lparr>reload_requested := True\<rparr>"

definition signals :: "bool \<times> bool \<Rightarrow> MasterProcess \<Rightarrow> MasterProcess" where
  "signals sig m =
    (let m1 = (if fst sig then sigterm_handler m else m) in if snd sig then sighup_handler m1 else m1)"

text \<open>One round of the loop of \<open>master_run\<close>: the reload, if one is asked for, and the rest.\<close>

definition round_reload :: "MasterEnv \<Rightarrow> MasterProcess \<Rightarrow> MasterProcess option" where
  "round_reload env m =
    (if reload_requested m then
       map_option fst (master_reload (me_loaded env) (me_calloc env) (me_reload_forks env) (m\<lparr>reload_requested := False\<rparr>))
     else Some m)"

definition round_wait :: "MasterEnv \<Rightarrow> MasterProcess \<Rightarrow> MasterProcess" where
  "round_wait env m = (case me_wait env of
     Reaped pid \<Rightarrow> if pid > 0 then handle_worker_exit (me_forks env) m pid else m
   | _ \<Rightarrow> m)"

definition master_round :: "MasterEnv \<Rightarrow> MasterProcess \<Rightarrow> MasterProcess option" where
  "master_round env m =
    map_option (\<lambda>m1. signals (me_after env) (round_wait env (signals (me_before env) m1))) (round_reload env m)"

text \<open>
  The loop and the shutdown after it. \<open>Running\<close> is the state when the given rounds are over and the
  master has not been asked to stop; \<open>Stopped\<close> has the processes that got \<open>SIGUSR1\<close> and \<open>SIGKILL\<close>.
\<close>

datatype RunResult = Crashed | Running MasterProcess | Stopped MasterProcess "int list" "int list"

definition master_stop :: "WaitResult list \<Rightarrow> MasterProcess \<Rightarrow> RunResult" where
  "master_stop rs m = (case wait_for_workers rs m of (m1, killed) \<Rightarrow> Stopped m1 (master_shutdown_workers m) killed)"

primrec run_loop :: "WaitResult list \<Rightarrow> MasterEnv list \<Rightarrow> MasterProcess \<Rightarrow> RunResult" where
  "run_loop rs [] m = (if shutdown_requested m then master_stop rs m else Running m)"
| "run_loop rs (env # envs) m =
    (if shutdown_requested m then master_stop rs m
     else case master_round env m of None \<Rightarrow> Crashed | Some m1 \<Rightarrow> run_loop rs envs m1)"

definition master_run :: "(nat \<Rightarrow> int) \<Rightarrow> bool \<times> bool \<Rightarrow> MasterEnv list \<Rightarrow> WaitResult list \<Rightarrow> MasterProcess \<Rightarrow> RunResult" where
  "master_run forks sig envs rs m = (case start_workers forks m of
     None \<Rightarrow> Crashed
   | Some m1 \<Rightarrow> run_loop rs envs (signals sig m1))"

inductive master_step :: "MasterProcess \<Rightarrow> MasterProcess \<Rightarrow> bool" where
  signal: "master_step m (signals sig m)"
| round: "\<not> shutdown_requested m \<Longrightarrow> master_round env m = Some m' \<Longrightarrow> master_step m m'"

subsection \<open>Arguments\<close>

record Options =
  op_config_path :: string
  op_test :: bool
  op_benchmark :: bool
  op_workers :: nat

datatype ArgResult = Show_usage | Bad_workers | Run_with Options

definition worker_arg :: "string \<Rightarrow> nat option" where
  "worker_arg arg = (case strtol arg of (val, k, erange) \<Rightarrow>
     if erange \<or> k = 0 \<or> k \<noteq> length arg \<or> val \<le> 0 \<or> val > 64 then None else Some (nat val))"

fun parse_args :: "string list \<Rightarrow> Options \<Rightarrow> ArgResult" where
  "parse_args [] opts = Run_with opts"
| "parse_args (a # as) opts =
    (if a = ''-h'' \<or> a = ''--help'' then Show_usage
     else if a = ''-t'' \<or> a = ''--test'' then parse_args as (opts\<lparr>op_test := True\<rparr>)
     else if a = ''-b'' \<or> a = ''--benchmark'' then parse_args as (opts\<lparr>op_benchmark := True\<rparr>)
     else case as of
       n # as1 \<Rightarrow>
         if a = ''-w'' \<or> a = ''--workers'' then
           (case worker_arg n of None \<Rightarrow> Bad_workers | Some k \<Rightarrow> parse_args as1 (opts\<lparr>op_workers := k\<rparr>))
         else parse_args as (opts\<lparr>op_config_path := a\<rparr>)
     | [] \<Rightarrow> parse_args as (opts\<lparr>op_config_path := a\<rparr>))"

text \<open>What \<open>main\<close> changes in the initialised master before it runs.\<close>

definition apply_options :: "Options \<Rightarrow> MasterProcess \<Rightarrow> MasterProcess" where
  "apply_options opts m =
    (let m1 = (if op_workers opts > 0 then m\<lparr>num_workers := op_workers opts\<rparr> else m) in
     if op_benchmark opts then
       m1\<lparr>m_config := map_option (\<lambda>c. c\<lparr>rate_limit_rps := 0, rate_limit_burst := 0, slots_normal_max := 10000,
            slots_large_max := 1000, slots_huge_max := 100, max_connections := 10000\<rparr>) (m_config m1)\<rparr>
     else m1)"

text \<open>
  The program: the file system with the configuration, the answers of the operating system, the
  signals and rounds of the main loop and the results of \<open>waitpid\<close> after it.
\<close>

record MainEnv =
  mn_files :: "string \<Rightarrow> string option"
  mn_malloc :: bool
  mn_cpus :: int
  mn_limits :: FdLimits
  mn_calloc :: bool
  mn_forks :: "nat \<Rightarrow> int"
  mn_signals :: "bool \<times> bool"
  mn_rounds :: "MasterEnv list"
  mn_waits :: "WaitResult list"

datatype MainResult = Exit int MasterProcess | Exit_early int | Main_running MasterProcess | Main_crash

definition master_cleanup :: "MasterProcess \<Rightarrow> MasterProcess" where
  "master_cleanup m = m\<lparr>worker_pids := [], draining_pids := None, m_config := None\<rparr>"

definition default_options :: Options where
  "default_options = \<lparr>op_config_path = ''config.ini'', op_test = False, op_benchmark = False, op_workers = 0\<rparr>"

definition main :: "strtod \<Rightarrow> MainEnv \<Rightarrow> string list \<Rightarrow> MainResult" where
  "main strtod env args = (case parse_args args default_options of
     Show_usage \<Rightarrow> Exit_early 0
   | Bad_workers \<Rightarrow> Exit_early 1
   | Run_with opts \<Rightarrow>
      (case master_init (config_load strtod (mn_files env) (mn_malloc env) (Some (op_config_path opts)))
              (mn_cpus env) (mn_limits env) (mn_calloc env) of
         None \<Rightarrow> Exit_early 1
       | Some m0 \<Rightarrow>
          let m = apply_options opts m0 in
          if op_test opts then Exit 0 (master_cleanup m)
          else (case master_run (mn_forks env) (mn_signals env) (mn_rounds env) (mn_waits env) m of
              Crashed \<Rightarrow> Main_crash
            | Running m1 \<Rightarrow> Main_running m1
            | Stopped m1 signalled killed \<Rightarrow> Exit 0 (master_cleanup m1))))"

subsection \<open>Starting\<close>

lemma start_loop_Some:
  "start_loop forks pids i n \<noteq> None \<longleftrightarrow> n = 0 \<or> i + n \<le> length pids"
  by (induction n arbitrary: pids i) auto

lemma start_loop_length: "start_loop forks pids i n = Some pids' \<Longrightarrow> length pids' = length pids"
  by (induction n arbitrary: pids i) (force split: if_splits)+

lemma start_loop_pids:
  assumes "start_loop forks pids i n = Some pids'" "j < length pids"
  shows "length pids' = length pids \<and> pids' ! j = (if i \<le> j \<and> j < i + n then forks j else pids ! j)"
  using assms
proof (induction n arbitrary: pids i)
  case (Suc n)
  then have "start_loop forks (pids[i := forks i]) (Suc i) n = Some pids'" "i < length pids" by (auto split: if_splits)
  then show ?case using Suc.IH [of "pids[i := forks i]" "Suc i"] Suc.prems(2) by (auto simp: nth_list_update)
qed simp

lemma worker_count_range: "1 \<le> worker_count cpus config \<and> worker_count cpus config \<le> 64"
  by (auto simp: worker_count_def Let_def)

lemma master_init_pids:
  assumes "master_init loaded cpus fl calloc_ok = Some m"
  shows "length (worker_pids m) = num_workers m" "1 \<le> num_workers m \<and> num_workers m \<le> 64"
    "\<exists>config. loaded = Some config \<and> num_workers m = worker_count cpus config"
proof -
  obtain config where c: "loaded = Some config" "m = \<lparr>m_config = Some config, num_workers = worker_count cpus config,
      worker_pids = replicate (worker_count cpus config) 0, draining_pids = None, shutdown_requested = False, reload_requested = False\<rparr>"
    using assms by (auto simp: master_init_def Let_def split: option.splits if_splits)
  show "length (worker_pids m) = num_workers m" "1 \<le> num_workers m \<and> num_workers m \<le> 64"
    "\<exists>config. loaded = Some config \<and> num_workers m = worker_count cpus config"
    using c worker_count_range by simp_all
qed

text \<open>
  C32. The number of workers given with \<^verbatim>\<open>-w\<close> is not checked against the array of process ids, which was
  allocated for the configured number: starting the workers stays within the array exactly when the
  override is at most that number. A larger one, of which the argument parser admits all up to 64,
  makes \<open>start_workers\<close> write behind the end of the array.
\<close>

theorem worker_override_overruns:
  assumes "master_init (Some config) cpus fl calloc_ok = Some m" "op_workers opts > 0"
  shows "start_workers forks (apply_options opts m) = None \<longleftrightarrow> op_workers opts > worker_count cpus config"
proof -
  have "num_workers (apply_options opts m) = op_workers opts" "worker_pids (apply_options opts m) = worker_pids m"
    using assms(2) by (simp_all add: apply_options_def Let_def)
  then show ?thesis
    using master_init_pids(1,3) [OF assms(1)] start_loop_Some [of forks "worker_pids m" 0 "op_workers opts"] assms(2)
    by (auto simp: start_workers_def)
qed

definition roomy_limits :: FdLimits where
  "roomy_limits = \<lparr>fl_get = None, fl_set = True, fl_again = 0\<rparr>"

theorem worker_override_overruns_witness:
  "\<exists>m. master_init (Some (config_default\<lparr>max_connections := 4\<rparr>)) 8 roomy_limits True = Some m
     \<and> parse_args [''-w'', ''8''] \<lparr>op_config_path = ''config.ini'', op_test = False, op_benchmark = False, op_workers = 0\<rparr>
        = Run_with \<lparr>op_config_path = ''config.ini'', op_test = False, op_benchmark = False, op_workers = 8\<rparr>
     \<and> start_workers (\<lambda>_. 100) (apply_options
          \<lparr>op_config_path = ''config.ini'', op_test = False, op_benchmark = False, op_workers = 8\<rparr> m) = None"
proof -
  let ?c = "config_default\<lparr>max_connections := 4\<rparr>"
  obtain m where m: "master_init (Some ?c) 8 roomy_limits True = Some m"
    by (simp add: master_init_def check_fd_limits_def roomy_limits_def Let_def)
  have "worker_count 8 ?c = 4" by (simp add: worker_count_def)
  moreover have "worker_arg ''8'' = Some 8"
    by (simp add: worker_arg_def strtol_def num_scan_def num_sign_def isspace_def isdigit_def digits_val_def)
  ultimately show ?thesis using m worker_override_overruns [OF m] by simp
qed

subsection \<open>Supervision\<close>

definition master_ok :: "MasterProcess \<Rightarrow> bool" where
  "master_ok m \<longleftrightarrow> length (worker_pids m) = num_workers m"

lemma pid_index_Some:
  "pid_index pid ps k = Some i \<Longrightarrow> k \<le> i \<and> i - k < length ps \<and> ps ! (i - k) = pid"
proof (induction ps arbitrary: k)
  case (Cons p ps)
  show ?case
  proof (cases "p = pid")
    case False
    then have "Suc k \<le> i \<and> i - Suc k < length ps \<and> ps ! (i - Suc k) = pid" using Cons by simp
    then show ?thesis by (auto simp: Suc_diff_le nth_Cons' Suc_le_eq)
  qed (use Cons in simp)
qed simp

lemma find_worker_Some:
  "master_ok m \<Longrightarrow> find_worker_by_pid m pid = Some i \<Longrightarrow> i < num_workers m \<and> worker_pids m ! i = pid"
  using pid_index_Some [of pid "worker_pids m" 0 i] by (simp add: find_worker_by_pid_def master_ok_def)

lemma pid_index_None: "pid_index pid ps k = None \<longleftrightarrow> pid \<notin> set ps"
  by (induction ps arbitrary: k) auto

lemma remove_draining_pids:
  "remove_draining_worker m pid = (m', b) \<Longrightarrow> worker_pids m' = worker_pids m \<and> num_workers m' = num_workers m
     \<and> shutdown_requested m' = shutdown_requested m"
  by (auto simp: remove_draining_worker_def split: option.splits)

lemma exit_pids:
  assumes "master_ok m"
  shows "worker_pids (handle_worker_exit forks m pid) = worker_pids m
    \<or> (\<exists>i < num_workers m. worker_pids m ! i = pid \<and>
         worker_pids (handle_worker_exit forks m pid) = (worker_pids m)[i := (if shutdown_requested m then 0 else forks i)])"
proof -
  obtain m1 b where r: "remove_draining_worker m pid = (m1, b)" by force
  note f = remove_draining_pids [OF r]
  show ?thesis
  proof (cases "b \<or> find_worker_by_pid m1 pid = None")
    case True
    then have "worker_pids (handle_worker_exit forks m pid) = worker_pids m"
      using r f by (cases b) (simp_all add: handle_worker_exit_def)
    then show ?thesis by simp
  next
    case False
    then obtain i where i: "find_worker_by_pid m1 pid = Some i" by auto
    then have "i < num_workers m \<and> worker_pids m ! i = pid"
      using find_worker_Some [of m1 pid i] f assms by (simp add: master_ok_def)
    moreover have "worker_pids (handle_worker_exit forks m pid) = (worker_pids m)[i := (if shutdown_requested m then 0 else forks i)]"
      using False r f i by (simp add: handle_worker_exit_def)
    ultimately show ?thesis by blast
  qed
qed

lemma reload_pids:
  assumes "master_ok m" "master_reload loaded calloc_ok forks m = Some (m', sigs)"
  shows "length (worker_pids m') = length (worker_pids m) \<and> num_workers m' = num_workers m
     \<and> (\<forall>i < num_workers m. worker_pids m' ! i = worker_pids m ! i \<or> (worker_pids m ! i > 0 \<and> worker_pids m' ! i = forks i))"
proof (cases loaded)
  case None
  then show ?thesis using assms(2) by (simp add: master_reload_def)
next
  case (Some new_config)
  have "worker_pids m' = map (\<lambda>(i, p). if i < num_workers m \<and> p > 0 then forks i else p) (enumerate 0 (worker_pids m))"
    "num_workers m' = num_workers m"
    using assms(2) unfolding master_reload_def Some option.case Let_def by (auto split: if_splits)
  then show ?thesis using assms(1) by (simp add: nth_enumerate_eq master_ok_def)
qed

lemma signals_simps [simp]:
  "worker_pids (signals sig m) = worker_pids m" "num_workers (signals sig m) = num_workers m"
  "draining_pids (signals sig m) = draining_pids m" "shutdown_requested (signals sig m) = (shutdown_requested m \<or> fst sig)"
  by (simp_all add: signals_def sigterm_handler_def sighup_handler_def)

text \<open>A change of the table that keeps its size and the places without a live process.\<close>

definition keeps_dead :: "MasterProcess \<Rightarrow> MasterProcess \<Rightarrow> bool" where
  "keeps_dead m m' \<longleftrightarrow> master_ok m' \<and> num_workers m' = num_workers m
     \<and> (\<forall>i < num_workers m. worker_pids m ! i \<le> 0 \<longrightarrow> worker_pids m' ! i = worker_pids m ! i)"

lemma keeps_dead_trans: "keeps_dead a b \<Longrightarrow> keeps_dead b c \<Longrightarrow> keeps_dead a c"
  by (simp add: keeps_dead_def)

lemma signals_keeps: "master_ok m \<Longrightarrow> keeps_dead m (signals sig m)"
  by (simp add: keeps_dead_def master_ok_def)

lemma exit_fields:
  "num_workers (handle_worker_exit forks m pid) = num_workers m"
  "shutdown_requested (handle_worker_exit forks m pid) = shutdown_requested m"
proof -
  obtain m2 b where r: "remove_draining_worker m pid = (m2, b)" by force
  show "num_workers (handle_worker_exit forks m pid) = num_workers m"
    "shutdown_requested (handle_worker_exit forks m pid) = shutdown_requested m"
    using remove_draining_pids [OF r]
    by (cases b; cases "find_worker_by_pid m2 pid"; simp add: handle_worker_exit_def r)+
qed

lemma exit_keeps:
  assumes "master_ok m" "pid > 0"
  shows "keeps_dead m (handle_worker_exit forks m pid)"
  using exit_pids [OF assms(1), of forks pid]
proof
  assume "worker_pids (handle_worker_exit forks m pid) = worker_pids m"
  then show ?thesis using assms(1) exit_fields(1) by (simp add: keeps_dead_def master_ok_def)
next
  assume "\<exists>i < num_workers m. worker_pids m ! i = pid \<and> worker_pids (handle_worker_exit forks m pid) =
      (worker_pids m)[i := (if shutdown_requested m then 0 else forks i)]"
  then obtain i x where i: "worker_pids m ! i = pid" "worker_pids (handle_worker_exit forks m pid) = (worker_pids m)[i := x]"
    by blast
  have "(worker_pids m)[i := x] ! j = worker_pids m ! j" if "worker_pids m ! j \<le> 0" for j
    using i(1) assms(2) that by (cases "j = i") simp_all
  then show ?thesis using assms(1) exit_fields(1) i(2) by (simp add: keeps_dead_def master_ok_def)
qed

lemma wait_keeps: "master_ok m \<Longrightarrow> keeps_dead m (round_wait env m)"
  using exit_keeps [of m _ "me_forks env"] by (cases "me_wait env") (simp_all add: round_wait_def keeps_dead_def)

lemma reload_keeps:
  assumes "master_ok m" "round_reload env m = Some m'"
  shows "keeps_dead m m'"
proof (cases "reload_requested m")
  case True
  then obtain sigs where r: "master_reload (me_loaded env) (me_calloc env) (me_reload_forks env) (m\<lparr>reload_requested := False\<rparr>) = Some (m', sigs)"
    using assms(2) by (auto simp: round_reload_def)
  have "length (worker_pids m') = length (worker_pids m) \<and> num_workers m' = num_workers m
     \<and> (\<forall>i < num_workers m. worker_pids m' ! i = worker_pids m ! i \<or> (worker_pids m ! i > 0 \<and> worker_pids m' ! i = me_reload_forks env i))"
    using reload_pids [OF _ r] assms(1) by (simp add: master_ok_def)
  then show ?thesis using assms(1) unfolding keeps_dead_def master_ok_def by fastforce
qed (use assms in \<open>simp add: round_reload_def keeps_dead_def\<close>)

lemma round_keeps:
  assumes "master_ok m" "master_round env m = Some m'"
  shows "keeps_dead m m'"
proof -
  obtain m1 where m1: "round_reload env m = Some m1" "m' = signals (me_after env) (round_wait env (signals (me_before env) m1))"
    using assms(2) by (auto simp: master_round_def)
  have a: "keeps_dead m m1" by (rule reload_keeps [OF assms(1) m1(1)])
  then have b: "keeps_dead m1 (signals (me_before env) m1)" by (intro signals_keeps) (simp add: keeps_dead_def)
  then have c: "keeps_dead (signals (me_before env) m1) (round_wait env (signals (me_before env) m1))"
    by (intro wait_keeps) (simp add: keeps_dead_def)
  then have "keeps_dead (round_wait env (signals (me_before env) m1)) m'"
    unfolding m1(2) by (intro signals_keeps) (simp add: keeps_dead_def)
  then show ?thesis using a b c keeps_dead_trans by blast
qed

lemma step_pids: "master_step m m' \<Longrightarrow> master_ok m \<Longrightarrow> keeps_dead m m'"
  by (induction rule: master_step.induct) (simp_all add: signals_keeps round_keeps)

text \<open>
  C31. A worker that could not be forked is never started again: once the process id of a worker's
  place is not positive (a \<open>fork\<close> that failed at the start, at a restart or at a reload leaves \<open>-1\<close>), no
  sequence of steps of the master, whatever exits, signals and reloads happen, changes it, although
  the master is meant to restart its workers.
\<close>

theorem failed_fork_never_retried:
  assumes "master_step\<^sup>*\<^sup>* m m'" "length (worker_pids m) = num_workers m" "i < num_workers m" "worker_pids m ! i \<le> 0"
  shows "worker_pids m' ! i = worker_pids m ! i"
proof -
  have "master_ok m' \<and> num_workers m' = num_workers m \<and> worker_pids m' ! i = worker_pids m ! i"
    using assms(1)
  proof (induction rule: rtranclp_induct)
    case base
    then show ?case using assms by (simp add: master_ok_def)
  next
    case (step y z)
    then show ?case using step_pids [OF step(2)] assms(3,4) by (auto simp: keeps_dead_def)
  qed
  then show ?thesis by simp
qed

definition demo_master :: "int list \<Rightarrow> MasterProcess" where
  "demo_master pids = \<lparr>m_config = Some config_default, num_workers = length pids, worker_pids = pids, draining_pids = None,
     shutdown_requested = False, reload_requested = True\<rparr>"

definition demo_round :: MasterEnv where
  "demo_round = \<lparr>me_loaded = Some config_default, me_calloc = True, me_reload_forks = (\<lambda>_. 30),
     me_before = (False, False), me_wait = No_child, me_forks = (\<lambda>_. 31), me_after = (True, False)\<rparr>"

theorem failed_fork_never_retried_witness:
  "\<exists>m'. master_round demo_round (demo_master [20, -1]) = Some m' \<and> worker_pids m' ! 1 = -1 \<and> worker_pids m' ! 0 = 30"
proof -
  obtain m' where m: "master_round demo_round (demo_master [20, -1]) = Some m'" "worker_pids m' ! 0 = 30"
    by (simp add: master_round_def round_reload_def round_wait_def demo_master_def demo_round_def master_reload_def)
  have "master_step\<^sup>*\<^sup>* (demo_master [20, -1]) m'"
    by (rule r_into_rtranclp, rule master_step.round [OF _ m(1)]) (simp add: demo_master_def)
  then have "worker_pids m' ! 1 = -1"
    using failed_fork_never_retried [of "demo_master [20, -1]" m' 1] by (simp add: demo_master_def)
  then show ?thesis using m by blast
qed

subsection \<open>Shutting down\<close>

abbreviation alive :: "int list \<Rightarrow> nat" where "alive pids \<equiv> length (filter (\<lambda>p. p > 0) pids)"

lemma alive_clear:
  assumes "i < length pids" "pids ! i > 0"
  shows "alive (pids[i := 0]) = alive pids - 1" "p \<in> set pids \<Longrightarrow> p \<noteq> pids ! i \<Longrightarrow> p \<in> set (pids[i := 0])"
proof -
  have e: "pids = take i pids @ pids ! i # drop (Suc i) pids" using assms(1) by (rule id_take_nth_drop)
  have u: "pids[i := 0] = take i pids @ 0 # drop (Suc i) pids" using assms(1) by (rule upd_conv_take_nth_drop)
  show "alive (pids[i := 0]) = alive pids - 1" unfolding u by (subst (3) e) (use assms(2) in simp)
  show "p \<in> set (pids[i := 0])" if "p \<in> set pids" "p \<noteq> pids ! i"
  proof -
    have "p \<in> set (take i pids @ pids ! i # drop (Suc i) pids)" using that(1) e by metis
    then show ?thesis using that(2) unfolding u by auto
  qed
qed

lemma wait_loop_inv:
  assumes "wait_loop rs pids (alive pids) = (pids', remaining)"
  shows "length pids' = length pids \<and> remaining = alive pids' \<and> (\<forall>p \<in> set pids. p > 0 \<longrightarrow> p \<in> set pids' \<or> Reaped p \<in> set rs)"
  using assms
proof (induction rs arbitrary: pids)
  case (Cons r rs)
  show ?case
  proof (cases "\<exists>pid i. alive pids \<noteq> 0 \<and> r = Reaped pid \<and> pid > 0 \<and> pid_index pid pids 0 = Some i")
    case True
    then obtain pid i where t: "alive pids \<noteq> 0" "r = Reaped pid" "pid > 0" "pid_index pid pids 0 = Some i" by blast
    have i: "i < length pids" "pids ! i = pid" using pid_index_Some [OF t(4)] by auto
    note clear = alive_clear [of i pids, unfolded i(2), OF i(1) t(3)]
    have "wait_loop rs (pids[i := 0]) (alive (pids[i := 0])) = (pids', remaining)"
      using Cons.prems t by (simp add: clear(1))
    from Cons.IH [OF this] show ?thesis using clear(2) t(2) by auto
  next
    case False
    then have "(pids', remaining) = (pids, alive pids) \<or> wait_loop rs pids (alive pids) = (pids', remaining)"
      using Cons.prems by (auto split: WaitResult.splits if_splits option.splits)
    then show ?thesis using Cons.IH [of pids] by auto
  qed
qed simp

lemma wait_for_workers_stops:
  assumes "master_ok m" "wait_for_workers rs m = (m', killed)"
  shows "list_all (\<lambda>p. p \<le> 0) (worker_pids m')"
    "set (master_shutdown_workers m) = {p \<in> set (worker_pids m). p > 0}"
    "\<forall>p \<in> set (master_shutdown_workers m). p \<in> set killed \<or> Reaped p \<in> set rs"
proof -
  obtain pids1 remaining where w: "wait_loop rs (worker_pids m) (alive (worker_pids m)) = (pids1, remaining)" by force
  note inv = wait_loop_inv [OF w]
  have r: "m' = m\<lparr>worker_pids := (if remaining > 0 then map (\<lambda>p. if p > 0 then 0 else p) pids1 else pids1)\<rparr>"
    "killed = (if remaining > 0 then filter (\<lambda>p. p > 0) pids1 else [])"
    using assms w by (auto simp: wait_for_workers_def master_ok_def Let_def split: if_splits)
  show sig: "set (master_shutdown_workers m) = {p \<in> set (worker_pids m). p > 0}"
    using assms(1) by (auto simp: master_shutdown_workers_def master_ok_def)
  have "list_all (\<lambda>p. p \<le> 0) (worker_pids m') \<and> (\<forall>p \<in> set (worker_pids m). p > 0 \<longrightarrow> p \<in> set killed \<or> Reaped p \<in> set rs)"
  proof (cases "remaining > 0")
    case True
    then show ?thesis using r inv by (auto simp: list_all_iff)
  next
    case False
    then have "\<forall>p \<in> set pids1. \<not> p > 0" using inv by (simp add: filter_empty_conv)
    then show ?thesis using r inv False by (auto simp: list_all_iff)
  qed
  then show "list_all (\<lambda>p. p \<le> 0) (worker_pids m')"
    "\<forall>p \<in> set (master_shutdown_workers m). p \<in> set killed \<or> Reaped p \<in> set rs"
    unfolding sig by auto
qed

lemma start_keeps_ok:
  assumes "master_ok m"
  shows "\<exists>m1. start_workers forks m = Some m1 \<and> master_ok m1"
proof -
  obtain pids where p: "start_loop forks (worker_pids m) 0 (num_workers m) = Some pids"
    using start_loop_Some [of forks "worker_pids m" 0 "num_workers m"] assms by (auto simp: master_ok_def)
  then have "length pids = length (worker_pids m)" by (rule start_loop_length)
  then show ?thesis using p assms by (simp add: start_workers_def master_ok_def)
qed

text \<open>With memory for the array of draining workers no round fails, and a round with \<open>SIGTERM\<close> stops the loop.\<close>

lemma round_progress:
  assumes "me_calloc env"
  shows "\<exists>m'. master_round env m = Some m' \<and> (fst (me_before env) \<or> fst (me_after env) \<longrightarrow> shutdown_requested m')"
proof -
  have "round_reload env m \<noteq> None"
    using assms by (simp add: round_reload_def master_reload_def Let_def split: option.split)
  then obtain m1 where "round_reload env m = Some m1" by auto
  moreover have "shutdown_requested (round_wait env m2) = shutdown_requested m2" for m2
    using exit_fields(2) [of "me_forks env" m2] by (cases "me_wait env") (simp_all add: round_wait_def)
  ultimately show ?thesis by (simp add: master_round_def)
qed

lemma run_loop_stops:
  assumes "master_ok m" "\<forall>env \<in> set envs. me_calloc env"
    "shutdown_requested m \<or> (\<exists>env \<in> set envs. fst (me_before env) \<or> fst (me_after env))"
  shows "\<exists>m1. master_ok m1 \<and> run_loop rs envs m = master_stop rs m1"
  using assms
proof (induction envs arbitrary: m)
  case (Cons env envs)
  show ?case
  proof (cases "shutdown_requested m")
    case False
    obtain m' where m': "master_round env m = Some m'" "fst (me_before env) \<or> fst (me_after env) \<longrightarrow> shutdown_requested m'"
      using round_progress [of env m] Cons.prems(2) by auto
    have "master_ok m'" using round_keeps [OF Cons.prems(1) m'(1)] by (simp add: keeps_dead_def)
    then show ?thesis using Cons.IH [of m'] Cons.prems(2,3) m' False by auto
  qed (use Cons.prems(1) in auto)
qed auto

text \<open>
  C6. The master comes to an end and leaves no worker of its table behind: run on a table that fits
  the number of workers, with \<open>SIGTERM\<close> arriving at some time (before the loop, or in any round, before
  or after \<open>waitpid\<close>), whatever forks, exits, reloads and other signals happen, as long as the array of
  draining workers can be allocated, \<open>master_run\<close> stops; then no place of the table holds a live
  process id, and every worker that was signalled to drain was reaped in time or killed.
\<close>

theorem master_run_stops:
  assumes "length (worker_pids m) = num_workers m" "\<forall>env \<in> set envs. me_calloc env"
    "fst sig \<or> (\<exists>env \<in> set envs. fst (me_before env) \<or> fst (me_after env))"
  shows "\<exists>m' signalled killed. master_run forks sig envs rs m = Stopped m' signalled killed
     \<and> list_all (\<lambda>p. p \<le> 0) (worker_pids m') \<and> (\<forall>p \<in> set signalled. p \<in> set killed \<or> Reaped p \<in> set rs)"
proof -
  obtain m1 where s: "start_workers forks m = Some m1" "master_ok m1"
    using start_keeps_ok [of m forks] assms(1) by (auto simp: master_ok_def)
  have "master_ok (signals sig m1)" using s(2) by (simp add: master_ok_def)
  then obtain m2 where m2: "master_ok m2" "run_loop rs envs (signals sig m1) = master_stop rs m2"
    using run_loop_stops [of "signals sig m1" envs rs] assms(2,3) by auto
  obtain m' killed where w: "wait_for_workers rs m2 = (m', killed)" by force
  have "master_run forks sig envs rs m = Stopped m' (master_shutdown_workers m2) killed"
    using s(1) m2(2) w by (simp add: master_run_def master_stop_def)
  then show ?thesis using wait_for_workers_stops(1,3) [OF m2(1) w] by blast
qed

theorem master_run_stops_witness:
  "\<exists>m' signalled killed. master_run (\<lambda>i. 20 + int i) (False, False) [demo_round] [No_child, Reaped 30] (demo_master [0, 0])
       = Stopped m' signalled killed \<and> list_all (\<lambda>p. p \<le> 0) (worker_pids m')"
  using master_run_stops [of "demo_master [0, 0]" "[demo_round]" "(False, False)" "\<lambda>i. 20 + int i" "[No_child, Reaped 30]"]
  by (auto simp: demo_master_def demo_round_def)

text \<open>A worker that exits is replaced by a new process in its place, and no other place changes.\<close>

lemma exit_restarts:
  assumes "master_ok m" "draining_pids m = None" "\<not> shutdown_requested m" "pid \<in> set (worker_pids m)"
  shows "\<exists>i < num_workers m. worker_pids m ! i = pid
     \<and> worker_pids (handle_worker_exit forks m pid) = (worker_pids m)[i := forks i]"
proof -
  obtain i where i: "find_worker_by_pid m pid = Some i"
    using assms(1,4) pid_index_None [of pid "worker_pids m" 0] by (auto simp: find_worker_by_pid_def master_ok_def)
  then have "i < num_workers m \<and> worker_pids m ! i = pid"
    by (rule find_worker_Some [OF assms(1)])
  moreover have "worker_pids (handle_worker_exit forks m pid) = (worker_pids m)[i := forks i]"
    using assms i by (simp add: handle_worker_exit_def remove_draining_worker_def)
  ultimately show ?thesis by blast
qed

end
