(* ===== verification/Supervision.thy ===== *)
theory Supervision
  imports Master WorkerFacts
begin

text \<open>
  The master of \<^verbatim>\<open>src/src/master.c\<close> and the workers of \<^verbatim>\<open>src/src/worker.c\<close> together: the processes by
  their ids, what each does on a signal, and the calls \<open>fork\<close>, \<open>kill\<close> and \<open>waitpid\<close> between them. The
  theorem of this theory joins the two models: a worker that takes connections is always one that
  the master knows and can drain.
\<close>

subsection \<open>Signals\<close>

datatype Signal = SIGTERM | SIGINT | SIGHUP | SIGCHLD | SIGPIPE | SIGUSR1 | SIGUSR2

text \<open>What a process does on a signal: the default, nothing, or the named handler.\<close>

datatype Action = SIG_DFL | SIG_IGN | Sigterm_handler | Sighup_handler | Sigchld_handler | Signal_cb | Signal_reload_cb

type_synonym actions = "Signal \<Rightarrow> Action"

definition setup_master_signals :: "actions \<Rightarrow> actions" where
  "setup_master_signals a =
    a(SIGTERM := Sigterm_handler, SIGINT := Sigterm_handler, SIGHUP := Sighup_handler, SIGCHLD := Sigchld_handler,
      SIGPIPE := SIG_IGN)"

text \<open>The two flags say whether libevent could make the event of the signal.\<close>

definition setup_worker_signals :: "bool \<Rightarrow> bool \<Rightarrow> actions \<Rightarrow> actions" where
  "setup_worker_signals usr1_ok usr2_ok a =
    (let a1 = a(SIGPIPE := SIG_IGN);
         a2 = (if usr1_ok then a1(SIGUSR1 := Signal_cb) else a1) in
     if usr2_ok then a2(SIGUSR2 := Signal_reload_cb) else a2)"

subsection \<open>Processes\<close>

text \<open>A forked process before its event loop, with its number and configuration, and in it.\<close>

datatype Process = Starting int "Config option" actions | Serving Server actions

text \<open>
  A signal at a worker; \<open>None\<close> is its end. The handlers that it inherits from the master set a flag in
  its copy of the master's state, which it never reads.
\<close>

fun on_signal :: "TlsSetup \<Rightarrow> Signal \<Rightarrow> Process \<Rightarrow> Process option" where
  "on_signal ts sig (Starting wid cfg a) =
    (if a sig = SIG_DFL \<and> sig \<noteq> SIGCHLD then None else Some (Starting wid cfg a))"
| "on_signal ts sig (Serving s a) = (case a sig of
     SIG_DFL \<Rightarrow> if sig = SIGCHLD then Some (Serving s a) else None
   | Signal_cb \<Rightarrow> Some (Serving (s\<lparr>sv_worker := signal_cb (sv_worker s)\<rparr>) a)
   | Signal_reload_cb \<Rightarrow> Some (Serving (s\<lparr>sv_worker := signal_reload_cb ts (sv_worker s)\<rparr>) a)
   | _ \<Rightarrow> Some (Serving s a))"

text \<open>A signal at the master; \<open>None\<close> is its end.\<close>

definition on_master_signal :: "actions \<Rightarrow> Signal \<Rightarrow> MasterProcess \<Rightarrow> MasterProcess option" where
  "on_master_signal a sig m = (case a sig of
     SIG_DFL \<Rightarrow> if sig = SIGCHLD then Some m else None
   | Sigterm_handler \<Rightarrow> Some (sigterm_handler m)
   | Sighup_handler \<Rightarrow> Some (sighup_handler m)
   | _ \<Rightarrow> Some m)"

type_synonym procs = "int \<Rightarrow> Process option"

definition kill_all :: "TlsSetup \<Rightarrow> Signal \<Rightarrow> int list \<Rightarrow> procs \<Rightarrow> procs" where
  "kill_all ts sig pids procs = (\<lambda>p. if p \<in> set pids then Option.bind (procs p) (on_signal ts sig) else procs p)"

text \<open>The child of worker place \<open>i\<close>, when \<open>fork\<close> gave its id; it inherits the actions of the master.\<close>

definition fork_worker :: "actions \<Rightarrow> Config option \<Rightarrow> nat \<times> int \<Rightarrow> procs \<Rightarrow> procs" where
  "fork_worker a cfg = (\<lambda>(i, pid) procs. if pid > 0 then procs(pid := Some (Starting (int i) cfg a)) else procs)"

definition fork_places :: "actions \<Rightarrow> Config option \<Rightarrow> (nat \<Rightarrow> int) \<Rightarrow> nat list \<Rightarrow> procs \<Rightarrow> procs" where
  "fork_places a cfg forks places = fold (fork_worker a cfg) (map (\<lambda>i. (i, forks i)) places)"

text \<open>The entry into the event loop, or \<open>exit(1)\<close>.\<close>

definition boot_worker :: "BootEnv \<Rightarrow> bool \<Rightarrow> bool \<Rightarrow> int \<Rightarrow> Config \<Rightarrow> actions \<Rightarrow> Process option" where
  "boot_worker bo usr1_ok usr2_ok wid cfg a =
    map_option (\<lambda>w. Serving \<lparr>sv_worker = w, sv_conns = []\<rparr> (setup_worker_signals usr1_ok usr2_ok a)) (worker_start bo wid cfg)"

subsection \<open>The system\<close>

record System =
  sy_master :: MasterProcess
  sy_actions :: actions
  sy_procs :: procs
  sy_running :: bool

definition sys_start :: "(nat \<Rightarrow> int) \<Rightarrow> actions \<Rightarrow> MasterProcess \<Rightarrow> System option" where
  "sys_start forks a m = map_option (\<lambda>m1. \<lparr>sy_master = m1, sy_actions = setup_master_signals a,
       sy_procs = fork_places (setup_master_signals a) (m_config m) forks [0..<num_workers m] (\<lambda>_. None),
       sy_running = True\<rparr>) (start_workers forks m)"

text \<open>The places that a reload fills again.\<close>

definition live_places :: "MasterProcess \<Rightarrow> nat list" where
  "live_places m = filter (\<lambda>i. worker_pids m ! i > 0) [0..<num_workers m]"

definition sys_reload :: "TlsSetup \<Rightarrow> MasterEnv \<Rightarrow> System \<Rightarrow> System option" where
  "sys_reload ts env sys =
    (let m = (sy_master sys)\<lparr>reload_requested := False\<rparr> in
     map_option (\<lambda>(m1, sigs). sys\<lparr>sy_master := m1, sy_procs :=
         (if me_loaded env = None then sy_procs sys
          else fork_places (sy_actions sys) (me_loaded env) (me_reload_forks env) (live_places m)
                 (kill_all ts SIGUSR1 sigs (sy_procs sys)))\<rparr>)
       (master_reload (me_loaded env) (me_calloc env) (me_reload_forks env) m))"

text \<open>The place that \<open>handle_worker_exit\<close> fills again, if it does.\<close>

definition restart_place :: "MasterProcess \<Rightarrow> int \<Rightarrow> nat option" where
  "restart_place m pid = (case remove_draining_worker m pid of
     (m1, True) \<Rightarrow> None
   | (m1, False) \<Rightarrow> if shutdown_requested m1 then None else find_worker_by_pid m1 pid)"

definition sys_reap :: "(nat \<Rightarrow> int) \<Rightarrow> int \<Rightarrow> System \<Rightarrow> System" where
  "sys_reap forks pid sys =
    sys\<lparr>sy_master := handle_worker_exit forks (sy_master sys) pid,
        sy_procs := (case restart_place (sy_master sys) pid of
           None \<Rightarrow> sy_procs sys
         | Some i \<Rightarrow> fork_worker (sy_actions sys) (m_config (sy_master sys)) (i, forks i) (sy_procs sys))\<rparr>"

text \<open>The end of the master: drain, wait, kill. What was reaped or killed is gone.\<close>

definition sys_stop :: "TlsSetup \<Rightarrow> WaitResult list \<Rightarrow> System \<Rightarrow> System" where
  "sys_stop ts rs sys = (case wait_for_workers rs (sy_master sys) of (m1, killed) \<Rightarrow>
     sys\<lparr>sy_master := m1, sy_running := False,
         sy_procs := (\<lambda>p. if p \<in> set killed \<or> Reaped p \<in> set rs then None
            else kill_all ts SIGUSR1 (master_shutdown_workers (sy_master sys)) (sy_procs sys) p)\<rparr>)"

text \<open>
  A worker may end at any time, and anyone may send it a signal, as to the master, unless that ends
  the master. The master reaps only processes that have ended.
\<close>

inductive system_step :: "(rat \<Rightarrow> rat) \<Rightarrow> System \<Rightarrow> System \<Rightarrow> bool" for rnd where
  boots: "sy_procs sys p = Some (Starting wid (Some cfg) a)
    \<Longrightarrow> system_step rnd sys (sys\<lparr>sy_procs := (sy_procs sys)(p := boot_worker bo usr1_ok usr2_ok wid cfg a)\<rparr>)"
| works: "sy_procs sys p = Some (Serving s a) \<Longrightarrow> worker_step rnd s s'
    \<Longrightarrow> system_step rnd sys (sys\<lparr>sy_procs := (sy_procs sys)(p \<mapsto> Serving s' a)\<rparr>)"
| ends: "system_step rnd sys (sys\<lparr>sy_procs := (sy_procs sys)(p := None)\<rparr>)"
| signalled: "system_step rnd sys (sys\<lparr>sy_procs := kill_all ts sig [p] (sy_procs sys)\<rparr>)"
| master_signal: "sy_running sys \<Longrightarrow> on_master_signal (sy_actions sys) sig (sy_master sys) = Some m
    \<Longrightarrow> system_step rnd sys (sys\<lparr>sy_master := m\<rparr>)"
| reloads: "sy_running sys \<Longrightarrow> reload_requested (sy_master sys) \<Longrightarrow> sys_reload ts env sys = Some sys'
    \<Longrightarrow> system_step rnd sys sys'"
| reaps: "sy_running sys \<Longrightarrow> 0 < pid \<Longrightarrow> sy_procs sys pid = None \<Longrightarrow> system_step rnd sys (sys_reap forks pid sys)"
| stops: "sy_running sys \<Longrightarrow> shutdown_requested (sy_master sys) \<Longrightarrow> system_step rnd sys (sys_stop ts rs sys)"

text \<open>The program as \<open>main\<close> starts it; a new program has the default action for \<open>SIGUSR1\<close> and \<open>SIGUSR2\<close>.\<close>

inductive system_reach :: "(rat \<Rightarrow> rat) \<Rightarrow> System \<Rightarrow> bool" for rnd where
  start: "\<lbrakk>master_init loaded cpus fl calloc_ok = Some m; sys_start forks a (apply_options opts m) = Some sys; a SIGUSR1 = SIG_DFL;
     a SIGUSR2 = SIG_DFL\<rbrakk>
    \<Longrightarrow> system_reach rnd sys"
| step: "system_reach rnd sys \<Longrightarrow> system_step rnd sys sys' \<Longrightarrow> system_reach rnd sys'"

subsection \<open>The invariant\<close>

abbreviation table :: "MasterProcess \<Rightarrow> int list" where
  "table m \<equiv> take (num_workers m) (worker_pids m)"

fun drains :: "Process \<Rightarrow> bool" where
  "drains (Starting wid cfg a) = False"
| "drains (Serving s a) = draining (sv_worker s)"

text \<open>A process on which the drain signal has its effect, in a state that its program can reach.\<close>

fun proc_ok :: "(rat \<Rightarrow> rat) \<Rightarrow> Process \<Rightarrow> bool" where
  "proc_ok rnd (Starting wid cfg a) = (a SIGUSR1 = SIG_DFL)"
| "proc_ok rnd (Serving s a) = (a SIGUSR1 \<in> {SIG_DFL, Signal_cb} \<and> (\<exists>bo wid cfg. worker_reach rnd bo wid cfg s))"

definition procs_ok :: "(rat \<Rightarrow> rat) \<Rightarrow> int set \<Rightarrow> procs \<Rightarrow> bool" where
  "procs_ok rnd known procs \<longleftrightarrow> (\<forall>p P. procs p = Some P \<longrightarrow> proc_ok rnd P \<and> 0 < p \<and> (drains P \<or> p \<in> known))"

text \<open>The workers that the master can signal.\<close>

definition known :: "System \<Rightarrow> int set" where
  "known sys = (if sy_running sys then set (table (sy_master sys)) else {})"

lemma known_simps [simp]:
  "known (sys\<lparr>sy_procs := procs\<rparr>) = known sys"
  "sy_running sys \<Longrightarrow> known (sys\<lparr>sy_master := m\<rparr>) = set (table m)"
  by (simp_all add: known_def)

definition sys_inv :: "(rat \<Rightarrow> rat) \<Rightarrow> System \<Rightarrow> bool" where
  "sys_inv rnd sys \<longleftrightarrow> num_workers (sy_master sys) \<le> length (worker_pids (sy_master sys)) \<and> sy_actions sys SIGUSR1 = SIG_DFL
     \<and> sy_actions sys SIGUSR2 = SIG_DFL \<and> procs_ok rnd (known sys) (sy_procs sys)"

lemma setup_signals [simp]:
  "setup_master_signals a SIGUSR1 = a SIGUSR1" "setup_master_signals a SIGUSR2 = a SIGUSR2"
  "setup_worker_signals d r a SIGUSR1 = (if d then Signal_cb else a SIGUSR1)"
  by (simp_all add: setup_master_signals_def setup_worker_signals_def Let_def)

text \<open>A worker does not end on the signals that stop the master: it has inherited handlers for them.\<close>

lemma worker_outlives_sigterm:
  assumes "sig \<in> {SIGTERM, SIGINT, SIGHUP, SIGPIPE}"
  shows "on_signal ts sig (Serving s (setup_worker_signals d r (setup_master_signals a)))
    = Some (Serving s (setup_worker_signals d r (setup_master_signals a)))"
  using assms by (auto simp: setup_master_signals_def setup_worker_signals_def Let_def)

lemma procs_ok_mono: "procs_ok rnd K procs \<Longrightarrow> K \<subseteq> K' \<Longrightarrow> procs_ok rnd K' procs"
  by (auto simp: procs_ok_def)

lemma procs_ok_positive: "procs_ok rnd K procs \<Longrightarrow> procs_ok rnd {p \<in> K. 0 < p \<and> procs p \<noteq> None} procs"
  by (auto simp: procs_ok_def)

lemma procs_ok_update:
  assumes "procs_ok rnd K procs" "\<And>P'. new = Some P' \<Longrightarrow> proc_ok rnd P' \<and> 0 < p \<and> (drains P' \<or> p \<in> K)"
  shows "procs_ok rnd K (procs(p := new))"
  using assms by (auto simp: procs_ok_def)

subsection \<open>Signals and forks keep it\<close>

lemma draining_signal_cb: "draining (signal_cb w)"
  by (simp add: signal_cb_def worker_check_drain_def Let_def)

lemma on_signal_ok:
  assumes "proc_ok rnd P" "on_signal ts sig P = Some P'"
  shows "proc_ok rnd P' \<and> (drains P \<longrightarrow> drains P')"
proof (cases P)
  case (Starting wid cfg a)
  then show ?thesis using assms by (auto split: if_splits)
next
  case (Serving s a)
  have r: "draining (signal_reload_cb ts w) = draining w" for w by (simp add: signal_reload_cb_def)
  obtain bo wid cfg where reach: "worker_reach rnd bo wid cfg s" using assms(1) Serving by auto
  have "P' = Serving s a \<or> P' = Serving (s\<lparr>sv_worker := signal_cb (sv_worker s)\<rparr>) a
      \<or> P' = Serving (s\<lparr>sv_worker := signal_reload_cb ts (sv_worker s)\<rparr>) a"
    using assms(2) Serving by (auto split: Action.splits if_splits)
  then obtain s' where P': "P' = Serving s' a" "s' = s \<or> s' = s\<lparr>sv_worker := signal_cb (sv_worker s)\<rparr>
      \<or> s' = s\<lparr>sv_worker := signal_reload_cb ts (sv_worker s)\<rparr>" by blast
  then have "worker_reach rnd bo wid cfg s'"
    using reach worker_reach.step [OF reach worker_step.drain] worker_reach.step [OF reach worker_step.reload, of ts] by auto
  moreover have "draining (sv_worker s) \<longrightarrow> draining (sv_worker s')"
    using P'(2) draining_signal_cb r by auto
  ultimately show ?thesis using assms(1) Serving P'(1) by auto
qed

text \<open>The drain signal drains a worker or ends it.\<close>

lemma on_usr1: "proc_ok rnd P \<Longrightarrow> on_signal ts SIGUSR1 P = Some P' \<Longrightarrow> drains P'"
  by (cases P) (auto simp: draining_signal_cb split: if_splits)

lemma kill_all_ok:
  assumes "procs_ok rnd K procs"
  shows "procs_ok rnd K (kill_all ts sig pids procs)"
  using assms on_signal_ok [of rnd _ ts sig] by (fastforce simp: procs_ok_def kill_all_def bind_eq_Some_conv)

lemma kill_usr1_ok:
  assumes "procs_ok rnd K procs"
  shows "procs_ok rnd (K - set pids) (kill_all ts SIGUSR1 pids procs)"
  unfolding procs_ok_def
proof (intro allI impI)
  fix p P'
  assume k: "kill_all ts SIGUSR1 pids procs p = Some P'"
  then have "proc_ok rnd P' \<and> 0 < p \<and> (drains P' \<or> p \<in> K)" using kill_all_ok [OF assms] unfolding procs_ok_def by blast
  moreover have "drains P'" if "p \<in> set pids"
    using k that assms on_usr1 [of rnd _ ts P'] by (auto simp: kill_all_def bind_eq_Some_conv procs_ok_def)
  ultimately show "proc_ok rnd P' \<and> 0 < p \<and> (drains P' \<or> p \<in> K - set pids)" by auto
qed

lemma fork_worker_ok:
  assumes "procs_ok rnd K procs" "a SIGUSR1 = SIG_DFL"
  shows "procs_ok rnd (insert pid K) (fork_worker a cfg (i, pid) procs)"
  using assms by (auto simp: procs_ok_def fork_worker_def)

lemma fork_places_ok:
  assumes "procs_ok rnd K procs" "a SIGUSR1 = SIG_DFL"
  shows "procs_ok rnd (forks ` set places \<union> K) (fork_places a cfg forks places procs)"
  using assms(1)
proof (induction places arbitrary: K procs)
  case (Cons i places)
  have "procs_ok rnd (insert (forks i) K) (fork_worker a cfg (i, forks i) procs)" using Cons.prems assms(2) by (rule fork_worker_ok)
  from Cons.IH [OF this] show ?case by (simp add: fork_places_def)
qed (simp add: fork_places_def)

subsection \<open>The steps of the master keep it\<close>

lemma set_update_keeps:
  assumes "x \<in> set xs" "x \<noteq> xs ! i"
  shows "x \<in> set (xs[i := v])"
proof -
  obtain j where "j < length xs" "xs ! j = x" using assms(1) by (auto simp: in_set_conv_nth)
  moreover then have "i \<noteq> j" using assms(2) by auto
  ultimately have "j < length (xs[i := v])" "xs[i := v] ! j = x" by simp_all
  then show ?thesis by (metis nth_mem)
qed

lemma exit_table:
  assumes "num_workers m \<le> length (worker_pids m)"
  shows "set (table m) - {pid} \<subseteq> set (table (handle_worker_exit forks m pid))"
    and "restart_place m pid = Some i \<Longrightarrow> forks i \<in> set (table (handle_worker_exit forks m pid))"
    and "length (worker_pids (handle_worker_exit forks m pid)) = length (worker_pids m)"
proof -
  obtain m1 b where r: "remove_draining_worker m pid = (m1, b)" by force
  note f = remove_draining_pids [OF r]
  have n: "num_workers (handle_worker_exit forks m pid) = num_workers m" by (rule exit_fields(1))
  have found: "j < num_workers m \<and> table m ! j = pid" if "find_worker_by_pid m1 pid = Some j" for j
    using that pid_index_Some [of pid "table m" 0 j] assms f by (simp add: find_worker_by_pid_def)
  have pids: "worker_pids (handle_worker_exit forks m pid) = (case (b, find_worker_by_pid m1 pid) of
      (False, Some j) \<Rightarrow> (worker_pids m)[j := (if shutdown_requested m then 0 else forks j)] | _ \<Rightarrow> worker_pids m)"
    using r f by (auto simp: handle_worker_exit_def split: option.splits bool.splits)
  show "length (worker_pids (handle_worker_exit forks m pid)) = length (worker_pids m)"
    unfolding pids by (simp split: option.splits bool.splits)
  show "set (table m) - {pid} \<subseteq> set (table (handle_worker_exit forks m pid))"
  proof
    fix x assume x: "x \<in> set (table m) - {pid}"
    have "x \<in> set ((table m)[j := v])" if "find_worker_by_pid m1 pid = Some j" for j v
      using set_update_keeps [of x "table m" j v] found [OF that] x by simp
    then show "x \<in> set (table (handle_worker_exit forks m pid))"
      using x unfolding n pids by (simp add: take_update_swap split: option.splits bool.splits)
  qed
  assume "restart_place m pid = Some i"
  then have "\<not> b" "\<not> shutdown_requested m" "find_worker_by_pid m1 pid = Some i"
    using r f by (auto simp: restart_place_def split: bool.splits if_splits)
  moreover then have "i < length (table m)" using found assms by simp
  ultimately show "forks i \<in> set (table (handle_worker_exit forks m pid))"
    unfolding n pids by (simp add: take_update_swap set_update_memI)
qed

lemma reload_table:
  assumes "master_reload (Some cfg) calloc_ok forks m = Some (m1, sigs)" "num_workers m \<le> length (worker_pids m)"
  shows "forks ` set (live_places m) \<subseteq> set (table m1)" "set sigs = {p \<in> set (table m). 0 < p}"
    "num_workers m1 = num_workers m" "length (worker_pids m1) = length (worker_pids m)"
proof -
  have p: "worker_pids m1 = map (\<lambda>(i, p). if i < num_workers m \<and> p > 0 then forks i else p) (enumerate 0 (worker_pids m))"
    and n: "num_workers m1 = num_workers m" and sg: "sigs = master_shutdown_workers m"
    using assms(1) unfolding master_reload_def option.case Let_def by (auto split: if_splits)
  show "num_workers m1 = num_workers m" "length (worker_pids m1) = length (worker_pids m)" by (simp_all add: n p)
  show "set sigs = {p \<in> set (table m). 0 < p}" by (auto simp: sg master_shutdown_workers_def)
  show "forks ` set (live_places m) \<subseteq> set (table m1)"
  proof
    fix x assume "x \<in> forks ` set (live_places m)"
    then obtain i where i: "i < num_workers m" "worker_pids m ! i > 0" "x = forks i" by (auto simp: live_places_def)
    then have "i < length (table m1)" "table m1 ! i = x" using assms(2) by (simp_all add: n p nth_enumerate_eq)
    then show "x \<in> set (table m1)" by (metis nth_mem)
  qed
qed

lemma wait_loop_length: "wait_loop rs pids k = (pids', k') \<Longrightarrow> length pids' = length pids"
  by (induction rs pids k rule: wait_loop.induct) (auto split: if_splits WaitResult.splits option.splits)

lemma wait_for_workers_size:
  assumes "num_workers m \<le> length (worker_pids m)" "wait_for_workers rs m = (m1, killed)"
  shows "num_workers m1 = num_workers m \<and> length (worker_pids m1) = length (worker_pids m)"
proof -
  obtain pids k where w: "wait_loop rs (table m) (alive (table m)) = (pids, k)" by force
  show ?thesis using assms wait_loop_length [OF w] w by (auto simp: wait_for_workers_def Let_def split: if_splits)
qed

lemma sys_reload_inv:
  assumes "sys_inv rnd sys" "sy_running sys" "sys_reload ts env sys = Some sys'"
  shows "sys_inv rnd sys'"
proof -
  let ?m = "(sy_master sys)\<lparr>reload_requested := False\<rparr>"
  have n: "num_workers ?m \<le> length (worker_pids ?m)" and dfl: "sy_actions sys SIGUSR1 = SIG_DFL" "sy_actions sys SIGUSR2 = SIG_DFL"
    and ok: "procs_ok rnd (set (table ?m)) (sy_procs sys)"
    using assms(1,2) by (simp_all add: sys_inv_def known_def)
  obtain m1 sigs where r: "master_reload (me_loaded env) (me_calloc env) (me_reload_forks env) ?m = Some (m1, sigs)"
    and s': "sys' = sys\<lparr>sy_master := m1, sy_procs := (if me_loaded env = None then sy_procs sys
          else fork_places (sy_actions sys) (me_loaded env) (me_reload_forks env) (live_places ?m)
                 (kill_all ts SIGUSR1 sigs (sy_procs sys)))\<rparr>"
    using assms(3) by (auto simp: sys_reload_def Let_def)
  show ?thesis
  proof (cases "me_loaded env")
    case None
    then have "m1 = ?m" using r by (simp add: master_reload_def)
    then show ?thesis using None s' n dfl ok assms(2) by (simp add: sys_inv_def known_def)
  next
    case (Some cfg)
    note t = reload_table [OF r [unfolded Some] n]
    have "procs_ok rnd ({p \<in> set (table ?m). 0 < p \<and> sy_procs sys p \<noteq> None} - set sigs) (kill_all ts SIGUSR1 sigs (sy_procs sys))"
      by (rule kill_usr1_ok [OF procs_ok_positive [OF ok]])
    then have "procs_ok rnd {} (kill_all ts SIGUSR1 sigs (sy_procs sys))" by (rule procs_ok_mono) (auto simp: t(2))
    from fork_places_ok [where a = "sy_actions sys" and forks = "me_reload_forks env" and places = "live_places ?m"
        and cfg = "me_loaded env", OF this dfl(1)]
    have "procs_ok rnd (set (table m1)) (fork_places (sy_actions sys) (me_loaded env) (me_reload_forks env) (live_places ?m)
        (kill_all ts SIGUSR1 sigs (sy_procs sys)))" by (rule procs_ok_mono) (use t(1) in simp)
    then have "procs_ok rnd (set (table m1)) (sy_procs sys')" using Some s' by simp
    then show ?thesis using s' n t(3,4) dfl assms(2) by (simp add: sys_inv_def known_def)
  qed
qed

lemma sys_reap_inv:
  assumes "sys_inv rnd sys" "sy_running sys" "sy_procs sys pid = None"
  shows "sys_inv rnd (sys_reap forks pid sys)"
proof -
  let ?m = "sy_master sys" and ?m1 = "handle_worker_exit forks (sy_master sys) pid"
  have n: "num_workers ?m \<le> length (worker_pids ?m)" and dfl: "sy_actions sys SIGUSR1 = SIG_DFL" "sy_actions sys SIGUSR2 = SIG_DFL"
    and ok: "procs_ok rnd (set (table ?m)) (sy_procs sys)"
    using assms(1,2) by (simp_all add: sys_inv_def known_def)
  note t = exit_table [OF n, where forks = forks and pid = pid]
  have "procs_ok rnd (set (table ?m1)) (sy_procs sys)"
    by (rule procs_ok_mono [OF procs_ok_positive [OF ok]]) (use t(1) assms(3) in auto)
  then have "procs_ok rnd (set (table ?m1)) (sy_procs (sys_reap forks pid sys))"
  proof (cases "restart_place ?m pid")
    case (Some i)
    have "procs_ok rnd (insert (forks i) (set (table ?m1))) (fork_worker (sy_actions sys) (m_config ?m) (i, forks i) (sy_procs sys))"
      by (rule fork_worker_ok) fact+
    then show ?thesis using Some t(2) [OF Some] by (simp add: sys_reap_def insert_absorb)
  qed (simp add: sys_reap_def)
  then show ?thesis using n dfl t(3) exit_fields(1) assms(2) by (simp add: sys_inv_def known_def sys_reap_def)
qed

lemma sys_stop_inv:
  assumes "sys_inv rnd sys" "sy_running sys"
  shows "sys_inv rnd (sys_stop ts rs sys)"
proof -
  let ?m = "sy_master sys"
  let ?sigs = "master_shutdown_workers ?m"
  have n: "num_workers ?m \<le> length (worker_pids ?m)" and dfl: "sy_actions sys SIGUSR1 = SIG_DFL" "sy_actions sys SIGUSR2 = SIG_DFL"
    and ok: "procs_ok rnd (set (table ?m)) (sy_procs sys)"
    using assms by (simp_all add: sys_inv_def known_def)
  obtain m1 killed where w: "wait_for_workers rs ?m = (m1, killed)" by force
  have "procs_ok rnd ({p \<in> set (table ?m). 0 < p \<and> sy_procs sys p \<noteq> None} - set ?sigs) (kill_all ts SIGUSR1 ?sigs (sy_procs sys))"
    by (rule kill_usr1_ok [OF procs_ok_positive [OF ok]])
  then have "procs_ok rnd {} (kill_all ts SIGUSR1 ?sigs (sy_procs sys))"
    by (rule procs_ok_mono) (auto simp: master_shutdown_workers_def)
  then have "procs_ok rnd {} (sy_procs (sys_stop ts rs sys))" by (simp add: sys_stop_def w procs_ok_def)
  moreover have "num_workers m1 = num_workers ?m \<and> length (worker_pids m1) = length (worker_pids ?m)"
    using wait_for_workers_size [OF n w] .
  ultimately show ?thesis using n dfl by (simp add: sys_inv_def known_def sys_stop_def w)
qed

lemma system_step_inv:
  assumes "system_step rnd sys sys'" "sys_inv rnd sys"
  shows "sys_inv rnd sys'"
  using assms
proof (induction rule: system_step.induct)
  case (boots sys p wid cfg a bo usr1_ok usr2_ok)
  have old: "a SIGUSR1 = SIG_DFL" "0 < p" "p \<in> known sys"
    using boots unfolding sys_inv_def procs_ok_def by fastforce+
  have "proc_ok rnd P' \<and> 0 < p \<and> (drains P' \<or> p \<in> known sys)" if b: "boot_worker bo usr1_ok usr2_ok wid cfg a = Some P'" for P'
  proof -
    obtain w where w: "worker_start bo wid cfg = Some w"
      "P' = Serving \<lparr>sv_worker = w, sv_conns = []\<rparr> (setup_worker_signals usr1_ok usr2_ok a)"
      using b by (auto simp: boot_worker_def)
    then have "\<exists>bo wid cfg. worker_reach rnd bo wid cfg \<lparr>sv_worker = w, sv_conns = []\<rparr>"
      using worker_reach.start by blast
    then show ?thesis using w old by simp
  qed
  then have "procs_ok rnd (known sys) ((sy_procs sys)(p := boot_worker bo usr1_ok usr2_ok wid cfg a))"
    using boots.prems by (intro procs_ok_update) (simp_all add: sys_inv_def)
  then show ?case using boots.prems by (simp add: sys_inv_def)
next
  case (works sys p s a s')
  have old: "proc_ok rnd (Serving s a)" "0 < p" "draining (sv_worker s) \<or> p \<in> known sys"
    using works.hyps(1) works.prems unfolding sys_inv_def procs_ok_def by fastforce+
  then obtain bo wid cfg where reach: "worker_reach rnd bo wid cfg s" by auto
  have "worker_reach rnd bo wid cfg s'" by (rule worker_reach.step [OF reach works.hyps(2)])
  moreover have "draining (sv_worker s) \<longrightarrow> draining (sv_worker s')"
    using step_inv [OF works.hyps(2) reach_inv(1) [OF reach]] by (simp add: w_fixed_def)
  ultimately have "proc_ok rnd (Serving s' a) \<and> (drains (Serving s' a) \<or> p \<in> known sys)"
    using old proc_ok.simps(2) drains.simps(2) by metis
  then have "procs_ok rnd (known sys) ((sy_procs sys)(p \<mapsto> Serving s' a))"
    using works.prems old(2) by (intro procs_ok_update) (auto simp: sys_inv_def simp del: proc_ok.simps drains.simps)
  then show ?case using works.prems by (simp add: sys_inv_def)
next
  case (ends sys p)
  then have "procs_ok rnd (known sys) ((sy_procs sys)(p := None))"
    by (intro procs_ok_update) (simp_all add: sys_inv_def)
  then show ?case using ends by (simp add: sys_inv_def)
next
  case (signalled sys ts sig p)
  then show ?case using kill_all_ok by (simp add: sys_inv_def)
next
  case (master_signal sys sig m)
  then have "num_workers m = num_workers (sy_master sys)" "worker_pids m = worker_pids (sy_master sys)"
    by (auto simp: on_master_signal_def sigterm_handler_def sighup_handler_def split: Action.splits if_splits)
  then show ?case using master_signal by (simp add: sys_inv_def known_def)
next
  case (reloads sys ts env sys')
  then show ?case using sys_reload_inv by blast
next
  case (reaps sys pid forks)
  then show ?case using sys_reap_inv by blast
next
  case (stops sys ts rs)
  then show ?case using sys_stop_inv by blast
qed

lemma sys_start_inv:
  assumes "sys_start forks a m = Some sys" "a SIGUSR1 = SIG_DFL" "a SIGUSR2 = SIG_DFL"
  shows "sys_inv rnd sys"
proof -
  obtain pids where s: "start_loop forks (worker_pids m) 0 (num_workers m) = Some pids"
    and sys: "sys = \<lparr>sy_master = m\<lparr>worker_pids := pids\<rparr>, sy_actions = setup_master_signals a,
       sy_procs = fork_places (setup_master_signals a) (m_config m) forks [0..<num_workers m] (\<lambda>_. None), sy_running = True\<rparr>"
    using assms(1) by (auto simp: sys_start_def start_workers_def)
  have n: "num_workers m \<le> length (worker_pids m)"
    using s start_loop_Some [of forks "worker_pids m" 0 "num_workers m"] by auto
  have "forks ` {0..<num_workers m} \<subseteq> set (take (num_workers m) pids)"
  proof
    fix x assume "x \<in> forks ` {0..<num_workers m}"
    then obtain i where "i < num_workers m" "x = forks i" by auto
    moreover then have "i < length (take (num_workers m) pids)" "take (num_workers m) pids ! i = x"
      using start_loop_pids [OF s, of i] n by auto
    ultimately show "x \<in> set (take (num_workers m) pids)" by (metis nth_mem)
  qed
  moreover have "procs_ok rnd (forks ` set [0..<num_workers m] \<union> {}) (sy_procs sys)"
    unfolding sys by (simp only: System.select_convs) (rule fork_places_ok, simp_all add: procs_ok_def assms(2))
  ultimately have "procs_ok rnd (set (take (num_workers m) pids)) (sy_procs sys)" by (auto elim: procs_ok_mono)
  then show ?thesis using n start_loop_length [OF s] assms(2,3) by (simp add: sys_inv_def known_def sys)
qed

lemma system_reach_inv: "system_reach rnd sys \<Longrightarrow> sys_inv rnd sys"
  by (induction rule: system_reach.induct) (simp_all add: sys_start_inv system_step_inv)


text \<open>
  A run: one worker starts, a reload replaces it, and the master stops while the old worker, which
  only drains, still serves its connections.
\<close>

definition one_worker :: Config where
  "one_worker = demo_cfg\<lparr>max_connections := 1\<rparr>"

definition one_limits :: FdLimits where
  "one_limits = \<lparr>fl_get = None, fl_set = True, fl_again = 0\<rparr>"

definition one_reload :: MasterEnv where
  "one_reload = \<lparr>me_loaded = Some one_worker, me_calloc = True, me_reload_forks = (\<lambda>_. 30), me_before = (False, False),
     me_wait = No_child, me_forks = (\<lambda>_. 31), me_after = (False, False)\<rparr>"

definition one_master :: MasterProcess where
  "one_master = \<lparr>m_config = Some one_worker, num_workers = 1, worker_pids = [20], draining_pids = None,
     shutdown_requested = False, reload_requested = False\<rparr>"

lemma one_served:
  "\<exists>w a. system_reach id \<lparr>sy_master = one_master, sy_actions = setup_master_signals (\<lambda>_. SIG_DFL),
     sy_procs = (\<lambda>_. None)(20 \<mapsto> Serving \<lparr>sv_worker = w, sv_conns = []\<rparr> a), sy_running = True\<rparr> \<and> a SIGUSR1 = Signal_cb
     \<and> a SIGUSR2 = Signal_reload_cb"
proof -
  let ?a = "setup_master_signals (\<lambda>_. SIG_DFL)" and ?a' = "setup_worker_signals True True (setup_master_signals (\<lambda>_. SIG_DFL))"
  obtain w where w: "worker_start demo_boot 0 one_worker = Some w"
    using demo_starts [of one_worker] by (auto simp: one_worker_def demo_cfg_def config_default_def)
  let ?m0 = "one_master\<lparr>worker_pids := [0]\<rparr>"
  let ?s0 = "\<lparr>sy_master = one_master, sy_actions = ?a, sy_procs = (\<lambda>_. None)(20 \<mapsto> Starting 0 (Some one_worker) ?a), sy_running = True\<rparr>"
  have "master_init (Some one_worker) 1 one_limits True = Some ?m0"
    by (simp add: master_init_def worker_count_def one_worker_def one_limits_def check_fd_limits_def one_master_def)
  moreover have "sys_start (\<lambda>_. 20) (\<lambda>_. SIG_DFL) (apply_options default_options ?m0) = Some ?s0"
    by (simp add: sys_start_def start_workers_def apply_options_def default_options_def one_master_def fork_places_def fork_worker_def)
  ultimately have "system_reach id ?s0" by (rule system_reach.start) simp_all
  moreover have "system_step id ?s0 (?s0\<lparr>sy_procs := (sy_procs ?s0)(20 := boot_worker demo_boot True True 0 one_worker ?a)\<rparr>)"
    by (rule system_step.boots) simp
  ultimately have "system_reach id (?s0\<lparr>sy_procs := (sy_procs ?s0)(20 := boot_worker demo_boot True True 0 one_worker ?a)\<rparr>)"
    by (rule system_reach.step)
  then show ?thesis by (intro exI [of _ w] exI [of _ ?a']) (simp add: boot_worker_def w setup_worker_signals_def)
qed


text \<open>
  C30. The documented way to renew a certificate ends the master: \<open>SIGUSR2\<close> to all processes of the
  program (\<open>kill -USR2\<close> with the ids that \<open>pgrep rawrelay-server\<close> gives) reaches the master too, which
  has no handler for it and ends, in every state it runs in, while the workers that handle the signal go on accepting
  connections, with no process left to restart, drain or reload them.
\<close>

theorem cert_renewal_ends_master:
  assumes "system_reach rnd sys" "sy_procs sys p = Some (Serving s a)" "a SIGUSR2 = Signal_reload_cb"
  shows "on_master_signal (sy_actions sys) SIGUSR2 (sy_master sys) = None
    \<and> (\<exists>s'. on_signal ts SIGUSR2 (Serving s a) = Some (Serving s' a)
         \<and> draining (sv_worker s') = draining (sv_worker s) \<and> w_listener (sv_worker s') = w_listener (sv_worker s))"
  using system_reach_inv [OF assms(1)] assms(3)
  by (simp add: sys_inv_def on_master_signal_def signal_reload_cb_def)

theorem cert_renewal_ends_master_witness:
  "\<exists>sys s a. system_reach id sys \<and> sy_procs sys 20 = Some (Serving s a)
     \<and> on_master_signal (sy_actions sys) SIGUSR2 (sy_master sys) = None"
proof -
  obtain w a where r0: "system_reach id \<lparr>sy_master = one_master, sy_actions = setup_master_signals (\<lambda>_. SIG_DFL),
     sy_procs = (\<lambda>_. None)(20 \<mapsto> Serving \<lparr>sv_worker = w, sv_conns = []\<rparr> a), sy_running = True\<rparr>" and a: "a SIGUSR2 = Signal_reload_cb"
    using one_served by blast
  let ?s0 = "\<lparr>sy_master = one_master, sy_actions = setup_master_signals (\<lambda>_. SIG_DFL),
     sy_procs = (\<lambda>_. None)(20 \<mapsto> Serving \<lparr>sv_worker = w, sv_conns = []\<rparr> a), sy_running = True\<rparr>"
  have p: "sy_procs ?s0 20 = Some (Serving \<lparr>sv_worker = w, sv_conns = []\<rparr> a)" by simp
  show ?thesis using cert_renewal_ends_master [OF r0 p a] r0 p by blast
qed

end
