(* ===== verification/TcpOpts.thy ===== *)
theory TcpOpts
  imports Connection
begin

text \<open>
  \<^verbatim>\<open>src/src/tcp_opts.c\<close>: the options of a socket, and their use around a static file in
  \<^verbatim>\<open>src/src/connection.c\<close>. Whether \<open>setsockopt\<close> succeeds is a parameter; when it does, the option of the
  descriptor has the value. The platform has \<open>TCP_CORK\<close>.
\<close>

datatype TcpOption = TCP_NODELAY | TCP_CORK

type_synonym sockopts = "int \<Rightarrow> TcpOption \<Rightarrow> bool"

definition setsockopt :: "(int \<Rightarrow> TcpOption \<Rightarrow> bool \<Rightarrow> bool) \<Rightarrow> int \<Rightarrow> TcpOption \<Rightarrow> bool \<Rightarrow> sockopts \<Rightarrow> sockopts \<times> int" where
  "setsockopt ok fd opt flag so = (if ok fd opt flag then (so(fd := (so fd)(opt := flag)), 0) else (so, -1))"

definition tcp_nodelay_enable :: "(int \<Rightarrow> TcpOption \<Rightarrow> bool \<Rightarrow> bool) \<Rightarrow> int \<Rightarrow> sockopts \<Rightarrow> sockopts \<times> int" where
  "tcp_nodelay_enable ok fd so = (case setsockopt ok fd TCP_NODELAY True so of (so1, r) \<Rightarrow> if r < 0 then (so1, -1) else (so1, 0))"

definition tcp_cork_enable :: "(int \<Rightarrow> TcpOption \<Rightarrow> bool \<Rightarrow> bool) \<Rightarrow> int \<Rightarrow> sockopts \<Rightarrow> sockopts \<times> int" where
  "tcp_cork_enable ok fd so = (case setsockopt ok fd TCP_CORK True so of (so1, r) \<Rightarrow> if r < 0 then (so1, -1) else (so1, 0))"

definition tcp_cork_disable :: "(int \<Rightarrow> TcpOption \<Rightarrow> bool \<Rightarrow> bool) \<Rightarrow> int \<Rightarrow> sockopts \<Rightarrow> sockopts \<times> int" where
  "tcp_cork_disable ok fd so = (case setsockopt ok fd TCP_CORK False so of (so1, r) \<Rightarrow> if r < 0 then (so1, -1) else (so1, 0))"

text \<open>\<open>serve_static_file\<close> with the socket: cork, queue the response, uncork; the results are ignored.\<close>

definition serve_static_corked :: "(int \<Rightarrow> TcpOption \<Rightarrow> bool \<Rightarrow> bool) \<Rightarrow> int \<Rightarrow> Config \<Rightarrow> StaticFile \<Rightarrow> int \<Rightarrow> string
    \<Rightarrow> sockopts \<times> Connection \<Rightarrow> sockopts \<times> Connection" where
  "serve_static_corked ok fd cfg file code txt = (\<lambda>(so, conn).
     let so1 = fst (tcp_cork_enable ok fd so);
         conn1 = serve_static_file cfg file code txt conn in
     (fst (tcp_cork_disable ok fd so1), conn1))"

lemmas tcp_defs = setsockopt_def tcp_nodelay_enable_def tcp_cork_enable_def tcp_cork_disable_def

lemma tcp_results:
  "snd (tcp_nodelay_enable ok fd so) = (if ok fd TCP_NODELAY True then 0 else -1)"
  "snd (tcp_cork_enable ok fd so) = (if ok fd TCP_CORK True then 0 else -1)"
  "snd (tcp_cork_disable ok fd so) = (if ok fd TCP_CORK False then 0 else -1)"
  by (simp_all add: tcp_defs)

text \<open>
  The cork covers no write: when it is gone the whole response is still in the output buffer, which
  the event loop writes out later. It stays on the socket if the second call fails.
\<close>

lemma cork_covers_no_write:
  assumes "serve_static_corked ok fd cfg file code txt (so, conn) = (so', conn')"
  shows "so' fd TCP_CORK = (if ok fd TCP_CORK False then False else so fd TCP_CORK \<or> ok fd TCP_CORK True)"
    "take (length (outbuf conn)) (outbuf conn') = outbuf conn" "length (outbuf conn) < length (outbuf conn')"
  using assms
  by (auto simp: serve_static_corked_def tcp_defs Let_def serve_static_file_def finish_response_def response_text_def split: if_splits)

end
