(* ===== verification/Security.thy ===== *)
theory Security
  imports Config
begin

text \<open>
  \<^verbatim>\<open>src/src/security.c\<close>: the system call filter of the workers. The filter is a program of the
  kernel's packet filter machine, built by the macro \<open>ALLOW_SYSCALL\<close>; its meaning is given by an
  interpreter of the three instructions it uses. The numbers of the system calls, which of them
  the platform defines, and the audit architecture come from the kernel headers and are parameters.
\<close>

datatype Bpf = LD_arch | LD_nr | JEQ u32 nat nat | RET u32

definition SECCOMP_RET_ALLOW :: u32 where "SECCOMP_RET_ALLOW = 0x7fff0000"
definition SECCOMP_RET_KILL_PROCESS :: u32 where "SECCOMP_RET_KILL_PROCESS = 0x80000000"

text \<open>
  The machine: an instruction loads a word of the call's data into the accumulator, jumps forward
  by the first or the second offset, or returns; running off the end is \<open>None\<close>.
\<close>

function bpf_run :: "u32 \<Rightarrow> u32 \<Rightarrow> Bpf list \<Rightarrow> u32 \<Rightarrow> u32 option" where
  "bpf_run arch nr [] acc = None"
| "bpf_run arch nr (LD_arch # p) acc = bpf_run arch nr p arch"
| "bpf_run arch nr (LD_nr # p) acc = bpf_run arch nr p nr"
| "bpf_run arch nr (JEQ k jt jf # p) acc = bpf_run arch nr (drop (if acc = k then jt else jf) p) acc"
| "bpf_run arch nr (RET k # p) acc = Some k"
  by pat_completeness auto
termination
  by (relation "measure (\<lambda>(_, _, p, _). length p)") (auto simp: le_imp_less_Suc)

definition ALLOW_SYSCALL :: "u32 \<Rightarrow> Bpf list" where
  "ALLOW_SYSCALL number = [JEQ number 0 1, RET SECCOMP_RET_ALLOW]"

text \<open>
  The system calls of the list in its order and its groups; the flag marks those inside an \<open>#ifdef\<close>
  of their own number.
\<close>

definition network_calls :: "(string \<times> bool) list" where
  "network_calls =
    [(''read'', False), (''write'', False), (''readv'', False), (''writev'', False), (''recvfrom'', False),
     (''sendto'', False), (''recvmsg'', False), (''sendmsg'', False), (''recvmmsg'', True), (''sendmmsg'', True),
     (''accept4'', True), (''accept'', True), (''socket'', False), (''bind'', False), (''listen'', False),
     (''getsockname'', False), (''getpeername'', False), (''setsockopt'', False), (''getsockopt'', False),
     (''shutdown'', False), (''close'', False), (''pipe'', True), (''pipe2'', True), (''dup'', True),
     (''dup2'', True), (''dup3'', True), (''eventfd'', True), (''eventfd2'', True), (''socketpair'', True)]"

definition memory_calls :: "(string \<times> bool) list" where
  "memory_calls =
    [(''brk'', False), (''mmap'', False), (''munmap'', False), (''mprotect'', False), (''mremap'', False),
     (''madvise'', True)]"

definition file_calls :: "(string \<times> bool) list" where
  "file_calls =
    [(''openat'', False), (''open'', False), (''fstat'', False), (''stat'', True), (''lstat'', True),
     (''newfstatat'', True), (''access'', True), (''faccessat'', True), (''lseek'', False), (''pread64'', True),
     (''pwrite64'', True), (''ioctl'', False)]"

definition event_calls :: "(string \<times> bool) list" where
  "event_calls =
    [(''epoll_create1'', False), (''epoll_ctl'', False), (''epoll_wait'', False), (''epoll_pwait'', True),
     (''epoll_pwait2'', True), (''poll'', False), (''ppoll'', True), (''select'', False), (''pselect6'', True)]"

definition time_calls :: "(string \<times> bool) list" where
  "time_calls =
    [(''gettimeofday'', False), (''clock_gettime'', False), (''clock_getres'', True), (''timerfd_create'', True),
     (''timerfd_settime'', True), (''timerfd_gettime'', True)]"

definition signal_calls :: "(string \<times> bool) list" where
  "signal_calls =
    [(''rt_sigaction'', False), (''rt_sigprocmask'', False), (''rt_sigreturn'', False), (''sigaltstack'', False)]"

definition process_calls :: "(string \<times> bool) list" where
  "process_calls =
    [(''exit'', False), (''exit_group'', False), (''getpid'', False), (''gettid'', False), (''getuid'', True),
     (''geteuid'', True)]"

definition misc_calls :: "(string \<times> bool) list" where
  "misc_calls =
    [(''futex'', False), (''getrandom'', True), (''prlimit64'', True), (''fcntl'', False), (''fcntl64'', True),
     (''rseq'', True), (''statx'', True), (''getrlimit'', True), (''clock_nanosleep'', True),
     (''nanosleep'', True), (''sendfile'', True), (''sendfile64'', True), (''uname'', True),
     (''arch_prctl'', True), (''set_tid_address'', True), (''set_robust_list'', True), (''connect'', True),
     (''getppid'', True)]"

definition filter_calls :: "(string \<times> bool) list" where
  "filter_calls = network_calls @ memory_calls @ file_calls @ event_calls @ time_calls @ signal_calls @ process_calls @ misc_calls"

lemmas filter_calls_simps = filter_calls_def network_calls_def memory_calls_def file_calls_def event_calls_def time_calls_def
  signal_calls_def process_calls_def misc_calls_def

text \<open>The calls compiled in: all, or those that the platform has a number for.\<close>

definition compiled_calls :: "(string \<Rightarrow> bool) \<Rightarrow> string list" where
  "compiled_calls defd = map fst (filter (\<lambda>(name, ifd). ifd \<longrightarrow> defd name) filter_calls)"

definition seccomp_filter :: "(string \<Rightarrow> bool) \<Rightarrow> (string \<Rightarrow> u32) \<Rightarrow> u32 \<Rightarrow> Bpf list" where
  "seccomp_filter defd number audit_arch =
    [LD_arch] @ (if audit_arch \<noteq> 0 then [JEQ audit_arch 1 0, RET SECCOMP_RET_KILL_PROCESS] else []) @ [LD_nr] @
    concat (map (\<lambda>name. ALLOW_SYSCALL (number name)) (compiled_calls defd)) @ [RET SECCOMP_RET_KILL_PROCESS]"

text \<open>
  Installing it: \<open>set_ok\<close> is the outcome of the \<open>prctl\<close> that installs the filter, \<open>have_seccomp\<close> that
  of the one that asks for it. The result is the filter in force afterwards and the return value.
\<close>

definition apply_seccomp_filter :: "bool \<Rightarrow> Bpf list \<Rightarrow> Bpf list option \<times> int" where
  "apply_seccomp_filter set_ok prog = (if set_ok then (Some prog, 0) else (None, -1))"

definition security_seccomp_available :: "bool \<Rightarrow> u32 \<Rightarrow> bool" where
  "security_seccomp_available have_seccomp audit_arch = (if audit_arch \<noteq> 0 then have_seccomp else False)"

definition security_apply_worker_restrictions :: "bool \<Rightarrow> bool \<Rightarrow> (string \<Rightarrow> bool) \<Rightarrow> (string \<Rightarrow> u32) \<Rightarrow> u32
    \<Rightarrow> Bpf list option \<times> int" where
  "security_apply_worker_restrictions have_seccomp set_ok defd number audit_arch =
    (if \<not> security_seccomp_available have_seccomp audit_arch then (None, 0)
     else apply_seccomp_filter set_ok (seccomp_filter defd number audit_arch))"

text \<open>
  What a worker does at the end of its start: the filter in force while it serves, and the decision
  about a call of its own architecture.
\<close>

definition worker_filter :: "Config \<Rightarrow> bool \<Rightarrow> bool \<Rightarrow> (string \<Rightarrow> bool) \<Rightarrow> (string \<Rightarrow> u32) \<Rightarrow> u32 \<Rightarrow> Bpf list option" where
  "worker_filter config have_seccomp set_ok defd number audit_arch =
    (if seccomp_enabled config \<noteq> 0
     then fst (security_apply_worker_restrictions have_seccomp set_ok defd number audit_arch) else None)"

definition call_survives :: "Bpf list option \<Rightarrow> u32 \<Rightarrow> u32 \<Rightarrow> bool" where
  "call_survives prog audit_arch nr = (case prog of
     None \<Rightarrow> True
   | Some p \<Rightarrow> bpf_run audit_arch nr p 0 = Some SECCOMP_RET_ALLOW)"

subsection \<open>What the filter decides\<close>

lemma bpf_run_allow:
  "bpf_run arch nr (concat (map (\<lambda>name. ALLOW_SYSCALL (number name)) names) @ rest) nr =
     (if nr \<in> number ` set names then Some SECCOMP_RET_ALLOW else bpf_run arch nr rest nr)"
proof (induction names)
  case (Cons a names)
  then show ?case by (auto simp: ALLOW_SYSCALL_def)
qed simp

text \<open>
  C29. The filter is the whitelist it is meant to be: run on any system call, the program that the
  macros build returns \<open>ALLOW\<close> exactly when the call comes from the native architecture and its
  number is that of a listed call, and kills the process otherwise; it never runs off its end.
\<close>

theorem seccomp_filter_decides:
  assumes "audit_arch \<noteq> 0"
  shows "bpf_run arch nr (seccomp_filter defd number audit_arch) acc =
    Some (if arch = audit_arch \<and> nr \<in> number ` set (compiled_calls defd) then SECCOMP_RET_ALLOW else SECCOMP_RET_KILL_PROCESS)"
  using assms by (simp add: seccomp_filter_def bpf_run_allow)

theorem seccomp_filter_decides_witness:
  "bpf_run 0xC000003E 5 (seccomp_filter (\<lambda>_. True) (\<lambda>name. of_nat (length name)) 0xC000003E) 0 = Some SECCOMP_RET_ALLOW"
proof -
  have "(5 :: u32) \<in> (\<lambda>name. of_nat (length name)) ` set (compiled_calls (\<lambda>_. True))"
    by (rule image_eqI [of _ _ "''write''"]) (simp_all add: compiled_calls_def filter_calls_simps)
  then show ?thesis using seccomp_filter_decides [of "0xC000003E" "0xC000003E" 5] by simp
qed

text \<open>
  C33. A worker whose configuration asks for the filter does not survive its own metrics page: counting
  the open descriptors reads the directory \<^verbatim>\<open>/proc/self/fd\<close>, for which the C library uses \<open>getdents64\<close>.
  The call is not listed, so on every platform that numbers it differently from the listed calls,
  once the filter is installed, the call kills the process, while without the filter it passes.
\<close>

theorem seccomp_kills_directory_reads:
  assumes "audit_arch \<noteq> 0" "have_seccomp" "set_ok" "inj_on number (insert ''getdents64'' (fst ` set filter_calls))"
  shows "call_survives (worker_filter config have_seccomp set_ok defd number audit_arch) audit_arch (number ''getdents64'')
     \<longleftrightarrow> seccomp_enabled config = 0"
proof -
  have "''getdents64'' \<notin> fst ` set filter_calls" by (simp add: filter_calls_simps)
  moreover have "set (compiled_calls defd) \<subseteq> fst ` set filter_calls" by (auto simp: compiled_calls_def)
  ultimately have "number ''getdents64'' \<notin> number ` set (compiled_calls defd)" using assms(4)
    unfolding inj_on_def by blast
  then show ?thesis using assms(1-3)
    by (simp add: call_survives_def worker_filter_def security_apply_worker_restrictions_def security_seccomp_available_def
        apply_seccomp_filter_def seccomp_filter_def bpf_run_allow SECCOMP_RET_ALLOW_def SECCOMP_RET_KILL_PROCESS_def)
qed

text \<open>A numbering for the witness: the position in the list.\<close>

definition list_number :: "string \<Rightarrow> u32" where
  "list_number name = of_nat (length (takeWhile (\<lambda>x. x \<noteq> name) (''getdents64'' # map fst filter_calls)))"

lemma list_number_inj: "inj_on list_number (insert ''getdents64'' (fst ` set filter_calls))"
proof -
  let ?xs = "''getdents64'' # map fst filter_calls"
  have idx: "length (takeWhile (\<lambda>x. x \<noteq> name) xs) < length xs \<and> xs ! length (takeWhile (\<lambda>x. x \<noteq> name) xs) = name"
    if "name \<in> set xs" for name and xs :: "string list"
    using that by (induction xs) auto
  have small: "length ?xs < 2 ^ 32" by (simp add: filter_calls_simps)
  have un: "unat (list_number name) = length (takeWhile (\<lambda>x. x \<noteq> name) ?xs)" if "name \<in> set ?xs" for name
  proof -
    have "length (takeWhile (\<lambda>x. x \<noteq> name) ?xs) < 2 ^ 32" using idx [OF that] small by linarith
    then show ?thesis unfolding list_number_def by (simp only: unat_of_nat) simp
  qed
  have "inj_on list_number (set ?xs)"
  proof (rule inj_onI)
    fix a b
    assume "a \<in> set ?xs" "b \<in> set ?xs" "list_number a = list_number b"
    then show "a = b" using idx un by metis
  qed
  then show ?thesis by simp
qed

theorem seccomp_kills_directory_reads_witness:
  "\<not> call_survives (worker_filter (config_default\<lparr>seccomp_enabled := 1\<rparr>) True True (\<lambda>_. True) list_number 0xC000003E)
       0xC000003E (list_number ''getdents64'')"
  using seccomp_kills_directory_reads [OF _ TrueI TrueI list_number_inj, of "0xC000003E" "config_default\<lparr>seccomp_enabled := 1\<rparr>"] by simp

end
