(* ===== verification/Report.thy ===== *)
theory Report
  imports RpcState Security
begin

text \<open>
  What the program prints about itself: \<open>config_print\<close> of \<^verbatim>\<open>src/src/config.c\<close>, the help text and the report
  of \<open>-t\<close> in \<^verbatim>\<open>src/src/main.c\<close>, and the status that \<^verbatim>\<open>src/src/rpc.c\<close> and \<^verbatim>\<open>src/src/security.c\<close> log, with
  the number of processors of \<^verbatim>\<open>src/src/worker.c\<close>. Standard output is the text written; a logged status
  is the list of its messages. The lemmas show that none of it depends on a credential.
\<close>

subsection \<open>The configuration\<close>

text \<open>\<open>printf\<close> of a heading, and of a label with a value.\<close>

definition heading :: "string \<Rightarrow> string" where "heading h = ''  '' @ h @ '':'' @ [LF]"

definition entry :: "string \<Rightarrow> string \<Rightarrow> string" where "entry label v = ''    '' @ label @ v @ [LF]"

definition enabled_text :: "int \<Rightarrow> string" where
  "enabled_text flag = (if flag \<noteq> 0 then ''ENABLED'' else ''DISABLED'')"

definition file_text :: "string \<Rightarrow> string" where
  "file_text file = (if file \<noteq> [] then file else ''(disabled)'')"

text \<open>The chain that is not set is not one of the cases of \<open>network_chain_to_string\<close>.\<close>

definition chain_text :: "BitcoinChain option \<Rightarrow> string" where
  "chain_text chain =
    (case chain of None \<Rightarrow> ''unknown'' | Some ch \<Rightarrow> network_chain_to_string ch) @
    (if (case chain of None \<Rightarrow> True | Some ch \<Rightarrow> network_is_test_network ch)
     then '' [TEST NETWORK - coins have no value]'' else [])"

text \<open>A \<open>size_t\<close> as a number of larger units; \<open>rnd\<close> rounds to a double.\<close>

definition unit_text :: "(rat \<Rightarrow> rat) \<Rightarrow> nat \<Rightarrow> rat \<Rightarrow> string \<Rightarrow> string" where
  "unit_text rnd n per name = fmt_u n @ '' bytes ('' @ fmt_f 1 (rnd (rnd (of_nat n) / per)) @ '' '' @ name @ '')''"

definition config_print :: "(rat \<Rightarrow> rat) \<Rightarrow> Config option \<Rightarrow> string" where
  "config_print rnd config = (case config of
     None \<Rightarrow> ''Config: NULL'' @ [LF]
   | Some c \<Rightarrow>
      ''Configuration:'' @ [LF] @
      heading ''Network'' @
      entry ''chain:            '' (chain_text (cfg_chain c)) @
      heading ''Buffer'' @
      entry ''initial_size:     '' (fmt_u (initial_buffer_size c) @ '' bytes'') @
      entry ''max_size:         '' (unit_text rnd (max_buffer_size c) (1024 * 1024) ''MB'') @
      heading ''Tiers'' @
      entry ''large_threshold:  '' (unit_text rnd (tier_large_threshold c) 1024 ''KB'') @
      entry ''huge_threshold:   '' (unit_text rnd (tier_huge_threshold c) (1024 * 1024) ''MB'') @
      heading ''Server'' @
      entry ''port:             '' (fmt_d (listen_port c)) @
      entry ''max_connections:  '' (fmt_d (max_connections c)) @
      entry ''read_timeout:     '' (fmt_d (read_timeout_sec c) @ '' seconds'') @
      heading ''Static'' @
      entry ''dir:              '' (static_dir c) @
      entry ''cache_max_age:    '' (fmt_d (cache_max_age c) @ '' seconds'') @
      heading ''Slots (per worker)'' @
      entry ''normal_max:       '' (fmt_d (slots_normal_max c)) @
      entry ''large_max:        '' (fmt_d (slots_large_max c)) @
      entry ''huge_max:         '' (fmt_d (slots_huge_max c)) @
      heading ''Rate Limiting (per worker, per IP)'' @
      (if rate_limit_rps c > 0 then
         entry ''rps:              '' (fmt_f 1 (rate_limit_rps c) @ '' req/sec'') @
         entry ''burst:            '' (fmt_f 1 (rate_limit_burst c) @ '' requests'')
       else entry ''status:           '' ''DISABLED'') @
      heading ''TLS'' @
      (if tls_enabled c \<noteq> 0 then
         entry ''status:           '' ''ENABLED'' @
         entry ''port:             '' (fmt_d (tls_port c)) @
         entry ''cert_file:        '' (tls_cert_file c) @
         entry ''key_file:         '' (tls_key_file c) @
         entry ''http2:            '' (enabled_text (http2_enabled c))
       else entry ''status:           '' ''DISABLED'') @
      heading ''Logging'' @
      entry ''json_format:      '' (enabled_text (json_logging c)) @
      entry ''verbose:          '' (if cfg_verbose c \<noteq> 0 then ''ENABLED (full IPs)'' else ''DISABLED (IPs hidden)'') @
      heading ''ACME'' @
      entry ''challenge_dir:    '' (acme_challenge_dir c) @
      heading ''Security'' @
      entry ''blocklist_file:   '' (file_text (blocklist_file c)) @
      entry ''allowlist_file:   '' (file_text (allowlist_file c)) @
      entry ''seccomp:          '' (enabled_text (seccomp_enabled c)))"

subsection \<open>The command line\<close>

text \<open>\<open>sysconf\<close> gives a \<open>long\<close>, which the code cuts to an \<open>int\<close>.\<close>

definition get_num_cpus :: "64 word \<Rightarrow> int" where
  "get_num_cpus n = (if sint n > 0 then sint (ucast n :: 32 word) else 1)"

definition pin_to_cpu :: "bool \<Rightarrow> int" where
  "pin_to_cpu setaffinity_ok = (if setaffinity_ok then 0 else -1)"

definition print_usage :: "string \<Rightarrow> string" where
  "print_usage prog = concat (map (\<lambda>l. l @ [LF])
    [''Usage: '' @ prog @ '' [options] [config_file]'',
     [],
     ''Options:'',
     ''  -h, --help      Show this help message'',
     ''  -t, --test      Test configuration and exit'',
     ''  -w, --workers N Override number of workers'',
     ''  -b, --benchmark Disable rate limits & raise slot limits for benchmarking'',
     [],
     ''Arguments:'',
     ''  config_file     Path to configuration file (default: config.ini)'',
     [],
     ''Signals:'',
     ''  SIGTERM, SIGINT - Graceful shutdown'',
     ''  SIGHUP          - Graceful reload (re-read config)'',
     ''  SIGUSR1         - (to workers) Graceful drain'',
     [],
     ''Examples:'',
     ''  '' @ prog @ ''                      # Use default config.ini'',
     ''  '' @ prog @ '' /etc/rawrelay.ini    # Use custom config'',
     ''  '' @ prog @ '' -w 8                 # Force 8 workers'',
     []])"

text \<open>What \<open>main\<close> prints with \<open>-t\<close>.\<close>

definition test_report :: "(rat \<Rightarrow> rat) \<Rightarrow> 64 word \<Rightarrow> Config option \<Rightarrow> nat \<Rightarrow> string" where
  "test_report rnd nproc config workers =
    ''Configuration OK:'' @ [LF] @ config_print rnd config @
    [LF] @ ''Workers: '' @ fmt_u workers @ [LF] @ ''CPUs available: '' @ fmt_d (get_num_cpus nproc) @ [LF]"

subsection \<open>Status\<close>

definition client_status :: "string \<Rightarrow> RPCClient \<Rightarrow> string list" where
  "client_status name cl =
    (if cl_host cl \<noteq> []
     then [''  '' @ name @ '': '' @ cl_host cl @ '':'' @ fmt_d (cl_port cl) @ '' ('' @
             (if cl_available cl \<noteq> 0 then ''UP'' else ''DOWN'') @ '')'']
     else [])"

definition rpc_manager_log_status :: "RPCManager \<Rightarrow> string list" where
  "rpc_manager_log_status mgr =
    [''RPC Manager Status:'',
     ''  Total broadcasts: '' @ fmt_u (unat (total_broadcasts mgr)),
     ''  Successful: '' @ fmt_u (unat (successful_broadcasts mgr)),
     ''  Failed: '' @ fmt_u (unat (failed_broadcasts mgr))] @
    client_status ''Mainnet'' (mg_mainnet mgr) @ client_status ''Testnet'' (mg_testnet mgr) @
    client_status ''Signet'' (mg_signet mgr) @ client_status ''Regtest'' (mg_regtest mgr)"

definition security_log_status :: "bool \<Rightarrow> u32 \<Rightarrow> string list" where
  "security_log_status have_seccomp audit_arch =
    (if security_seccomp_available have_seccomp audit_arch then [''Security: seccomp available'']
     else [''Security: seccomp not available''])"

subsection \<open>Credentials stay out of the reports\<close>

text \<open>Two configurations, and two clients, that differ in credentials only.\<close>

definition same_but_rpc :: "Config \<Rightarrow> Config \<Rightarrow> bool" where
  "same_but_rpc c c' \<longleftrightarrow> c' = c\<lparr>rpc_mainnet := rpc_mainnet c', rpc_testnet := rpc_testnet c',
     rpc_signet := rpc_signet c', rpc_regtest := rpc_regtest c'\<rparr>"

lemma config_print_without_credentials:
  assumes "same_but_rpc c c'"
  shows "test_report rnd nproc (Some c') workers = test_report rnd nproc (Some c) workers"
proof -
  have "config_print rnd (Some (c\<lparr>rpc_mainnet := a, rpc_testnet := b, rpc_signet := d, rpc_regtest := e\<rparr>))
      = config_print rnd (Some c)" for a b d e by (simp add: config_print_def)
  then have "config_print rnd (Some c') = config_print rnd (Some c)" using assms unfolding same_but_rpc_def by metis
  then show ?thesis by (simp add: test_report_def)
qed

lemma client_status_without_credentials:
  "client_status name (cl\<lparr>cl_auth_header := h, cl_wallet := w, cl_cookie_path := p\<rparr>) = client_status name cl"
  by (simp add: client_status_def)

text \<open>A missing configuration file passes \<open>-t\<close> with an unknown chain, reported as a test network.\<close>

lemma unset_chain_reported:
  "chain_text (cfg_chain config_default) = ''unknown [TEST NETWORK - coins have no value]''"
  by (simp add: chain_text_def config_default_def)

end
