(* ===== verification/Spec2Isabelle.thy ===== *)
theory Spec2Isabelle
  imports WorkerFacts RateFacts RpcFacts Links Reader Log Delivery Protocols Supervision TcpOpts Report
begin

text \<open>
  A verification library for sendrawtx (rawrelay), an HTTP gateway that takes Bitcoin transactions in
  URLs: a master process forks workers; each worker runs a libevent loop that accepts connections,
  reads HTTP/1.1 or HTTP/2 requests over TCP or TLS, routes the path, serves pages and probes, limits
  clients by address, size and rate, and has a client for the RPC interface of Bitcoin Core nodes.

  \<^bold>\<open>Parts and theories\<close> (sources under \<^verbatim>\<open>src/src\<close> and \<^verbatim>\<open>src/include\<close>)

  \<^item> \<open>Prelude\<close>: byte buffers, the C library functions on strings and numbers, \<open>printf\<close> conversions,
    searches. \<open>Inet\<close>: \<open>inet_pton\<close> and \<open>inet_ntop\<close>. \<open>Buckets\<close>: the chained hash table that two files
    write out, as the locale \<open>chained_table\<close>.
  \<^item> \<open>Hex\<close> (hex.c), \<open>Router\<close> (router.c), \<open>Network\<close> (network.c), \<open>Config\<close> (config.c): pure decisions and
    the INI file.
  \<^item> \<open>Slots\<close> (slot_manager.c): the pools of connection slots, with the locale \<open>slot_pool\<close> as the
    contract that connections and streams rely on. \<open>IpAcl\<close> (ip_acl.c) and \<open>RateLimiter\<close>
    (rate_limiter.c): two interpretations of \<open>chained_table\<close>.
  \<^item> \<open>State\<close>, \<open>RpcState\<close>: the records of worker.h, connection.h, http2.h, static_files.h, tls.h, rpc.h.
  \<^item> \<open>Endpoints\<close> (endpoints.c), \<open>StaticLoad\<close> (static_files.c), \<open>Tls\<close> (tls.c), \<open>Http2\<close> (http2.c),
    \<open>Connection\<close> (connection.c): one definition per callback or function; a callback takes the worker
    and its connection and gives both back, or \<open>None\<close> for a connection it freed.
  \<^item> \<open>Rpc\<close> and \<open>RpcAsync\<close> (rpc.c): the synchronous client, and the asynchronous one as a step relation
    \<open>rpc_step\<close> over broadcasts, bufferevent events, timers and cancellation.
  \<^item> \<open>Worker\<close> (worker.c) and \<open>EventLoop\<close>: start, admission, signals, timer and clean-up, and the event
    loop as the step relation \<open>worker_step\<close>, in which any callback may come at any time with any
    environment; \<open>worker_reach\<close> are the states reachable from a successful start.
  \<^item> \<open>Master\<close> (master.c, main.c): descriptor limits, the table of workers, restart, reload, shutdown, the
    main loop and the program with its arguments. \<open>Security\<close> (security.c): the seccomp filter as a
    program of the kernel's filter machine.
  \<^item> \<open>Log\<close> (log.c): the lines written. \<open>Buffer\<close> (buffer.c) and \<open>Reader\<close> (reader.c): the growable buffer
    and the blocking reader, which the program still compiles but no longer calls.
  \<^item> \<open>Links\<close>: the intrusive doubly linked lists of connections, streams and RPC requests, as pointer
    code on a heap of nodes.
  \<^item> \<open>Supervision\<close>: master and workers together. Processes have the signal actions that
    \<open>setup_master_signals\<close> and \<open>setup_worker_signals\<close> give them; \<open>system_step\<close> interleaves the steps of the
    workers with the forks, signals, reaping, reload and end of the master.
  \<^item> \<open>Delivery\<close> and \<open>Protocols\<close>: facts across \<open>Connection\<close> and \<open>Http2\<close>, on requests that arrive in pieces and
    on the answers of the two protocols.
  \<^item> \<open>TcpOpts\<close> (tcp_opts.c) and \<open>Report\<close>: socket options, and the texts that config.c, main.c, rpc.c and
    security.c print or log about the program.

  \<^bold>\<open>How the code is rendered.\<close> A struct is a record and an enum a datatype; a buffer with a length is a
  string; a null pointer is \<open>None\<close>; \<open>uint64_t\<close>, \<open>uint32_t\<close> and \<open>uint8_t\<close> are words; \<open>size_t\<close> is a natural
  number and C's \<open>int\<close> an integer, with the wrap-around or truncation written where the code can reach
  it; a \<open>double\<close> is a rational with the rounding \<open>rnd\<close> after every operation. The statistics of a worker
  are one function from counter names to 64-bit words. Code outside the repository is a parameter: the
  clocks, allocations (by call site), files, sockets, \<open>fork\<close> and \<open>waitpid\<close> of the operating system, the
  answers of OpenSSL, what libevent delivers, and the sequence of callbacks that nghttp2 makes with
  the bytes it sends, all universally quantified in the theorems. Failing accesses (a null pointer,
  behind an array, a freed node) are \<open>None\<close>, and so is a loop that does not end.

  \<^bold>\<open>What is shown\<close>

  \<^item> Over all reachable states of a worker (\<open>EventLoop\<close>, \<open>WorkerFacts\<close>, \<open>RateFacts\<close>): exact accounting of
    slots, connections and streams on every path; capacity; the outcome of admission on every branch;
    blocked clients never get in; a bound on the connections that a client opens per time; a drain that
    ends. The proofs go through one lemma per callback (\<open>conn_keeps\<close>, \<open>h2_keeps\<close>) over the contract of
    \<open>slot_pool\<close>.
  \<^item> For the asynchronous RPC client over all runs: every callback is made exactly once, and the buffers
    stay bounded. For the synchronous one: credentials and answers are carried unchanged, whatever
    portions they arrive in.
  \<^item> For the master: once asked to stop it does, and leaves no live worker in its table. For master and
    workers together: every process that serves is a reachable state of the worker model, and it
    drains or is known to the running master.
  \<^item> Across components: how a request is cut into pieces does not change what becomes of it, and
    HTTP/1.1 and HTTP/2 both refine one specification of the answer to a path.
  \<^item> Functional correctness: routing, access lists, prefix matching, configuration values, Content-Length, path validation, challenge lookup, response framing, metrics
    pages, ALPN, JSON log lines, the filter program.
  \<^item> Refinement of the pointer code to lists (\<open>Links\<close>, through the locale \<open>intrusive_list\<close> interpreted on
    the three lists); termination of the growth loop of buffers (\<open>Buffer\<close>).
  \<^item> Where the code does not do what it means to, a theorem states what it does: among these are the
    cleanup of the rate limiter that mixes two clocks, long challenge tokens, steady uploads that are
    cut off, a missing RPC result that counts as success, an overlong cookie line, a worker override
    beyond the process table, a failed fork that is never repeated, a filter that kills the worker
    on its metrics page, and the documented certificate renewal that ends the master.

  \<^bold>\<open>Bounds.\<close> No fuel is used. A loop that waits for the environment runs over the list of what the
  environment delivers, of any length; the others are structural or have a termination proof. The
  growth loop of a buffer and the walks along linked nodes are partial functions, with theorems that
  they return. The rate bound is for exact arithmetic and for a table that does not fill up.

  \<^bold>\<open>Not modelled.\<close> The banner, the registration of timer and listener events with libevent and the inclusion of
  headers have no state that other code reads. The callbacks of connections leave out their log messages, though
  \<open>Log\<close> models what a message becomes. A nested \<open>nghttp2_session_send\<close> does not close the stream whose
  request is being processed, and copies of header values in HTTP/2 are taken to succeed. Sums of
  configured slot numbers are not cut to 32 bits. In \<open>Supervision\<close> a
  reload and the end of the master are single steps, between which the workers step; the clock of the
  30 seconds is the length of the list of results of \<open>waitpid\<close>.
\<close>

end
